(* ===== verification/Prelude.thy ===== *)
theory Prelude
  imports Main "HOL-Library.Word"
begin

text \<open>
  Shared vocabulary of the development: the machine types of the C sources
  (\<open>uint8_t\<close> as \<open>byte\<close>, \<open>uint16_t\<close> as \<open>u16\<close>), the little-endian 16-bit read that the
  HCI headers use, the result type of a component that emits outputs (callbacks,
  wire bytes, host-stack calls) before it may stop on an error, and the lemma
  collections the component theories share.
\<close>

unbundle bit_operations_syntax

type_synonym byte = "8 word"
type_synonym u16 = "16 word"

named_theorems model_simps
  "equations of the model's operations, used to evaluate concrete runs"

named_theorems word_bounds
  "range facts about machine words, used by the bounds proofs"

subsection \<open>Little-endian 16-bit fields\<close>

text \<open>\<open>get_le16\<close> of NimBLE's \<open>endian.h\<close>: low byte first, as in HCI ACL headers.\<close>

definition get_le16 :: "byte \<Rightarrow> byte \<Rightarrow> u16" where
  "get_le16 lo hi = ucast lo OR push_bit 8 (ucast hi)"

subsection \<open>Outputs, then possibly an error\<close>

text \<open>
  A routine that invokes a callback per item it produces and may stop on an error
  is modelled by the list of outputs it produced, in order, paired with either
  the error it stopped on (\<open>Inl\<close>) or its final state (\<open>Inr\<close>). \<open>out_bind\<close>
  runs a second routine from the final state of the first, keeping both outputs;
  \<open>out_prepend\<close> adds outputs produced before the rest.
\<close>

type_synonym ('o, 'e, 's) outres = "'o list \<times> ('e + 's)"

definition out_bind :: "('o, 'e, 's) outres \<Rightarrow> ('s \<Rightarrow> ('o, 'e, 't) outres) \<Rightarrow> ('o, 'e, 't) outres" where
  "out_bind r f = (case r of
      (os, Inl e) \<Rightarrow> (os, Inl e)
    | (os, Inr s) \<Rightarrow> (case f s of (os', r') \<Rightarrow> (os @ os', r')))"

definition out_prepend :: "'o list \<Rightarrow> ('o, 'e, 's) outres \<Rightarrow> ('o, 'e, 's) outres" where
  "out_prepend xs r = (xs @ fst r, snd r)"

primrec opt_list :: "'a option \<Rightarrow> 'a list" where
  "opt_list None = []"
| "opt_list (Some x) = [x]"

definition out_map :: "('s \<Rightarrow> 't) \<Rightarrow> ('o, 'e, 's) outres \<Rightarrow> ('o, 'e, 't) outres" where
  "out_map f r = (fst r, map_sum id f (snd r))"

subsection \<open>Lemmas on words\<close>

lemma unat_byte_lt [word_bounds]: "unat (b :: byte) < 256"
proof -
  have "unat b < 2 ^ LENGTH(8)" by (rule unsigned_less)
  then show ?thesis by simp
qed

lemma unat_ucast_byte_u16 [simp]: "unat (ucast b :: u16) = unat (b :: byte)"
proof -
  have "unat b < 2 ^ 16" using unat_byte_lt [of b] by simp
  then show ?thesis by (simp add: unsigned_ucast_eq take_bit_nat_eq_self)
qed

lemma get_le16_add: "get_le16 lo hi = ucast lo + ucast hi * 256"
proof -
  have "(ucast lo :: u16) OR push_bit 8 (ucast hi) = ucast lo + push_bit 8 (ucast hi)"
    by (rule disjunctive_add_eq_or [symmetric])
      (auto simp: bit_eq_iff bit_simps dest: bit_imp_le_length)
  then show ?thesis by (simp add: get_le16_def push_bit_eq_mult)
qed

lemma unat_get_le16 [simp]: "unat (get_le16 lo hi) = unat lo + 256 * unat hi"
proof -
  have lo: "unat lo < 256" and hi: "unat hi < 256"
    by (rule unat_byte_lt)+
  have "unat (ucast hi * 256 :: u16) = unat hi * 256"
    using hi by (simp add: unat_word_ariths)
  with lo hi show ?thesis by (simp add: get_le16_add unat_word_ariths)
qed

subsection \<open>Lemmas on outputs\<close>

lemma out_bind_Inl [simp]: "out_bind (os, Inl e) f = (os, Inl e)"
  by (simp add: out_bind_def)

lemma out_bind_Inr [simp]: "out_bind (os, Inr s) f = out_prepend os (f s)"
  by (simp add: out_bind_def out_prepend_def split: prod.splits)

lemma out_prepend_Nil [simp]: "out_prepend [] r = r"
  by (simp add: out_prepend_def)

lemma out_prepend_pair [simp]: "out_prepend xs (ys, r) = (xs @ ys, r)"
  by (simp add: out_prepend_def)

lemma out_prepend_append: "out_prepend xs (out_prepend ys r) = out_prepend (xs @ ys) r"
  by (simp add: out_prepend_def)

lemma out_bind_prepend: "out_bind (out_prepend xs r) f = out_prepend xs (out_bind r f)"
  by (cases r) (auto simp: out_bind_def out_prepend_def split: sum.splits prod.splits)

lemma out_bind_assoc:
  "out_bind (out_bind r f) g = out_bind r (\<lambda>s. out_bind (f s) g)"
  by (cases r) (auto simp: out_bind_def split: sum.splits prod.splits)

lemma out_bind_return [simp]: "out_bind r (\<lambda>s. ([], Inr s)) = r"
  by (cases r) (auto simp: out_bind_def split: sum.splits)

lemma out_map_pair [simp]: "out_map f (os, Inr s) = (os, Inr (f s))" "out_map f (os, Inl e) = (os, Inl e)"
  by (simp_all add: out_map_def)

lemma out_bind_map: "out_bind (out_map f r) g = out_bind r (\<lambda>s. g (f s))"
  by (cases r) (auto simp: out_bind_def out_map_def split: sum.splits)

lemma out_map_bind: "out_map f (out_bind r g) = out_bind r (\<lambda>s. out_map f (g s))"
  by (cases r) (auto simp: out_bind_def out_map_def out_prepend_def split: sum.splits prod.splits)

lemma out_map_prepend: "out_map f (out_prepend xs r) = out_prepend xs (out_map f r)"
  by (simp add: out_map_def out_prepend_def)

lemma out_map_out_map [simp]: "out_map f (out_map g r) = out_map (\<lambda>s. f (g s)) r"
  by (simp add: out_map_def sum.map_comp o_def id_def)

lemma out_map_ident [simp]: "out_map (\<lambda>s. s) r = r"
  by (simp add: out_map_def sum.map_ident id_def)

lemmas out_simps = out_bind_prepend out_prepend_append

end
