(* ===== verification/H4.thy ===== *)
theory H4
  imports Prelude
begin

text \<open>
  The frame codec of the HCI UART (H4) transport: the type indicators, the
  header layout of each packet type, the receive state machine that
  \<open>ble_hci_rtthread.c\<close> drives through \<open>hci_h4_sm_init\<close> and \<open>hci_h4_sm_rx\<close>, and
  the outbound encoding (indicator byte, then the packet). The receive machine
  lives in NimBLE's \<open>hci_h4.c\<close>, which is not part of the sources here; it is
  modelled from the contract of the specification (section 4.1): a chunk is
  consumed byte by byte, one frame is in flight at a time, a complete frame is
  handed to the callback and the machine returns to idle, and an unknown type
  byte is a fatal protocol violation without resynchronisation.
\<close>

subsection \<open>Packet types and headers\<close>

datatype h4_type = H4_CMD | H4_ACL | H4_EVT

definition h4_ind :: "h4_type \<Rightarrow> byte" where
  "h4_ind t = (case t of H4_CMD \<Rightarrow> 0x01 | H4_ACL \<Rightarrow> 0x02 | H4_EVT \<Rightarrow> 0x04)"

definition h4_type_of :: "byte \<Rightarrow> h4_type option" where
  "h4_type_of b =
     (if b = 0x01 then Some H4_CMD
      else if b = 0x02 then Some H4_ACL
      else if b = 0x04 then Some H4_EVT
      else None)"

text \<open>Command: opcode (2) and parameter length (1); ACL: handle (2) and data length
  (2, little endian); event: event code (1) and parameter length (1).\<close>

primrec h4_hdr_len :: "h4_type \<Rightarrow> nat" where
  "h4_hdr_len H4_CMD = 3"
| "h4_hdr_len H4_ACL = 4"
| "h4_hdr_len H4_EVT = 2"

primrec h4_payload_len :: "h4_type \<Rightarrow> byte list \<Rightarrow> nat" where
  "h4_payload_len H4_CMD hdr = unat (hdr ! 2)"
| "h4_payload_len H4_ACL hdr = unat (get_le16 (hdr ! 2) (hdr ! 3))"
| "h4_payload_len H4_EVT hdr = unat (hdr ! 1)"

text \<open>A frame is its type and the packet's bytes, header included: what the
  callback receives and what the outbound path writes after the indicator.\<close>

datatype h4_frame = H4_Frame (frame_type: h4_type) (frame_data: "byte list")

fun h4_encode :: "h4_frame \<Rightarrow> byte list" where
  "h4_encode (H4_Frame t bs) = h4_ind t # bs"

fun h4_frame_ok :: "h4_frame \<Rightarrow> bool" where
  "h4_frame_ok (H4_Frame t bs) =
     (h4_hdr_len t \<le> length bs \<and>
      length bs = h4_hdr_len t + h4_payload_len t (take (h4_hdr_len t) bs))"

subsection \<open>The receive state machine\<close>

text \<open>
  \<open>W4_PKT_TYPE\<close>: idle, waiting for a type byte. \<open>W4_HEADER t hdr\<close>: collecting
  the header of a \<open>t\<close> packet, \<open>hdr\<close> so far. \<open>W4_PAYLOAD t buf n\<close>: header
  complete, \<open>buf\<close> collected, \<open>n\<close> payload bytes still to come.
\<close>

datatype h4_sm = W4_PKT_TYPE | W4_HEADER h4_type "byte list" | W4_PAYLOAD h4_type "byte list" nat

datatype h4_error = H4_MALFORMED byte

definition h4_sm_init :: h4_sm where
  "h4_sm_init = W4_PKT_TYPE"

definition h4_frame_body :: "h4_type \<Rightarrow> byte list \<Rightarrow> nat \<Rightarrow> h4_error + h4_sm \<times> h4_frame option" where
  "h4_frame_body t buf n =
     (if n = 0 then Inr (W4_PKT_TYPE, Some (H4_Frame t buf)) else Inr (W4_PAYLOAD t buf n, None))"

fun h4_rx_byte :: "h4_sm \<Rightarrow> byte \<Rightarrow> h4_error + h4_sm \<times> h4_frame option" where
  "h4_rx_byte W4_PKT_TYPE b =
     (case h4_type_of b of
        None \<Rightarrow> Inl (H4_MALFORMED b)
      | Some t \<Rightarrow> Inr (W4_HEADER t [], None))"
| "h4_rx_byte (W4_HEADER t hdr) b =
     (let hdr' = hdr @ [b] in
      if length hdr' < h4_hdr_len t then Inr (W4_HEADER t hdr', None)
      else h4_frame_body t hdr' (h4_payload_len t hdr'))"
| "h4_rx_byte (W4_PAYLOAD t buf n) b = h4_frame_body t (buf @ [b]) (n - 1)"

text \<open>\<open>hci_h4_sm_rx\<close>: one chunk, byte by byte; the frames it hands to the callback,
  in order, and the state it ends in or the error it stopped on.\<close>

fun h4_sm_rx :: "h4_sm \<Rightarrow> byte list \<Rightarrow> (h4_frame, h4_error, h4_sm) outres" where
  "h4_sm_rx s [] = ([], Inr s)"
| "h4_sm_rx s (b # bs) =
     (case h4_rx_byte s b of
        Inl e \<Rightarrow> ([], Inl e)
      | Inr (s', fo) \<Rightarrow> out_prepend (opt_list fo) (h4_sm_rx s' bs))"

text \<open>The bytes of the frame in flight, indicator included: the abstraction of the
  machine's state.\<close>

fun h4_pending :: "h4_sm \<Rightarrow> byte list" where
  "h4_pending W4_PKT_TYPE = []"
| "h4_pending (W4_HEADER t hdr) = h4_ind t # hdr"
| "h4_pending (W4_PAYLOAD t buf n) = h4_ind t # buf"

fun h4_sm_inv :: "h4_sm \<Rightarrow> bool" where
  "h4_sm_inv W4_PKT_TYPE = True"
| "h4_sm_inv (W4_HEADER t hdr) = (length hdr < h4_hdr_len t)"
| "h4_sm_inv (W4_PAYLOAD t buf n) =
     (0 < n \<and> h4_hdr_len t \<le> length buf \<and>
      length buf + n = h4_hdr_len t + h4_payload_len t (take (h4_hdr_len t) buf))"

declare h4_ind_def [model_simps] h4_type_of_def [model_simps]
  h4_frame_body_def [model_simps] h4_sm_init_def [model_simps]

subsection \<open>Basic facts\<close>

lemma h4_type_of_ind [simp]: "h4_type_of (h4_ind t) = Some t"
  by (cases t) (simp_all add: h4_ind_def h4_type_of_def)

lemma h4_type_of_Some: "h4_type_of b = Some t \<Longrightarrow> b = h4_ind t"
  by (auto simp: h4_ind_def h4_type_of_def split: if_splits)

lemma h4_hdr_len_pos [simp]: "0 < h4_hdr_len t"
  by (cases t) simp_all

subsection \<open>Decoding a chunk\<close>

text \<open>Chunk boundaries do not matter. Feeding \<open>xs @ ys\<close> in one call hands
  the callback the same frames, in the same order, and ends in the same state or
  error, as feeding \<open>xs\<close> and then, from the state it ends in, \<open>ys\<close>.\<close>

lemma h4_sm_rx_append:
  "h4_sm_rx s (xs @ ys) = out_bind (h4_sm_rx s xs) (\<lambda>s'. h4_sm_rx s' ys)"
proof (induction xs arbitrary: s)
  case Nil
  then show ?case by simp
next
  case (Cons x xs)
  then show ?case
    by (auto simp: out_bind_prepend split: sum.splits prod.splits)
qed


subsection \<open>Soundness: the machine refines "pending bytes"\<close>

lemma h4_rx_byte_inv:
  assumes "h4_sm_inv s" and "h4_rx_byte s b = Inr (s', fo)"
  shows "h4_sm_inv s' \<and> list_all h4_frame_ok (opt_list fo) \<and>
         h4_pending s @ [b] = concat (map h4_encode (opt_list fo)) @ h4_pending s'"
  using assms
proof (cases s)
  case W4_PKT_TYPE
  with assms show ?thesis by (auto simp: h4_type_of_Some split: option.splits)
next
  case (W4_HEADER t hdr)
  with assms show ?thesis
    by (auto simp: h4_frame_body_def Let_def split: if_splits)
next
  case (W4_PAYLOAD t buf n)
  with assms show ?thesis
    by (auto simp: h4_frame_body_def split: if_splits)
qed

text \<open>The receive machine implements its abstract contract. From a
  well-formed state, a chunk that is consumed without error leaves a well-formed
  state; every frame handed to the callback is a well-formed packet; and the
  bytes in flight before, followed by the chunk, are exactly the encodings of the
  delivered frames followed by the bytes in flight after.\<close>

lemma h4_sm_rx_refines:
  assumes "h4_sm_inv s" and "h4_sm_rx s bs = (fs, Inr s')"
  shows "h4_sm_inv s' \<and> list_all h4_frame_ok fs \<and>
         h4_pending s @ bs = concat (map h4_encode fs) @ h4_pending s'"
  using assms
proof (induction bs arbitrary: s fs)
  case Nil
  then show ?case by simp
next
  case (Cons b bs)
  then obtain s1 fo where step: "h4_rx_byte s b = Inr (s1, fo)"
    by (auto split: sum.splits)
  with Cons.prems obtain fs' where rest: "h4_sm_rx s1 bs = (fs', Inr s')"
    and fs: "fs = opt_list fo @ fs'"
    by (cases "h4_sm_rx s1 bs") auto
  from h4_rx_byte_inv [OF Cons.prems(1) step] have
    i1: "h4_sm_inv s1" and ok1: "list_all h4_frame_ok (opt_list fo)"
    and p1: "h4_pending s @ [b] = concat (map h4_encode (opt_list fo)) @ h4_pending s1"
    by auto
  from Cons.IH [OF i1 rest] have "h4_sm_inv s'" and "list_all h4_frame_ok fs'"
    and "h4_pending s1 @ bs = concat (map h4_encode fs') @ h4_pending s'"
    by auto
  with ok1 p1 fs show ?case
    by (metis (no_types) append.assoc append_Cons append_Nil concat_append list_all_append map_append)
qed

lemma h4_sm_rx_refines_witness:
  "h4_sm_inv (W4_HEADER H4_EVT [0x0e]) \<and>
   h4_sm_rx (W4_HEADER H4_EVT [0x0e]) [0x01, 0x00, 0x04] =
     ([H4_Frame H4_EVT [0x0e, 0x01, 0x00]], Inr (W4_HEADER H4_EVT [])) \<and>
   list_all h4_frame_ok [H4_Frame H4_EVT [0x0e, 0x01, 0x00]] \<and>
   h4_pending (W4_HEADER H4_EVT [0x0e]) @ [0x01, 0x00, 0x04] =
     concat (map h4_encode [H4_Frame H4_EVT [0x0e, 0x01, 0x00]]) @ h4_pending (W4_HEADER H4_EVT [])"
proof -
  have i: "h4_sm_inv (W4_HEADER H4_EVT [0x0e])" by simp
  have r: "h4_sm_rx (W4_HEADER H4_EVT [0x0e]) [0x01, 0x00, 0x04] =
     ([H4_Frame H4_EVT [0x0e, 0x01, 0x00]], Inr (W4_HEADER H4_EVT []))"
    by (simp add: model_simps)
  from h4_sm_rx_refines [OF i r] i r show ?thesis by simp
qed

subsection \<open>Completeness: encoded frames decode to themselves\<close>

lemma h4_sm_rx_header:
  "length (h @ xs) < h4_hdr_len t \<Longrightarrow>
   h4_sm_rx (W4_HEADER t h) (xs @ rest) = h4_sm_rx (W4_HEADER t (h @ xs)) rest"
  by (induction xs arbitrary: h) simp_all

lemma h4_sm_rx_payload:
  "length ys = n \<Longrightarrow> 0 < n \<Longrightarrow>
   h4_sm_rx (W4_PAYLOAD t buf n) (ys @ rest) =
   out_prepend [H4_Frame t (buf @ ys)] (h4_sm_rx W4_PKT_TYPE rest)"
proof (induction ys arbitrary: buf n)
  case Nil
  then show ?case by simp
next
  case (Cons y ys)
  show ?case
  proof (cases "ys = []")
    case True
    with Cons.prems show ?thesis by (simp add: h4_frame_body_def)
  next
    case False
    with Cons.prems have n: "length ys = n - 1" "0 < n - 1" by auto
    have "h4_sm_rx (W4_PAYLOAD t (buf @ [y]) (n - 1)) (ys @ rest) =
        out_prepend [H4_Frame t (buf @ y # ys)] (h4_sm_rx W4_PKT_TYPE rest)"
      using Cons.IH [OF n] by simp
    with n show ?thesis by (simp add: h4_frame_body_def)
  qed
qed

lemma h4_sm_rx_frame:
  assumes ok: "h4_frame_ok (H4_Frame t bs)"
  shows "h4_sm_rx (W4_HEADER t []) (bs @ rest) =
         out_prepend [H4_Frame t bs] (h4_sm_rx W4_PKT_TYPE rest)"
proof -
  let ?k = "h4_hdr_len t"
  let ?n = "h4_payload_len t (take ?k bs)"
  from ok have len: "?k \<le> length bs" and len2: "length bs = ?k + ?n" by auto
  obtain k' where k: "?k = Suc k'"
    using h4_hdr_len_pos [of t] by (cases "?k") auto
  with len have hdr: "take ?k bs = take k' bs @ [bs ! k']"
    by (simp add: take_Suc_conv_app_nth)
  have eq: "bs @ rest = take k' bs @ ([bs ! k'] @ drop ?k bs @ rest)"
    by (metis append.assoc append_Cons append_Nil append_take_drop_id hdr)
  have hd: "h4_sm_rx (W4_HEADER t []) (take k' bs @ r) = h4_sm_rx (W4_HEADER t (take k' bs)) r" for r
    using h4_sm_rx_header [of "[]" "take k' bs" t r] len k by simp
  have "h4_sm_rx (W4_HEADER t []) (bs @ rest) =
      h4_sm_rx (W4_HEADER t (take k' bs)) ([bs ! k'] @ drop ?k bs @ rest)"
    by (subst eq) (rule hd)
  also have "\<dots> = out_prepend [H4_Frame t bs] (h4_sm_rx W4_PKT_TYPE rest)"
  proof (cases "?n = 0")
    case True
    with len2 k have lb: "length bs = Suc k'" by simp
    with hdr k have "take k' bs @ [bs ! k'] = bs" by simp
    with lb True k show ?thesis
      by (simp add: h4_frame_body_def)
  next
    case False
    have "length (drop ?k bs) = ?n" using len2 by simp
    with False have "h4_sm_rx (W4_PAYLOAD t (take ?k bs) ?n) (drop ?k bs @ rest) =
        out_prepend [H4_Frame t bs] (h4_sm_rx W4_PKT_TYPE rest)"
      by (simp add: h4_sm_rx_payload)
    with hdr False k len show ?thesis
      by (simp add: h4_frame_body_def min_def Let_def)
  qed
  finally show ?thesis .
qed

text \<open>Frame round trip. A sequence of well-formed frames, each encoded as
  its indicator byte followed by its packet, and fed from idle, is handed to the
  callback as exactly that sequence of frames, with correct boundaries, and the
  machine ends idle.\<close>

lemma h4_sm_rx_frames:
  "list_all h4_frame_ok fs \<Longrightarrow>
   h4_sm_rx W4_PKT_TYPE (concat (map h4_encode fs)) = (fs, Inr W4_PKT_TYPE)"
proof (induction fs)
  case Nil
  then show ?case by simp
next
  case (Cons f fs)
  obtain t bs where f: "f = H4_Frame t bs" by (cases f)
  with Cons show ?case by (simp add: h4_sm_rx_frame)
qed

lemma h4_sm_rx_frames_witness:
  "list_all h4_frame_ok [H4_Frame H4_EVT [0x0e, 0x01, 0x00], H4_Frame H4_ACL [0x40, 0x00, 0x02, 0x00, 0xaa, 0xbb]] \<and>
   h4_sm_rx W4_PKT_TYPE (concat (map h4_encode
     [H4_Frame H4_EVT [0x0e, 0x01, 0x00], H4_Frame H4_ACL [0x40, 0x00, 0x02, 0x00, 0xaa, 0xbb]])) =
   ([H4_Frame H4_EVT [0x0e, 0x01, 0x00], H4_Frame H4_ACL [0x40, 0x00, 0x02, 0x00, 0xaa, 0xbb]], Inr W4_PKT_TYPE)"
proof -
  have ok: "list_all h4_frame_ok [H4_Frame H4_EVT [0x0e, 0x01, 0x00], H4_Frame H4_ACL [0x40, 0x00, 0x02, 0x00, 0xaa, 0xbb]]"
    by simp
  from h4_sm_rx_frames [OF ok] ok show ?thesis by blast
qed

subsection \<open>Errors\<close>

lemma h4_rx_byte_Inl:
  "h4_rx_byte s x = Inl e \<Longrightarrow> s = W4_PKT_TYPE \<and> e = H4_MALFORMED x \<and> h4_type_of x = None"
  by (cases s) (auto simp: h4_frame_body_def Let_def split: option.splits if_splits)

text \<open>A malformed stream stops the machine exactly at an unknown type
  byte on a frame boundary. When a chunk stops with \<open>H4_MALFORMED b\<close>, the frames
  delivered before are well formed, \<open>b\<close> is no known indicator, and the input
  read so far is the delivered frames' encodings followed by \<open>b\<close>.\<close>

lemma h4_sm_rx_error:
  assumes "h4_sm_inv s" and "h4_sm_rx s bs = (fs, Inl (H4_MALFORMED b))"
  shows "list_all h4_frame_ok fs \<and> h4_type_of b = None \<and>
         (\<exists>ys. h4_pending s @ bs = concat (map h4_encode fs) @ b # ys)"
  using assms
proof (induction bs arbitrary: s fs)
  case Nil
  then show ?case by simp
next
  case (Cons x bs)
  show ?case
  proof (cases "h4_rx_byte s x")
    case (Inl e)
    then have "s = W4_PKT_TYPE" and "e = H4_MALFORMED x" and "h4_type_of x = None"
      by (auto dest: h4_rx_byte_Inl)
    with Cons.prems Inl show ?thesis by auto
  next
    case (Inr r)
    obtain s1 fo where r: "r = (s1, fo)" by (cases r)
    with Cons.prems Inr obtain fs' where rest: "h4_sm_rx s1 bs = (fs', Inl (H4_MALFORMED b))"
      and fs: "fs = opt_list fo @ fs'"
      by (cases "h4_sm_rx s1 bs") auto
    from h4_rx_byte_inv [OF Cons.prems(1)] Inr r have
      i1: "h4_sm_inv s1" and ok1: "list_all h4_frame_ok (opt_list fo)"
      and p1: "h4_pending s @ [x] = concat (map h4_encode (opt_list fo)) @ h4_pending s1"
      by auto
    from Cons.IH [OF i1 rest] obtain ys where "list_all h4_frame_ok fs'" "h4_type_of b = None"
      and "h4_pending s1 @ bs = concat (map h4_encode fs') @ b # ys"
      by blast
    with ok1 p1 fs show ?thesis
      by (metis (no_types) append.assoc append_Cons append_Nil concat_append list_all_append map_append)
  qed
qed

lemma h4_sm_rx_error_witness:
  "h4_sm_inv W4_PKT_TYPE \<and> h4_sm_rx W4_PKT_TYPE [0x04, 0x0e, 0x00, 0x07, 0x01] =
     ([H4_Frame H4_EVT [0x0e, 0x00]], Inl (H4_MALFORMED 0x07)) \<and>
   list_all h4_frame_ok [H4_Frame H4_EVT [0x0e, 0x00]] \<and> h4_type_of 0x07 = None"
proof -
  have i: "h4_sm_inv W4_PKT_TYPE" by simp
  have r: "h4_sm_rx W4_PKT_TYPE [0x04, 0x0e, 0x00, 0x07, 0x01] =
     ([H4_Frame H4_EVT [0x0e, 0x00]], Inl (H4_MALFORMED 0x07))"
    by (simp add: model_simps)
  from h4_sm_rx_error [OF i r] i r show ?thesis by blast
qed

end
