(* ===== verification/Transport.thy ===== *)
theory Transport
  imports H4
begin

text \<open>
  The RT-Thread UART transport of \<open>src/nimble/transport/rtthread/src/ble_hci_rtthread.c\<close>:
  the serial device as the driver sees it, the synchronous outbound paths
  (\<open>ble_transport_to_ll_cmd_impl\<close>, \<open>ble_transport_to_ll_acl_impl\<close>) with their
  write-until-done loop, the reader thread (\<open>rtthread_hci_uart_entry\<close>) that feeds
  the H4 machine of theory \<open>H4\<close> and hands complete packets to the host through
  \<open>rtthread_ble_hci_frame_cb\<close>, and the initialisation (\<open>rtthread_hci_uart_init\<close>,
  \<open>ble_transport_rtthread_init\<close>). The driver's globals \<open>g_hci_uart\<close>,
  \<open>g_hci_h4sm\<close> and \<open>g_hci_tid\<close> are the fields of the record \<open>transport\<close>.
\<close>

subsection \<open>The serial device\<close>

text \<open>
  The device (RT-Thread's \<open>rt_device_write\<close> and \<open>rt_device_read\<close>, outside the
  sources) is modelled by what crosses it: the bytes accepted for transmission, in
  order, the bytes received and not yet read, and how many write and read calls
  were made. How many bytes the \<open>k\<close>-th call transfers is the device's choice, a
  function \<open>dev_caps\<close> of the call's index; a call never transfers more than it
  was asked for or than there is.
\<close>

record uart_dev =
  tx_wire :: "byte list"
  tx_calls :: nat
  rx_wire :: "byte list"
  rx_calls :: nat

type_synonym dev_caps = "nat \<Rightarrow> nat"

definition rt_device_write :: "dev_caps \<Rightarrow> uart_dev \<Rightarrow> byte list \<Rightarrow> uart_dev \<times> nat" where
  "rt_device_write cap d buf =
     (let n = min (cap (tx_calls d)) (length buf)
      in (d\<lparr>tx_wire := tx_wire d @ take n buf, tx_calls := Suc (tx_calls d)\<rparr>, n))"

definition rt_device_read :: "dev_caps \<Rightarrow> uart_dev \<Rightarrow> nat \<Rightarrow> uart_dev \<times> byte list" where
  "rt_device_read cap d len =
     (let n = min (cap (rx_calls d)) (min len (length (rx_wire d)))
      in (d\<lparr>rx_wire := drop n (rx_wire d), rx_calls := Suc (rx_calls d)\<rparr>, take n (rx_wire d)))"

subsection \<open>Driver state and errors\<close>

text \<open>\<open>hci_uart_set\<close>: \<open>g_hci_uart\<close> is not \<open>NULL\<close>; \<open>hci_uart_open\<close>: the device was
  opened and configured successfully; \<open>hci_thread\<close>: the reader thread was started.\<close>

record transport =
  hci_uart_set :: bool
  hci_uart_open :: bool
  hci_dev :: uart_dev
  hci_h4sm :: h4_sm
  hci_thread :: bool

text \<open>\<open>TP_ASSERT\<close>: an \<open>assert\<close> of the driver fails; \<open>TP_NO_RETURN\<close>: a write loop
  did not finish within the fuel it was given; \<open>TP_MALFORMED\<close>: the H4 machine
  stopped on a malformed byte.\<close>

datatype tp_error = TP_ASSERT | TP_NO_RETURN | TP_MALFORMED h4_error

subsection \<open>Outbound: \<open>rtthread_ble_hci_uart_write_all\<close>\<close>

text \<open>
  \<^verbatim>\<open>while (remaining > 0) { write_len = rt_device_write(..., buf, remaining);
                          buf += write_len; remaining -= write_len; }\<close>
  The loop has no bound: a device that accepts nothing keeps it spinning. The
  model spends one unit of fuel per call and returns \<open>None\<close> when the fuel runs
  out; the unsent suffix of the buffer stands for \<open>buf\<close> and \<open>remaining\<close>.
\<close>

fun uart_write_all :: "nat \<Rightarrow> dev_caps \<Rightarrow> uart_dev \<Rightarrow> byte list \<Rightarrow> uart_dev option" where
  "uart_write_all fuel cap d [] = Some d"
| "uart_write_all 0 cap d (b # bs) = None"
| "uart_write_all (Suc fuel) cap d (b # bs) =
     (case rt_device_write cap d (b # bs) of
        (d', w) \<Rightarrow> uart_write_all fuel cap d' (drop w (b # bs)))"

text \<open>The ACL path walks the \<open>os_mbuf\<close> chain, one segment (\<open>om_data\<close>, \<open>om_len\<close>)
  at a time.\<close>

fun uart_write_chain :: "nat \<Rightarrow> dev_caps \<Rightarrow> uart_dev \<Rightarrow> byte list list \<Rightarrow> uart_dev option" where
  "uart_write_chain fuel cap d [] = Some d"
| "uart_write_chain fuel cap d (x # xs) =
     (case uart_write_all fuel cap d x of
        None \<Rightarrow> None
      | Some d' \<Rightarrow> uart_write_chain fuel cap d' xs)"

text \<open>\<open>ble_transport_to_ll_cmd_impl\<close>: assert the device handle, write the command
  indicator, then the \<open>3 + cmd[2]\<close> bytes of the command; the buffer is then
  returned to its pool and 0 returned.\<close>

definition ble_transport_to_ll_cmd_impl ::
  "nat \<Rightarrow> dev_caps \<Rightarrow> transport \<Rightarrow> byte list \<Rightarrow> tp_error + int \<times> transport" where
  "ble_transport_to_ll_cmd_impl fuel cap t cmd =
     (if \<not> hci_uart_set t then Inl TP_ASSERT
      else
        (let len = 3 + unat (cmd ! 2) in
         case uart_write_all fuel cap (hci_dev t) [h4_ind H4_CMD] of
           None \<Rightarrow> Inl TP_NO_RETURN
         | Some d1 \<Rightarrow>
             (case uart_write_all fuel cap d1 (take len cmd) of
                None \<Rightarrow> Inl TP_NO_RETURN
              | Some d2 \<Rightarrow> Inr (0, t\<lparr>hci_dev := d2\<rparr>))))"

definition ble_transport_to_ll_acl_impl ::
  "nat \<Rightarrow> dev_caps \<Rightarrow> transport \<Rightarrow> byte list list \<Rightarrow> tp_error + int \<times> transport" where
  "ble_transport_to_ll_acl_impl fuel cap t om =
     (if \<not> hci_uart_set t then Inl TP_ASSERT
      else
        (case uart_write_all fuel cap (hci_dev t) [h4_ind H4_ACL] of
           None \<Rightarrow> Inl TP_NO_RETURN
         | Some d1 \<Rightarrow>
             (case uart_write_chain fuel cap d1 om of
                None \<Rightarrow> Inl TP_NO_RETURN
              | Some d2 \<Rightarrow> Inr (0, t\<lparr>hci_dev := d2\<rparr>))))"

subsection \<open>Inbound: the frame callback and the reader thread\<close>

datatype hs_msg = HS_ACL "byte list" | HS_EVT "byte list"

text \<open>\<open>rtthread_ble_hci_frame_cb\<close>: ACL packets go to \<open>ble_transport_to_hs_acl\<close>,
  events to \<open>ble_transport_to_hs_evt\<close>; any other type hits \<open>assert(0)\<close>.\<close>

fun rtthread_ble_hci_frame_cb :: "h4_type \<Rightarrow> byte list \<Rightarrow> tp_error + hs_msg" where
  "rtthread_ble_hci_frame_cb H4_ACL data = Inr (HS_ACL data)"
| "rtthread_ble_hci_frame_cb H4_EVT data = Inr (HS_EVT data)"
| "rtthread_ble_hci_frame_cb H4_CMD data = Inl TP_ASSERT"

text \<open>The callback runs once per frame, in the order the H4 machine completes them;
  an assertion stops the thread.\<close>

fun hci_dispatch_frames :: "h4_frame list \<Rightarrow> (hs_msg, tp_error, unit) outres" where
  "hci_dispatch_frames [] = ([], Inr ())"
| "hci_dispatch_frames (H4_Frame t data # fs) =
     (case rtthread_ble_hci_frame_cb t data of
        Inl e \<Rightarrow> ([], Inl e)
      | Inr m \<Rightarrow> out_prepend [m] (hci_dispatch_frames fs))"

text \<open>\<open>hci_h4_sm_rx (&g_hci_h4sm, rx, len)\<close> with the callback installed by
  \<open>hci_h4_sm_init\<close>: decode the chunk, deliver its frames, keep the new state.\<close>

definition hci_h4_sm_rx_cb :: "h4_sm \<Rightarrow> byte list \<Rightarrow> (hs_msg, tp_error, h4_sm) outres" where
  "hci_h4_sm_rx_cb s bs =
     (case h4_sm_rx s bs of
        (fs, r) \<Rightarrow> out_bind (hci_dispatch_frames fs)
                     (\<lambda>_. ([], map_sum TP_MALFORMED id r)))"

text \<open>\<open>ARRAY_SIZE\<close> as the driver defines it: \<open>sizeof(array) - sizeof(array[0])\<close>,
  which for \<open>uint8_t rx[64]\<close> is 63.\<close>

definition RX_BUF_SIZE :: nat where
  "RX_BUF_SIZE = 64"

definition ARRAY_SIZE_rx :: nat where
  "ARRAY_SIZE_rx = RX_BUF_SIZE - 1"

text \<open>One iteration of the reader thread's loop: read up to \<open>ARRAY_SIZE(rx)\<close>
  bytes; if any arrived, feed them to the H4 machine (the idle
  \<open>rt_thread_mdelay(1)\<close> has no effect on the state).\<close>

definition rtthread_hci_uart_rx :: "dev_caps \<Rightarrow> transport \<Rightarrow> (hs_msg, tp_error, transport) outres" where
  "rtthread_hci_uart_rx cap t =
     (case rt_device_read cap (hci_dev t) ARRAY_SIZE_rx of
        (d', rx) \<Rightarrow>
          if 0 < length rx
          then out_map (\<lambda>s. t\<lparr>hci_dev := d', hci_h4sm := s\<rparr>) (hci_h4_sm_rx_cb (hci_h4sm t) rx)
          else ([], Inr (t\<lparr>hci_dev := d'\<rparr>)))"

text \<open>\<open>rtthread_hci_uart_entry\<close> loops for ever; a run of it is its first \<open>n\<close>
  iterations.\<close>

fun rtthread_hci_uart_entry :: "nat \<Rightarrow> dev_caps \<Rightarrow> transport \<Rightarrow> (hs_msg, tp_error, transport) outres" where
  "rtthread_hci_uart_entry 0 cap t = ([], Inr t)"
| "rtthread_hci_uart_entry (Suc n) cap t =
     out_bind (rtthread_hci_uart_rx cap t) (rtthread_hci_uart_entry n cap)"

subsection \<open>Initialisation\<close>

text \<open>
  What the RT-Thread calls of \<open>rtthread_hci_uart_init\<close> return: whether
  \<open>rt_device_find("uart1")\<close> found the device, the return codes of
  \<open>rt_device_open\<close> and \<open>rt_device_control\<close>, and whether \<open>rt_thread_create\<close>
  returned a thread. \<open>RT_EBUSY\<close> is RT-Thread's error code 7.
\<close>

record rt_env =
  env_find :: bool
  env_open_rc :: int
  env_control_rc :: int
  env_thread_ok :: bool

definition RT_EBUSY :: int where
  "RT_EBUSY = 7"

definition rtthread_hci_uart_init :: "rt_env \<Rightarrow> transport \<Rightarrow> tp_error + int \<times> transport" where
  "rtthread_hci_uart_init e t =
     (if \<not> env_find e then Inr (-1, t\<lparr>hci_uart_set := False\<rparr>)
      else
        (let t1 = t\<lparr>hci_uart_set := True, hci_uart_open := (env_open_rc e = 0)\<rparr> in
         if env_open_rc e = - RT_EBUSY then Inr (-1, t1)
         else if env_control_rc e = - RT_EBUSY then Inr (-1, t1)
         else if \<not> env_thread_ok e then Inl TP_ASSERT
         else Inr (0, t1\<lparr>hci_thread := True\<rparr>)))"

definition ble_transport_rtthread_init :: "rt_env \<Rightarrow> transport \<Rightarrow> tp_error + int \<times> transport" where
  "ble_transport_rtthread_init e t =
     (case rtthread_hci_uart_init e (t\<lparr>hci_h4sm := h4_sm_init\<rparr>) of
        Inl err \<Rightarrow> Inl err
      | Inr (rc, t') \<Rightarrow> Inr (if rc = -1 then -1 else 0, t'))"

declare rt_device_write_def [model_simps] rt_device_read_def [model_simps]
  ble_transport_to_ll_cmd_impl_def [model_simps] ble_transport_to_ll_acl_impl_def [model_simps]
  hci_h4_sm_rx_cb_def [model_simps] RX_BUF_SIZE_def [model_simps] ARRAY_SIZE_rx_def [model_simps]
  rtthread_hci_uart_rx_def [model_simps] RT_EBUSY_def [model_simps]
  rtthread_hci_uart_init_def [model_simps] ble_transport_rtthread_init_def [model_simps]


subsection \<open>The write loop\<close>

lemma uart_write_all_progress:
  "(\<forall>k. 0 < cap k) \<Longrightarrow> length buf \<le> fuel \<Longrightarrow>
   \<exists>m. m \<le> length buf \<and>
     uart_write_all fuel cap d buf = Some (d\<lparr>tx_wire := tx_wire d @ buf, tx_calls := tx_calls d + m\<rparr>)"
proof (induction fuel cap d buf rule: uart_write_all.induct)
  case (1 fuel cap d)
  then show ?case by simp
next
  case (2 cap d b bs)
  then show ?case by simp
next
  case (3 fuel cap d b bs)
  let ?w = "min (cap (tx_calls d)) (length (b # bs))"
  let ?d' = "d\<lparr>tx_wire := tx_wire d @ take ?w (b # bs), tx_calls := Suc (tx_calls d)\<rparr>"
  have w: "0 < ?w" using "3.prems"(1) by simp
  then have "length (drop ?w (b # bs)) \<le> fuel" using "3.prems"(2) by simp
  with "3.IH" [of ?d' ?w] "3.prems"(1) obtain m where m: "m \<le> length (drop ?w (b # bs))"
    and eq: "uart_write_all fuel cap ?d' (drop ?w (b # bs)) =
      Some (?d'\<lparr>tx_wire := tx_wire ?d' @ drop ?w (b # bs), tx_calls := tx_calls ?d' + m\<rparr>)"
    by (auto simp: rt_device_write_def Let_def)
  have "uart_write_all (Suc fuel) cap d (b # bs) = uart_write_all fuel cap ?d' (drop ?w (b # bs))"
    by (simp add: rt_device_write_def Let_def)
  with eq m w show ?case
    by (intro exI [of _ "Suc m"]) auto
qed

text \<open>Claim C4: termination of the write loop. When every write call accepts at least
  one byte, \<open>rtthread_ble_hci_uart_write_all\<close> returns after at most as many
  calls as the buffer has bytes, and the device has then accepted exactly the
  buffer, appended to what it had, in order.\<close>

theorem uart_write_all_complete:
  "(\<forall>k. 0 < cap k) \<Longrightarrow> length buf \<le> fuel \<Longrightarrow>
   \<exists>m. m \<le> length buf \<and>
     uart_write_all fuel cap d buf = Some (d\<lparr>tx_wire := tx_wire d @ buf, tx_calls := tx_calls d + m\<rparr>)"
  by (rule uart_write_all_progress)

theorem uart_write_all_complete_witness:
  "\<exists>m. m \<le> length [0x01, 0x03, 0x0c :: byte] \<and>
     uart_write_all 3 (\<lambda>_. 2) \<lparr>tx_wire = [], tx_calls = 0, rx_wire = [], rx_calls = 0\<rparr> [0x01, 0x03, 0x0c] =
     Some (\<lparr>tx_wire = [], tx_calls = 0, rx_wire = [], rx_calls = 0\<rparr>\<lparr>tx_wire := tx_wire \<lparr>tx_wire = [], tx_calls = 0, rx_wire = [], rx_calls = 0\<rparr> @ [0x01, 0x03, 0x0c],
       tx_calls := tx_calls \<lparr>tx_wire = [], tx_calls = 0, rx_wire = [], rx_calls = 0\<rparr> + m\<rparr>)"
  using uart_write_all_complete [of "\<lambda>_. 2" "[0x01, 0x03, 0x0c :: byte]" 3 "\<lparr>tx_wire = [], tx_calls = 0, rx_wire = [], rx_calls = 0\<rparr>"]
  by simp

text \<open>Claim C5: the write loop has no bound. Once the device accepts nothing more,
  \<open>rtthread_ble_hci_uart_write_all\<close> with bytes left never returns, whatever
  fuel it is given: the busy loop the specification calls a partial-write stall.\<close>

theorem uart_write_all_stall:
  "buf \<noteq> [] \<Longrightarrow> (\<forall>k\<ge>tx_calls d. cap k = 0) \<Longrightarrow> uart_write_all fuel cap d buf = None"
proof (induction fuel arbitrary: d)
  case 0
  then show ?case by (cases buf) simp_all
next
  case (Suc fuel)
  then obtain b bs where buf: "buf = b # bs" by (cases buf) auto
  let ?d' = "d\<lparr>tx_calls := Suc (tx_calls d)\<rparr>"
  have "uart_write_all (Suc fuel) cap d buf = uart_write_all fuel cap ?d' buf"
    using Suc.prems buf by (simp add: rt_device_write_def)
  also have "\<dots> = None"
    using Suc.prems by (intro Suc.IH) auto
  finally show ?case .
qed


theorem uart_write_all_stall_witness:
  "uart_write_all 1000 (\<lambda>_. 0) \<lparr>tx_wire = [], tx_calls = 0, rx_wire = [], rx_calls = 0\<rparr> [0x01] = None"
  using uart_write_all_stall [of "[0x01 :: byte]" "\<lparr>tx_wire = [], tx_calls = 0, rx_wire = [], rx_calls = 0\<rparr>" "\<lambda>_. 0" 1000]
  by simp

lemma uart_write_all_wire:
  "(\<forall>k. 0 < cap k) \<Longrightarrow> length buf \<le> fuel \<Longrightarrow>
   \<exists>d'. uart_write_all fuel cap d buf = Some d' \<and> tx_wire d' = tx_wire d @ buf \<and>
     rx_wire d' = rx_wire d \<and> rx_calls d' = rx_calls d"
  by (drule (1) uart_write_all_progress) auto

lemma uart_write_chain_wire:
  "(\<forall>k. 0 < cap k) \<Longrightarrow> \<forall>x\<in>set xs. length x \<le> fuel \<Longrightarrow>
   \<exists>d'. uart_write_chain fuel cap d xs = Some d' \<and> tx_wire d' = tx_wire d @ concat xs \<and>
     rx_wire d' = rx_wire d \<and> rx_calls d' = rx_calls d"
proof (induction xs arbitrary: d)
  case Nil
  then show ?case by simp
next
  case (Cons x xs)
  from uart_write_all_wire [OF Cons.prems(1), of x fuel d] Cons.prems(2) obtain d1 where
    d1: "uart_write_all fuel cap d x = Some d1" "tx_wire d1 = tx_wire d @ x"
        "rx_wire d1 = rx_wire d" "rx_calls d1 = rx_calls d"
    by auto
  from Cons.IH [OF Cons.prems(1), of d1] Cons.prems(2) obtain d2 where
    "uart_write_chain fuel cap d1 xs = Some d2" "tx_wire d2 = tx_wire d1 @ concat xs"
    "rx_wire d2 = rx_wire d1" "rx_calls d2 = rx_calls d1"
    by auto
  with d1 show ?case by simp
qed


subsection \<open>The outbound packet paths\<close>

lemma ble_transport_to_ll_cmd_impl_writes:
  assumes set: "hci_uart_set t" and cap: "\<forall>k. 0 < cap k"
    and len: "length cmd = 3 + unat (cmd ! 2)" and fuel: "length cmd \<le> fuel"
  shows "\<exists>d'. ble_transport_to_ll_cmd_impl fuel cap t cmd = Inr (0, t\<lparr>hci_dev := d'\<rparr>) \<and>
           tx_wire d' = tx_wire (hci_dev t) @ h4_encode (H4_Frame H4_CMD cmd) \<and>
           rx_wire d' = rx_wire (hci_dev t) \<and> rx_calls d' = rx_calls (hci_dev t)"
proof -
  from len fuel have f1: "length [h4_ind H4_CMD] \<le> fuel" by simp
  from uart_write_all_wire [OF cap f1] obtain d1 where
    d1: "uart_write_all fuel cap (hci_dev t) [h4_ind H4_CMD] = Some d1"
        "tx_wire d1 = tx_wire (hci_dev t) @ [h4_ind H4_CMD]"
        "rx_wire d1 = rx_wire (hci_dev t)" "rx_calls d1 = rx_calls (hci_dev t)"
    by blast
  from len fuel have f2: "length (take (3 + unat (cmd ! 2)) cmd) \<le> fuel" by simp
  from uart_write_all_wire [OF cap f2] obtain d2 where
    d2: "uart_write_all fuel cap d1 (take (3 + unat (cmd ! 2)) cmd) = Some d2"
        "tx_wire d2 = tx_wire d1 @ take (3 + unat (cmd ! 2)) cmd"
        "rx_wire d2 = rx_wire d1" "rx_calls d2 = rx_calls d1"
    by blast
  from len have "take (3 + unat (cmd ! 2)) cmd = cmd" by simp
  with set d1 d2 show ?thesis
    by (intro exI [of _ d2]) (simp add: ble_transport_to_ll_cmd_impl_def)
qed

text \<open>Claim C2: \<open>ble_transport_to_ll_cmd_impl\<close> on a well-formed command (its
  length is \<open>3 + cmd[2]\<close>), with a set device handle and a device that makes
  progress, returns 0 and puts on the wire exactly the command indicator followed by
  the command: the H4 encoding of the command frame. Nothing else changes.\<close>

theorem ble_transport_to_ll_cmd_impl_wire:
  assumes set: "hci_uart_set t" and cap: "\<forall>k. 0 < cap k"
    and len: "length cmd = 3 + unat (cmd ! 2)" and fuel: "length cmd \<le> fuel"
  shows "\<exists>d'. ble_transport_to_ll_cmd_impl fuel cap t cmd = Inr (0, t\<lparr>hci_dev := d'\<rparr>) \<and>
           tx_wire d' = tx_wire (hci_dev t) @ h4_encode (H4_Frame H4_CMD cmd) \<and>
           rx_wire d' = rx_wire (hci_dev t) \<and> rx_calls d' = rx_calls (hci_dev t)"
  using assms by (rule ble_transport_to_ll_cmd_impl_writes)

theorem ble_transport_to_ll_cmd_impl_wire_witness:
  "\<exists>d'. ble_transport_to_ll_cmd_impl 3 (\<lambda>_. 1) \<lparr>hci_uart_set = True, hci_uart_open = True, hci_dev = \<lparr>tx_wire = [], tx_calls = 0, rx_wire = [], rx_calls = 0\<rparr>, hci_h4sm = W4_PKT_TYPE, hci_thread = True\<rparr> [0x03, 0x0c, 0x00] =
      Inr (0, \<lparr>hci_uart_set = True, hci_uart_open = True, hci_dev = \<lparr>tx_wire = [], tx_calls = 0, rx_wire = [], rx_calls = 0\<rparr>, hci_h4sm = W4_PKT_TYPE, hci_thread = True\<rparr>\<lparr>hci_dev := d'\<rparr>) \<and>
    tx_wire d' = tx_wire (hci_dev \<lparr>hci_uart_set = True, hci_uart_open = True, hci_dev = \<lparr>tx_wire = [], tx_calls = 0, rx_wire = [], rx_calls = 0\<rparr>, hci_h4sm = W4_PKT_TYPE, hci_thread = True\<rparr>) @ h4_encode (H4_Frame H4_CMD [0x03, 0x0c, 0x00]) \<and>
    rx_wire d' = rx_wire (hci_dev \<lparr>hci_uart_set = True, hci_uart_open = True, hci_dev = \<lparr>tx_wire = [], tx_calls = 0, rx_wire = [], rx_calls = 0\<rparr>, hci_h4sm = W4_PKT_TYPE, hci_thread = True\<rparr>) \<and> rx_calls d' = rx_calls (hci_dev \<lparr>hci_uart_set = True, hci_uart_open = True, hci_dev = \<lparr>tx_wire = [], tx_calls = 0, rx_wire = [], rx_calls = 0\<rparr>, hci_h4sm = W4_PKT_TYPE, hci_thread = True\<rparr>)"
  by (rule ble_transport_to_ll_cmd_impl_wire) simp_all

lemma ble_transport_to_ll_acl_impl_writes:
  assumes set: "hci_uart_set t" and cap: "\<forall>k. 0 < cap k"
    and fuel: "0 < fuel" "\<forall>x\<in>set om. length x \<le> fuel"
  shows "\<exists>d'. ble_transport_to_ll_acl_impl fuel cap t om = Inr (0, t\<lparr>hci_dev := d'\<rparr>) \<and>
           tx_wire d' = tx_wire (hci_dev t) @ h4_encode (H4_Frame H4_ACL (concat om)) \<and>
           rx_wire d' = rx_wire (hci_dev t) \<and> rx_calls d' = rx_calls (hci_dev t)"
proof -
  from fuel have f1: "length [h4_ind H4_ACL] \<le> fuel" by simp
  from uart_write_all_wire [OF cap f1] obtain d1 where
    d1: "uart_write_all fuel cap (hci_dev t) [h4_ind H4_ACL] = Some d1"
        "tx_wire d1 = tx_wire (hci_dev t) @ [h4_ind H4_ACL]"
        "rx_wire d1 = rx_wire (hci_dev t)" "rx_calls d1 = rx_calls (hci_dev t)"
    by blast
  from uart_write_chain_wire [OF cap fuel(2)] obtain d2 where
    d2: "uart_write_chain fuel cap d1 om = Some d2" "tx_wire d2 = tx_wire d1 @ concat om"
        "rx_wire d2 = rx_wire d1" "rx_calls d2 = rx_calls d1"
    by blast
  with set d1 show ?thesis
    by (intro exI [of _ d2]) (simp add: ble_transport_to_ll_acl_impl_def)
qed


text \<open>Claim C3: \<open>ble_transport_to_ll_acl_impl\<close> with a set device handle and a
  device that makes progress returns 0 and puts on the wire the ACL indicator
  followed by the segments of the mbuf chain in chain order: the H4 encoding of
  the ACL frame whose packet is the chain's data.\<close>

theorem ble_transport_to_ll_acl_impl_wire:
  assumes set: "hci_uart_set t" and cap: "\<forall>k. 0 < cap k"
    and fuel: "0 < fuel" "\<forall>x\<in>set om. length x \<le> fuel"
  shows "\<exists>d'. ble_transport_to_ll_acl_impl fuel cap t om = Inr (0, t\<lparr>hci_dev := d'\<rparr>) \<and>
           tx_wire d' = tx_wire (hci_dev t) @ h4_encode (H4_Frame H4_ACL (concat om)) \<and>
           rx_wire d' = rx_wire (hci_dev t) \<and> rx_calls d' = rx_calls (hci_dev t)"
  using assms by (rule ble_transport_to_ll_acl_impl_writes)

theorem ble_transport_to_ll_acl_impl_wire_witness:
  "\<exists>d'. ble_transport_to_ll_acl_impl 4 (\<lambda>_. 3) \<lparr>hci_uart_set = True, hci_uart_open = True, hci_dev = \<lparr>tx_wire = [], tx_calls = 0, rx_wire = [], rx_calls = 0\<rparr>, hci_h4sm = W4_PKT_TYPE, hci_thread = True\<rparr> [[0x01, 0x00, 0x02, 0x00], [0xaa, 0xbb]] =
      Inr (0, \<lparr>hci_uart_set = True, hci_uart_open = True, hci_dev = \<lparr>tx_wire = [], tx_calls = 0, rx_wire = [], rx_calls = 0\<rparr>, hci_h4sm = W4_PKT_TYPE, hci_thread = True\<rparr>\<lparr>hci_dev := d'\<rparr>) \<and>
    tx_wire d' = tx_wire (hci_dev \<lparr>hci_uart_set = True, hci_uart_open = True, hci_dev = \<lparr>tx_wire = [], tx_calls = 0, rx_wire = [], rx_calls = 0\<rparr>, hci_h4sm = W4_PKT_TYPE, hci_thread = True\<rparr>) @ h4_encode (H4_Frame H4_ACL (concat [[0x01, 0x00, 0x02, 0x00], [0xaa, 0xbb]])) \<and>
    rx_wire d' = rx_wire (hci_dev \<lparr>hci_uart_set = True, hci_uart_open = True, hci_dev = \<lparr>tx_wire = [], tx_calls = 0, rx_wire = [], rx_calls = 0\<rparr>, hci_h4sm = W4_PKT_TYPE, hci_thread = True\<rparr>) \<and> rx_calls d' = rx_calls (hci_dev \<lparr>hci_uart_set = True, hci_uart_open = True, hci_dev = \<lparr>tx_wire = [], tx_calls = 0, rx_wire = [], rx_calls = 0\<rparr>, hci_h4sm = W4_PKT_TYPE, hci_thread = True\<rparr>)"
  by (rule ble_transport_to_ll_acl_impl_wire) simp_all

subsection \<open>The reader thread\<close>

lemma hci_dispatch_frames_append:
  "hci_dispatch_frames (fs @ gs) = out_bind (hci_dispatch_frames fs) (\<lambda>_. hci_dispatch_frames gs)"
proof (induction fs)
  case Nil
  then show ?case by simp
next
  case (Cons f fs)
  then show ?case
    by (cases f) (auto simp: out_bind_prepend split: sum.splits)
qed

lemma hci_h4_sm_rx_cb_Nil [simp]: "hci_h4_sm_rx_cb s [] = ([], Inr s)"
  by (simp add: hci_h4_sm_rx_cb_def)

lemma hci_h4_sm_rx_cb_append:
  "hci_h4_sm_rx_cb s (xs @ ys) = out_bind (hci_h4_sm_rx_cb s xs) (\<lambda>s'. hci_h4_sm_rx_cb s' ys)"
proof -
  obtain fs1 r1 where x: "h4_sm_rx s xs = (fs1, r1)" by (cases "h4_sm_rx s xs")
  show ?thesis
  proof (cases r1)
    case (Inl e)
    with x show ?thesis
      by (simp add: hci_h4_sm_rx_cb_def h4_sm_rx_append out_bind_assoc)
  next
    case (Inr s1)
    obtain fs2 r2 where y: "h4_sm_rx s1 ys = (fs2, r2)" by (cases "h4_sm_rx s1 ys")
    with x Inr show ?thesis
      by (simp add: hci_h4_sm_rx_cb_def h4_sm_rx_append out_bind_assoc hci_dispatch_frames_append)
  qed
qed

lemma rtthread_hci_uart_entry_run:
  assumes cap: "\<forall>k. 0 < cap k" and n: "length (rx_wire (hci_dev t)) \<le> n"
  shows "\<exists>d'. rx_wire d' = [] \<and> tx_wire d' = tx_wire (hci_dev t) \<and>
    rtthread_hci_uart_entry n cap t =
      out_map (\<lambda>s. t\<lparr>hci_dev := d', hci_h4sm := s\<rparr>) (hci_h4_sm_rx_cb (hci_h4sm t) (rx_wire (hci_dev t)))"
  using n
proof (induction n arbitrary: t)
  case 0
  then show ?case by (intro exI [of _ "hci_dev t"]) simp
next
  case (Suc n)
  let ?rx = "rx_wire (hci_dev t)"
  let ?m = "min (cap (rx_calls (hci_dev t))) (min ARRAY_SIZE_rx (length ?rx))"
  let ?d1 = "(hci_dev t)\<lparr>rx_wire := drop ?m ?rx, rx_calls := Suc (rx_calls (hci_dev t))\<rparr>"
  have rd: "rt_device_read cap (hci_dev t) ARRAY_SIZE_rx = (?d1, take ?m ?rx)"
    by (simp add: rt_device_read_def Let_def)
  have split: "?rx = take ?m ?rx @ drop ?m ?rx" by simp
  show ?case
  proof (cases "?rx = []")
    case True
    then have it: "rtthread_hci_uart_rx cap t = ([], Inr (t\<lparr>hci_dev := ?d1\<rparr>))"
      by (simp add: rtthread_hci_uart_rx_def rd)
    from True Suc.IH [of "t\<lparr>hci_dev := ?d1\<rparr>"] obtain d' where
      "rx_wire d' = []" "tx_wire d' = tx_wire ?d1"
      "rtthread_hci_uart_entry n cap (t\<lparr>hci_dev := ?d1\<rparr>) = ([], Inr (t\<lparr>hci_dev := d'\<rparr>))"
      by auto
    with True it show ?thesis by (intro exI [of _ d']) simp
  next
    case False
    have pos: "0 < ?m" using False cap by (simp add: ARRAY_SIZE_rx_def RX_BUF_SIZE_def)
    then have it: "rtthread_hci_uart_rx cap t =
        out_map (\<lambda>s. t\<lparr>hci_dev := ?d1, hci_h4sm := s\<rparr>) (hci_h4_sm_rx_cb (hci_h4sm t) (take ?m ?rx))"
      using False by (simp add: rtthread_hci_uart_rx_def rd)
    have rest: "length (drop ?m ?rx) \<le> n" using Suc.prems pos unfolding length_drop by linarith
    obtain ms r where c: "hci_h4_sm_rx_cb (hci_h4sm t) (take ?m ?rx) = (ms, r)"
      by (cases "hci_h4_sm_rx_cb (hci_h4sm t) (take ?m ?rx)")
    have whole: "hci_h4_sm_rx_cb (hci_h4sm t) ?rx =
        out_bind (ms, r) (\<lambda>s'. hci_h4_sm_rx_cb s' (drop ?m ?rx))"
      by (subst split) (simp only: hci_h4_sm_rx_cb_append c)
    show ?thesis
    proof (cases r)
      case (Inl e)
      with it c whole show ?thesis
        by (intro exI [of _ "(hci_dev t)\<lparr>rx_wire := []\<rparr>"]) (simp add: out_bind_map)
    next
      case (Inr s1)
      from Suc.IH [of "t\<lparr>hci_dev := ?d1, hci_h4sm := s1\<rparr>"] rest obtain d' where
        d': "rx_wire d' = []" "tx_wire d' = tx_wire ?d1"
        "rtthread_hci_uart_entry n cap (t\<lparr>hci_dev := ?d1, hci_h4sm := s1\<rparr>) =
           out_map (\<lambda>s. t\<lparr>hci_dev := d', hci_h4sm := s\<rparr>) (hci_h4_sm_rx_cb s1 (drop ?m ?rx))"
        by auto
      with it c whole Inr show ?thesis
        by (intro exI [of _ d']) (simp add: out_bind_map out_map_prepend)
    qed
  qed
qed


lemma hci_dispatch_frames_ok:
  "\<forall>f\<in>set fs. frame_type f \<noteq> H4_CMD \<Longrightarrow>
   \<exists>ms. hci_dispatch_frames fs = (ms, Inr ()) \<and>
     map Inr ms = map (\<lambda>f. rtthread_ble_hci_frame_cb (frame_type f) (frame_data f)) fs"
proof (induction fs)
  case Nil
  then show ?case by simp
next
  case (Cons f fs)
  obtain t d where f: "f = H4_Frame t d" by (cases f)
  from Cons obtain ms where "hci_dispatch_frames fs = (ms, Inr ())"
    "map Inr ms = map (\<lambda>f. rtthread_ble_hci_frame_cb (frame_type f) (frame_data f)) fs"
    by auto
  with Cons.prems f show ?case by (cases t) auto
qed

lemma rtthread_hci_uart_entry_drains:
  assumes cap: "\<forall>k. 0 < cap k" and idle: "hci_h4sm t = W4_PKT_TYPE"
    and wire: "rx_wire (hci_dev t) = concat (map h4_encode fs)"
    and ok: "list_all h4_frame_ok fs" and types: "\<forall>f\<in>set fs. frame_type f \<noteq> H4_CMD"
    and n: "length (rx_wire (hci_dev t)) \<le> n"
  shows "\<exists>ms d'. rtthread_hci_uart_entry n cap t = (ms, Inr (t\<lparr>hci_dev := d'\<rparr>)) \<and>
     map Inr ms = map (\<lambda>f. rtthread_ble_hci_frame_cb (frame_type f) (frame_data f)) fs \<and>
     rx_wire d' = [] \<and> tx_wire d' = tx_wire (hci_dev t)"
proof -
  from rtthread_hci_uart_entry_run [OF cap n] obtain d' where d': "rx_wire d' = []"
    "tx_wire d' = tx_wire (hci_dev t)"
    "rtthread_hci_uart_entry n cap t =
       out_map (\<lambda>s. t\<lparr>hci_dev := d', hci_h4sm := s\<rparr>) (hci_h4_sm_rx_cb (hci_h4sm t) (rx_wire (hci_dev t)))"
    by blast
  from hci_dispatch_frames_ok [OF types] obtain ms where ms: "hci_dispatch_frames fs = (ms, Inr ())"
    "map Inr ms = map (\<lambda>f. rtthread_ble_hci_frame_cb (frame_type f) (frame_data f)) fs"
    by blast
  have "hci_h4_sm_rx_cb (hci_h4sm t) (rx_wire (hci_dev t)) = (ms, Inr W4_PKT_TYPE)"
    by (simp add: hci_h4_sm_rx_cb_def idle wire h4_sm_rx_frames [OF ok] ms(1))
  moreover have "t\<lparr>hci_dev := d', hci_h4sm := W4_PKT_TYPE\<rparr> = t\<lparr>hci_dev := d'\<rparr>"
    using idle by (cases t) simp
  ultimately show ?thesis using d' ms idle by (intro exI [of _ ms] exI [of _ d']) simp
qed

text \<open>Claim C1: inbound framing round trip through the reader thread. When the
  controller has sent a sequence of well-formed event and ACL packets, H4 encoded,
  and the H4 machine is idle, running \<open>rtthread_hci_uart_entry\<close> long enough
  (one iteration per byte suffices, whatever chunk sizes the device delivers)
  hands the host exactly those packets, in order, each through
  \<open>rtthread_ble_hci_frame_cb\<close>, consumes every byte and leaves the machine idle.\<close>

theorem rtthread_hci_uart_entry_delivers:
  assumes cap: "\<forall>k. 0 < cap k" and idle: "hci_h4sm t = W4_PKT_TYPE"
    and wire: "rx_wire (hci_dev t) = concat (map h4_encode fs)"
    and ok: "list_all h4_frame_ok fs" and types: "\<forall>f\<in>set fs. frame_type f \<noteq> H4_CMD"
    and n: "length (rx_wire (hci_dev t)) \<le> n"
  shows "\<exists>ms d'. rtthread_hci_uart_entry n cap t = (ms, Inr (t\<lparr>hci_dev := d'\<rparr>)) \<and>
     map Inr ms = map (\<lambda>f. rtthread_ble_hci_frame_cb (frame_type f) (frame_data f)) fs \<and>
     rx_wire d' = [] \<and> tx_wire d' = tx_wire (hci_dev t)"
  using assms by (rule rtthread_hci_uart_entry_drains)

theorem rtthread_hci_uart_entry_delivers_witness:
  "\<exists>ms d'. rtthread_hci_uart_entry 8 (\<lambda>_. 3)
     \<lparr>hci_uart_set = True, hci_uart_open = True,
      hci_dev = \<lparr>tx_wire = [], tx_calls = 0, rx_wire = [0x04, 0x0e, 0x00, 0x02, 0x01, 0x00, 0x00, 0x00], rx_calls = 0\<rparr>,
      hci_h4sm = W4_PKT_TYPE, hci_thread = True\<rparr> =
     (ms, Inr \<lparr>hci_uart_set = True, hci_uart_open = True, hci_dev = d',
      hci_h4sm = W4_PKT_TYPE, hci_thread = True\<rparr>) \<and>
     ms = [HS_EVT [0x0e, 0x00], HS_ACL [0x01, 0x00, 0x00, 0x00]] \<and>
     rx_wire d' = [] \<and> tx_wire d' = []"
proof -
  let ?t = "\<lparr>hci_uart_set = True, hci_uart_open = True,
      hci_dev = \<lparr>tx_wire = [], tx_calls = 0, rx_wire = [0x04, 0x0e, 0x00, 0x02, 0x01, 0x00, 0x00, 0x00], rx_calls = 0\<rparr>,
      hci_h4sm = W4_PKT_TYPE, hci_thread = True\<rparr>"
  let ?fs = "[H4_Frame H4_EVT [0x0e, 0x00], H4_Frame H4_ACL [0x01, 0x00, 0x00, 0x00]]"
  have h1: "\<forall>k. 0 < (\<lambda>_. 3::nat) k" by simp
  have h2: "hci_h4sm ?t = W4_PKT_TYPE" by simp
  have h3: "rx_wire (hci_dev ?t) = concat (map h4_encode ?fs)" by (simp add: model_simps)
  have h4: "list_all h4_frame_ok ?fs" by simp
  have h5: "\<forall>f\<in>set ?fs. frame_type f \<noteq> H4_CMD" by simp
  have h6: "length (rx_wire (hci_dev ?t)) \<le> 8" by simp
  from rtthread_hci_uart_entry_delivers [OF h1 h2 h3 h4 h5 h6] show ?thesis by auto
qed


text \<open>Claim C6: a command packet from the controller stops the reader thread. The
  frame callback handles only ACL and event packets, so a well-formed command
  frame in the inbound stream hits \<open>assert(0)\<close> after the packets before it were
  delivered; the specification routes command frames to the event sink.\<close>

theorem rtthread_hci_uart_entry_cmd_asserts:
  assumes cap: "\<forall>k. 0 < cap k" and idle: "hci_h4sm t = W4_PKT_TYPE"
    and wire: "rx_wire (hci_dev t) = concat (map h4_encode (fs @ H4_Frame H4_CMD c # gs))"
    and ok: "list_all h4_frame_ok (fs @ H4_Frame H4_CMD c # gs)"
    and types: "\<forall>f\<in>set fs. frame_type f \<noteq> H4_CMD"
    and n: "length (rx_wire (hci_dev t)) \<le> n"
  shows "\<exists>ms. rtthread_hci_uart_entry n cap t = (ms, Inl TP_ASSERT) \<and>
     map Inr ms = map (\<lambda>f. rtthread_ble_hci_frame_cb (frame_type f) (frame_data f)) fs"
proof -
  from rtthread_hci_uart_entry_run [OF cap n] obtain d' where d':
    "rtthread_hci_uart_entry n cap t =
       out_map (\<lambda>s. t\<lparr>hci_dev := d', hci_h4sm := s\<rparr>) (hci_h4_sm_rx_cb (hci_h4sm t) (rx_wire (hci_dev t)))"
    by blast
  from hci_dispatch_frames_ok [OF types] obtain ms where ms: "hci_dispatch_frames fs = (ms, Inr ())"
    "map Inr ms = map (\<lambda>f. rtthread_ble_hci_frame_cb (frame_type f) (frame_data f)) fs"
    by blast
  have "hci_dispatch_frames (fs @ H4_Frame H4_CMD c # gs) = (ms, Inl TP_ASSERT)"
    by (simp add: hci_dispatch_frames_append ms(1))
  moreover have "h4_sm_rx W4_PKT_TYPE (rx_wire (hci_dev t)) =
      (fs @ H4_Frame H4_CMD c # gs, Inr W4_PKT_TYPE)"
    unfolding wire by (rule h4_sm_rx_frames [OF ok])
  ultimately have "hci_h4_sm_rx_cb (hci_h4sm t) (rx_wire (hci_dev t)) = (ms, Inl TP_ASSERT)"
    by (simp add: hci_h4_sm_rx_cb_def idle)
  with d' ms show ?thesis by simp
qed

theorem rtthread_hci_uart_entry_cmd_asserts_witness:
  "\<exists>ms. rtthread_hci_uart_entry 9 (\<lambda>_. 64)
     \<lparr>hci_uart_set = True, hci_uart_open = True,
      hci_dev = \<lparr>tx_wire = [], tx_calls = 0, rx_wire = [0x04, 0x0e, 0x00, 0x01, 0x03, 0x0c, 0x00], rx_calls = 0\<rparr>,
      hci_h4sm = W4_PKT_TYPE, hci_thread = True\<rparr> = (ms, Inl TP_ASSERT) \<and>
     ms = [HS_EVT [0x0e, 0x00]]"
proof -
  let ?t = "\<lparr>hci_uart_set = True, hci_uart_open = True,
      hci_dev = \<lparr>tx_wire = [], tx_calls = 0, rx_wire = [0x04, 0x0e, 0x00, 0x01, 0x03, 0x0c, 0x00], rx_calls = 0\<rparr>,
      hci_h4sm = W4_PKT_TYPE, hci_thread = True\<rparr>"
  let ?fs = "[H4_Frame H4_EVT [0x0e, 0x00]]"
  have h1: "\<forall>k. 0 < (\<lambda>_. 64::nat) k" by simp
  have h2: "hci_h4sm ?t = W4_PKT_TYPE" by simp
  have h3: "rx_wire (hci_dev ?t) = concat (map h4_encode (?fs @ H4_Frame H4_CMD [0x03, 0x0c, 0x00] # []))"
    by (simp add: model_simps)
  have h4: "list_all h4_frame_ok (?fs @ H4_Frame H4_CMD [0x03, 0x0c, 0x00] # [])" by simp
  have h5: "\<forall>f\<in>set ?fs. frame_type f \<noteq> H4_CMD" by simp
  have h6: "length (rx_wire (hci_dev ?t)) \<le> 9" by simp
  from rtthread_hci_uart_entry_cmd_asserts [OF h1 h2 h3 h4 h5 h6] show ?thesis by auto
qed

text \<open>Claim C21: a malformed byte stops the reader thread. When the stream holds
  well-formed event and ACL packets followed by a byte that is no H4 indicator, the
  reader delivers those packets and then stops with the H4 machine's
  \<open>H4_MALFORMED\<close> error for that byte, without resynchronising (specification,
  section 7).\<close>

theorem rtthread_hci_uart_entry_malformed:
  assumes cap: "\<forall>k. 0 < cap k" and idle: "hci_h4sm t = W4_PKT_TYPE"
    and wire: "rx_wire (hci_dev t) = concat (map h4_encode fs) @ b # rest"
    and ok: "list_all h4_frame_ok fs" and types: "\<forall>f\<in>set fs. frame_type f \<noteq> H4_CMD"
    and bad: "h4_type_of b = None"
    and n: "length (rx_wire (hci_dev t)) \<le> n"
  shows "\<exists>ms. rtthread_hci_uart_entry n cap t = (ms, Inl (TP_MALFORMED (H4_MALFORMED b))) \<and>
     map Inr ms = map (\<lambda>f. rtthread_ble_hci_frame_cb (frame_type f) (frame_data f)) fs"
proof -
  from rtthread_hci_uart_entry_run [OF cap n] obtain d' where d':
    "rtthread_hci_uart_entry n cap t =
       out_map (\<lambda>s. t\<lparr>hci_dev := d', hci_h4sm := s\<rparr>) (hci_h4_sm_rx_cb (hci_h4sm t) (rx_wire (hci_dev t)))"
    by blast
  from hci_dispatch_frames_ok [OF types] obtain ms where ms: "hci_dispatch_frames fs = (ms, Inr ())"
    "map Inr ms = map (\<lambda>f. rtthread_ble_hci_frame_cb (frame_type f) (frame_data f)) fs"
    by blast
  have "h4_sm_rx W4_PKT_TYPE (rx_wire (hci_dev t)) = (fs, Inl (H4_MALFORMED b))"
    unfolding wire h4_sm_rx_append h4_sm_rx_frames [OF ok] using bad by simp
  with ms(1) have "hci_h4_sm_rx_cb (hci_h4sm t) (rx_wire (hci_dev t)) = (ms, Inl (TP_MALFORMED (H4_MALFORMED b)))"
    by (simp add: hci_h4_sm_rx_cb_def idle)
  with d' ms show ?thesis by simp
qed

theorem rtthread_hci_uart_entry_malformed_witness:
  "\<exists>ms. rtthread_hci_uart_entry 5 (\<lambda>_. 2) \<lparr>hci_uart_set = True, hci_uart_open = True, hci_dev = \<lparr>tx_wire = [], tx_calls = 0, rx_wire = [0x04, 0x0e, 0x00, 0x07, 0x01], rx_calls = 0\<rparr>, hci_h4sm = W4_PKT_TYPE, hci_thread = True\<rparr> = (ms, Inl (TP_MALFORMED (H4_MALFORMED 0x07))) \<and>
     ms = [HS_EVT [0x0e, 0x00]]"
proof -
  let ?fs = "[H4_Frame H4_EVT [0x0e, 0x00]]"
  have h1: "\<forall>k. 0 < (\<lambda>_. 2::nat) k" by simp
  have h2: "hci_h4sm \<lparr>hci_uart_set = True, hci_uart_open = True, hci_dev = \<lparr>tx_wire = [], tx_calls = 0, rx_wire = [0x04, 0x0e, 0x00, 0x07, 0x01], rx_calls = 0\<rparr>, hci_h4sm = W4_PKT_TYPE, hci_thread = True\<rparr> = W4_PKT_TYPE" by simp
  have h3: "rx_wire (hci_dev \<lparr>hci_uart_set = True, hci_uart_open = True, hci_dev = \<lparr>tx_wire = [], tx_calls = 0, rx_wire = [0x04, 0x0e, 0x00, 0x07, 0x01], rx_calls = 0\<rparr>, hci_h4sm = W4_PKT_TYPE, hci_thread = True\<rparr>) = concat (map h4_encode ?fs) @ 0x07 # [0x01]"
    by (simp add: model_simps)
  have h4: "list_all h4_frame_ok ?fs" by simp
  have h5: "\<forall>f\<in>set ?fs. frame_type f \<noteq> H4_CMD" by simp
  have h6: "h4_type_of 0x07 = None" by (simp add: h4_type_of_def)
  have h7: "length (rx_wire (hci_dev \<lparr>hci_uart_set = True, hci_uart_open = True, hci_dev = \<lparr>tx_wire = [], tx_calls = 0, rx_wire = [0x04, 0x0e, 0x00, 0x07, 0x01], rx_calls = 0\<rparr>, hci_h4sm = W4_PKT_TYPE, hci_thread = True\<rparr>)) \<le> 5" by simp
  from rtthread_hci_uart_entry_malformed [OF h1 h2 h3 h4 h5 h6 h7] show ?thesis by auto
qed



subsection \<open>Initialisation\<close>

text \<open>Claim C8: \<open>rtthread_hci_uart_init\<close> returns 0 exactly when the device was
  found and neither opening nor configuring it reported \<open>-RT_EBUSY\<close>; on success
  the handle is set and the reader thread started; otherwise it returns -1 and
  starts no thread; the handle is set whenever the device was found.\<close>

theorem rtthread_hci_uart_init_rc:
  assumes "rtthread_hci_uart_init e t = Inr (rc, t')"
  shows "(rc = 0 \<longleftrightarrow> env_find e \<and> env_open_rc e \<noteq> - RT_EBUSY \<and> env_control_rc e \<noteq> - RT_EBUSY) \<and>
         (rc = 0 \<longrightarrow> hci_uart_set t' \<and> hci_thread t') \<and>
         (rc \<noteq> 0 \<longrightarrow> rc = -1 \<and> hci_thread t' = hci_thread t) \<and>
         hci_uart_set t' = env_find e"
  using assms by (auto simp: rtthread_hci_uart_init_def Let_def split: if_splits)

theorem rtthread_hci_uart_init_rc_witness:
  "rtthread_hci_uart_init \<lparr>env_find = True, env_open_rc = 0, env_control_rc = 0, env_thread_ok = True\<rparr> \<lparr>hci_uart_set = True, hci_uart_open = True, hci_dev = \<lparr>tx_wire = [], tx_calls = 0, rx_wire = [], rx_calls = 0\<rparr>, hci_h4sm = W4_PKT_TYPE, hci_thread = True\<rparr> =
     Inr (0, \<lparr>hci_uart_set = True, hci_uart_open = True, hci_dev = \<lparr>tx_wire = [], tx_calls = 0, rx_wire = [], rx_calls = 0\<rparr>, hci_h4sm = W4_PKT_TYPE, hci_thread = True\<rparr>) \<and>
   ((0::int) = 0 \<longleftrightarrow> True \<and> (0::int) \<noteq> - RT_EBUSY \<and> (0::int) \<noteq> - RT_EBUSY) \<and>
   hci_uart_set \<lparr>hci_uart_set = True, hci_uart_open = True, hci_dev = \<lparr>tx_wire = [], tx_calls = 0, rx_wire = [], rx_calls = 0\<rparr>, hci_h4sm = W4_PKT_TYPE, hci_thread = True\<rparr> \<and> hci_thread \<lparr>hci_uart_set = True, hci_uart_open = True, hci_dev = \<lparr>tx_wire = [], tx_calls = 0, rx_wire = [], rx_calls = 0\<rparr>, hci_h4sm = W4_PKT_TYPE, hci_thread = True\<rparr>"
proof -
  have r: "rtthread_hci_uart_init \<lparr>env_find = True, env_open_rc = 0, env_control_rc = 0, env_thread_ok = True\<rparr> \<lparr>hci_uart_set = True, hci_uart_open = True, hci_dev = \<lparr>tx_wire = [], tx_calls = 0, rx_wire = [], rx_calls = 0\<rparr>, hci_h4sm = W4_PKT_TYPE, hci_thread = True\<rparr> =
     Inr (0, \<lparr>hci_uart_set = True, hci_uart_open = True, hci_dev = \<lparr>tx_wire = [], tx_calls = 0, rx_wire = [], rx_calls = 0\<rparr>, hci_h4sm = W4_PKT_TYPE, hci_thread = True\<rparr>)"
    by (simp add: model_simps)
  from rtthread_hci_uart_init_rc [OF r] r show ?thesis by simp
qed

text \<open>Claim C9: a busy device still leaves the handle set. When \<open>rt_device_open\<close>
  reports \<open>-RT_EBUSY\<close>, initialisation fails with -1, but \<open>g_hci_uart\<close> keeps the
  found device, so a later \<open>ble_transport_to_ll_cmd_impl\<close> passes its assertion and
  writes to a device the driver never opened.\<close>

theorem rtthread_hci_uart_init_busy:
  "env_find e \<Longrightarrow> env_open_rc e = - RT_EBUSY \<Longrightarrow>
   \<exists>t'. rtthread_hci_uart_init e t = Inr (-1, t') \<and> hci_uart_set t' \<and> \<not> hci_uart_open t' \<and>
     (\<forall>fuel cap cmd. ble_transport_to_ll_cmd_impl fuel cap t' cmd \<noteq> Inl TP_ASSERT)"
  by (auto simp: rtthread_hci_uart_init_def RT_EBUSY_def ble_transport_to_ll_cmd_impl_def
      split: option.splits)

theorem rtthread_hci_uart_init_busy_witness:
  "env_find \<lparr>env_find = True, env_open_rc = - RT_EBUSY, env_control_rc = 0, env_thread_ok = True\<rparr> \<and>
   (\<exists>t'. rtthread_hci_uart_init \<lparr>env_find = True, env_open_rc = - RT_EBUSY, env_control_rc = 0, env_thread_ok = True\<rparr> \<lparr>hci_uart_set = True, hci_uart_open = True, hci_dev = \<lparr>tx_wire = [], tx_calls = 0, rx_wire = [], rx_calls = 0\<rparr>, hci_h4sm = W4_PKT_TYPE, hci_thread = True\<rparr> = Inr (-1, t') \<and>
     hci_uart_set t' \<and> \<not> hci_uart_open t' \<and>
     (\<forall>fuel cap cmd. ble_transport_to_ll_cmd_impl fuel cap t' cmd \<noteq> Inl TP_ASSERT))"
  using rtthread_hci_uart_init_busy [of "\<lparr>env_find = True, env_open_rc = - RT_EBUSY, env_control_rc = 0, env_thread_ok = True\<rparr>" "\<lparr>hci_uart_set = True, hci_uart_open = True, hci_dev = \<lparr>tx_wire = [], tx_calls = 0, rx_wire = [], rx_calls = 0\<rparr>, hci_h4sm = W4_PKT_TYPE, hci_thread = True\<rparr>"]
  by simp

text \<open>Claim C10: other open errors are ignored. Only \<open>-RT_EBUSY\<close> from
  \<open>rt_device_open\<close> is checked: any other failure code lets initialisation go on,
  start the reader thread and report success on a device that is not open.\<close>

theorem rtthread_hci_uart_init_open_error:
  "env_find e \<Longrightarrow> env_open_rc e \<noteq> 0 \<Longrightarrow> env_open_rc e \<noteq> - RT_EBUSY \<Longrightarrow>
   env_control_rc e \<noteq> - RT_EBUSY \<Longrightarrow> env_thread_ok e \<Longrightarrow>
   \<exists>t'. rtthread_hci_uart_init e t = Inr (0, t') \<and> hci_thread t' \<and> \<not> hci_uart_open t'"
  by (simp add: rtthread_hci_uart_init_def)

theorem rtthread_hci_uart_init_open_error_witness:
  "\<exists>t'. rtthread_hci_uart_init \<lparr>env_find = True, env_open_rc = -8, env_control_rc = 0, env_thread_ok = True\<rparr> \<lparr>hci_uart_set = True, hci_uart_open = True, hci_dev = \<lparr>tx_wire = [], tx_calls = 0, rx_wire = [], rx_calls = 0\<rparr>, hci_h4sm = W4_PKT_TYPE, hci_thread = True\<rparr> = Inr (0, t') \<and>
     hci_thread t' \<and> \<not> hci_uart_open t'"
  by (rule rtthread_hci_uart_init_open_error) (simp_all add: RT_EBUSY_def)

end
