(* ===== verification/Transport_Refinement.thy ===== *)
theory Transport_Refinement
  imports Transport
begin

text \<open>
  The transport against the specification's contracts. The receive side is
  related to an abstract byte channel: \<open>rx_abs\<close> is what the controller has sent
  and the host has not yet received, the bytes of the frame in flight in the H4
  machine followed by the bytes still in the device. One iteration of the reader,
  and so every run of it, removes from the front of that channel the encodings of
  well-formed frames, exactly the frames it hands to the host. The send side is
  related to the specification's \<open>encode\<close>: serialised sends of well-formed packets
  leave a wire that decodes to the sent frames in order. \<open>transport_wf\<close> is the
  well-formedness of the driver's state, kept by every operation of the driver
  from boot on.
\<close>

subsection \<open>Abstract views\<close>

definition rx_abs :: "transport \<Rightarrow> byte list" where
  "rx_abs t = h4_pending (hci_h4sm t) @ rx_wire (hci_dev t)"

text \<open>The specification's channel step: the host receives the well-formed frames
  \<open>fs\<close>, whose encodings are the front of the channel \<open>a\<close>; \<open>a'\<close> is left.\<close>

definition chan_deliver :: "byte list \<Rightarrow> h4_frame list \<Rightarrow> byte list \<Rightarrow> bool" where
  "chan_deliver a fs a' \<longleftrightarrow> list_all h4_frame_ok fs \<and> a = concat (map h4_encode fs) @ a'"

text \<open>What the host's sinks receive for a sequence of frames.\<close>

definition host_msgs :: "h4_frame list \<Rightarrow> (tp_error + hs_msg) list" where
  "host_msgs fs = map (\<lambda>f. rtthread_ble_hci_frame_cb (frame_type f) (frame_data f)) fs"

text \<open>Well-formedness of the driver's state: the H4 machine is in a state it can
  reach (\<open>h4_sm_inv\<close>), a device that was opened or is being read was found, so
  \<open>g_hci_uart\<close> is not \<open>NULL\<close> while the reader thread runs.\<close>

definition transport_wf :: "transport \<Rightarrow> bool" where
  "transport_wf t \<longleftrightarrow>
     h4_sm_inv (hci_h4sm t) \<and> (hci_thread t \<longrightarrow> hci_uart_set t) \<and>
     (hci_uart_open t \<longrightarrow> hci_uart_set t)"

text \<open>The driver's statics at boot: \<open>g_hci_uart\<close> and \<open>g_hci_tid\<close> are \<open>NULL\<close>,
  \<open>g_hci_h4sm\<close> is zero, that is idle; the device is whatever is attached.\<close>

definition transport_boot :: "uart_dev \<Rightarrow> transport" where
  "transport_boot d =
     \<lparr>hci_uart_set = False, hci_uart_open = False, hci_dev = d, hci_h4sm = W4_PKT_TYPE,
      hci_thread = False\<rparr>"

text \<open>The states the driver can be in: \<open>ble_transport_rtthread_init\<close> runs once at
  boot (\<open>INIT_COMPONENT_EXPORT\<close>); then, in any order, tasks send commands and ACL
  data, the reader thread (once started) runs iterations, and the controller
  appends bytes to the device's receive buffer.\<close>

inductive transport_reachable :: "transport \<Rightarrow> bool" where
  boot: "ble_transport_rtthread_init e (transport_boot d) = Inr (rc, t) \<Longrightarrow> transport_reachable t"
| cmd: "transport_reachable t \<Longrightarrow> ble_transport_to_ll_cmd_impl fuel cap t c = Inr (rc, t') \<Longrightarrow>
    transport_reachable t'"
| acl: "transport_reachable t \<Longrightarrow> ble_transport_to_ll_acl_impl fuel cap t om = Inr (rc, t') \<Longrightarrow>
    transport_reachable t'"
| rx: "transport_reachable t \<Longrightarrow> hci_thread t \<Longrightarrow> rtthread_hci_uart_rx cap t = (ms, Inr t') \<Longrightarrow>
    transport_reachable t'"
| wire: "transport_reachable t \<Longrightarrow>
    transport_reachable (t\<lparr>hci_dev := (hci_dev t)\<lparr>rx_wire := rx_wire (hci_dev t) @ bs\<rparr>\<rparr>)"

subsection \<open>Serialised senders\<close>

text \<open>The two send entry points as one operation, the frame each stands for in the
  specification's \<open>encode\<close>, and the caller's obligations: a command whose length
  is \<open>3 + cmd[2]\<close>, an ACL chain whose data is a well-formed ACL packet, segments
  that fit the fuel.\<close>

datatype send_op = SEND_CMD "byte list" | SEND_ACL "byte list list"

primrec send_frame :: "send_op \<Rightarrow> h4_frame" where
  "send_frame (SEND_CMD cmd) = H4_Frame H4_CMD cmd"
| "send_frame (SEND_ACL om) = H4_Frame H4_ACL (concat om)"

primrec send_ok :: "nat \<Rightarrow> send_op \<Rightarrow> bool" where
  "send_ok fuel (SEND_CMD cmd) = (length cmd = 3 + unat (cmd ! 2) \<and> length cmd \<le> fuel)"
| "send_ok fuel (SEND_ACL om) =
     (h4_frame_ok (H4_Frame H4_ACL (concat om)) \<and> 0 < fuel \<and> list_all (\<lambda>x. length x \<le> fuel) om)"

primrec ble_transport_send :: "nat \<Rightarrow> dev_caps \<Rightarrow> send_op \<Rightarrow> transport \<Rightarrow> tp_error + int \<times> transport" where
  "ble_transport_send fuel cap (SEND_CMD cmd) t = ble_transport_to_ll_cmd_impl fuel cap t cmd"
| "ble_transport_send fuel cap (SEND_ACL om) t = ble_transport_to_ll_acl_impl fuel cap t om"

text \<open>Sends one after the other, as the specification requires of the callers; an
  assertion or a write loop that does not return stops the sequence.\<close>

fun ble_transport_send_all :: "nat \<Rightarrow> dev_caps \<Rightarrow> send_op list \<Rightarrow> transport \<Rightarrow> tp_error + transport" where
  "ble_transport_send_all fuel cap [] t = Inr t"
| "ble_transport_send_all fuel cap (op # ops) t =
     (case ble_transport_send fuel cap op t of
        Inl e \<Rightarrow> Inl e
      | Inr (rc, t') \<Rightarrow> ble_transport_send_all fuel cap ops t')"

text \<open>The abstraction of the send side: the frames an H4 receiver decodes from all
  bytes accepted so far, if it decodes them without error and ends idle.\<close>

definition tx_frames :: "uart_dev \<Rightarrow> h4_frame list option" where
  "tx_frames d =
     (case h4_sm_rx W4_PKT_TYPE (tx_wire d) of
        (fs, Inr W4_PKT_TYPE) \<Rightarrow> Some fs
      | _ \<Rightarrow> None)"

subsection \<open>Lemmas on the abstract channel\<close>

lemma chan_deliver_Nil [simp]: "chan_deliver a [] a' \<longleftrightarrow> a = a'"
  by (simp add: chan_deliver_def)

lemma chan_deliver_trans:
  "chan_deliver a fs a' \<Longrightarrow> chan_deliver a' gs a'' \<Longrightarrow> chan_deliver a (fs @ gs) a''"
  by (simp add: chan_deliver_def)

lemma chan_deliver_append_right:
  "chan_deliver a fs a' \<Longrightarrow> chan_deliver (a @ xs) fs (a' @ xs)"
  by (simp add: chan_deliver_def)

lemma host_msgs_append [simp]: "host_msgs (fs @ gs) = host_msgs fs @ host_msgs gs"
  by (simp add: host_msgs_def)

lemma hci_dispatch_frames_Inr:
  "hci_dispatch_frames fs = (ms, Inr u) \<Longrightarrow> map Inr ms = host_msgs fs"
proof (induction fs arbitrary: ms)
  case Nil
  then show ?case by (simp add: host_msgs_def)
next
  case (Cons f fs)
  obtain ty d where f: "f = H4_Frame ty d" by (cases f)
  obtain ms1 r1 where fs: "hci_dispatch_frames fs = (ms1, r1)" by (cases "hci_dispatch_frames fs")
  with Cons f show ?case
    by (cases "rtthread_ble_hci_frame_cb ty d") (auto simp: host_msgs_def)
qed

lemma hci_h4_sm_rx_cb_Inr:
  assumes "hci_h4_sm_rx_cb s bs = (ms, Inr s')"
  shows "\<exists>fs. h4_sm_rx s bs = (fs, Inr s') \<and> map Inr ms = host_msgs fs"
proof -
  obtain fs r where rx: "h4_sm_rx s bs = (fs, r)" by (cases "h4_sm_rx s bs")
  obtain ms1 r1 where d: "hci_dispatch_frames fs = (ms1, r1)" by (cases "hci_dispatch_frames fs")
  from assms rx d obtain u where "r1 = Inr u" "r = Inr s'" "ms = ms1"
    by (cases r1; cases r) (auto simp: hci_h4_sm_rx_cb_def)
  with rx d show ?thesis by (auto dest: hci_dispatch_frames_Inr)
qed

subsection \<open>One iteration of the reader refines the channel\<close>

lemma rtthread_hci_uart_rx_refines:
  assumes wf: "transport_wf t" and rx: "rtthread_hci_uart_rx cap t = (ms, Inr t')"
  shows "transport_wf t' \<and> tx_wire (hci_dev t') = tx_wire (hci_dev t) \<and>
    (\<exists>fs. chan_deliver (rx_abs t) fs (rx_abs t') \<and> map Inr ms = host_msgs fs)"
proof -
  let ?w = "rx_wire (hci_dev t)"
  let ?m = "min (cap (rx_calls (hci_dev t))) (min ARRAY_SIZE_rx (length ?w))"
  let ?d1 = "(hci_dev t)\<lparr>rx_wire := drop ?m ?w, rx_calls := Suc (rx_calls (hci_dev t))\<rparr>"
  have rd: "rt_device_read cap (hci_dev t) ARRAY_SIZE_rx = (?d1, take ?m ?w)"
    by (simp add: rt_device_read_def Let_def)
  show ?thesis
  proof (cases "take ?m ?w = []")
    case True
    with rx rd have "ms = []" "t' = t\<lparr>hci_dev := ?d1\<rparr>"
      by (simp_all add: rtthread_hci_uart_rx_def)
    moreover from True have "drop ?m ?w = ?w"
      by (metis append_take_drop_id self_append_conv2)
    ultimately show ?thesis using wf
      by (simp add: transport_wf_def rx_abs_def host_msgs_def)
  next
    case False
    obtain ms1 r where cb0: "hci_h4_sm_rx_cb (hci_h4sm t) (take ?m ?w) = (ms1, r)"
      by (cases "hci_h4_sm_rx_cb (hci_h4sm t) (take ?m ?w)")
    from False rx rd cb0 have run: "(ms1, map_sum id (\<lambda>s. t\<lparr>hci_dev := ?d1, hci_h4sm := s\<rparr>) r) = (ms, Inr t')"
      by (simp add: rtthread_hci_uart_rx_def out_map_def)
    then obtain s' where "r = Inr s'" and t': "t' = t\<lparr>hci_dev := ?d1, hci_h4sm := s'\<rparr>"
      by (cases r) auto
    with run cb0 have cb: "hci_h4_sm_rx_cb (hci_h4sm t) (take ?m ?w) = (ms, Inr s')" by simp
    from hci_h4_sm_rx_cb_Inr [OF cb] obtain fs where
      h4: "h4_sm_rx (hci_h4sm t) (take ?m ?w) = (fs, Inr s')" and msgs: "map Inr ms = host_msgs fs"
      by blast
    from wf have "h4_sm_inv (hci_h4sm t)" by (simp add: transport_wf_def)
    from h4_sm_rx_refines [OF this h4] have
      inv: "h4_sm_inv s'" and ok: "list_all h4_frame_ok fs" and
      eq: "h4_pending (hci_h4sm t) @ take ?m ?w = concat (map h4_encode fs) @ h4_pending s'"
      by auto
    have "rx_abs t = (h4_pending (hci_h4sm t) @ take ?m ?w) @ drop ?m ?w"
      by (simp add: rx_abs_def)
    with eq t' have "rx_abs t = concat (map h4_encode fs) @ rx_abs t'"
      by (simp add: rx_abs_def)
    with ok msgs inv wf t' show ?thesis
      by (auto simp: chan_deliver_def transport_wf_def)
  qed
qed

subsection \<open>The reader thread refines the channel\<close>

lemma rtthread_hci_uart_entry_chan:
  assumes "transport_wf t" and "rtthread_hci_uart_entry n cap t = (ms, Inr t')"
  shows "transport_wf t' \<and> tx_wire (hci_dev t') = tx_wire (hci_dev t) \<and>
    (\<exists>fs. chan_deliver (rx_abs t) fs (rx_abs t') \<and> map Inr ms = host_msgs fs)"
  using assms
proof (induction n arbitrary: t ms)
  case 0
  then show ?case by (auto simp: host_msgs_def)
next
  case (Suc n)
  obtain ms1 r1 where r1: "rtthread_hci_uart_rx cap t = (ms1, r1)"
    by (cases "rtthread_hci_uart_rx cap t")
  from Suc.prems(2) r1 obtain t1 where t1: "r1 = Inr t1"
    by (cases r1) auto
  obtain ms3 r3 where r3: "rtthread_hci_uart_entry n cap t1 = (ms3, r3)"
    by (cases "rtthread_hci_uart_entry n cap t1")
  with Suc.prems(2) r1 t1 have run: "rtthread_hci_uart_entry n cap t1 = (ms3, Inr t')"
    and ms: "ms = ms1 @ ms3"
    by auto
  from rtthread_hci_uart_rx_refines [OF Suc.prems(1)] r1 t1 obtain fs1 where
    wf1: "transport_wf t1" and tx1: "tx_wire (hci_dev t1) = tx_wire (hci_dev t)"
    and c1: "chan_deliver (rx_abs t) fs1 (rx_abs t1)" and m1: "map Inr ms1 = host_msgs fs1"
    by blast
  from Suc.IH [OF wf1 run] obtain fs2 where
    "transport_wf t'" "tx_wire (hci_dev t') = tx_wire (hci_dev t1)"
    "chan_deliver (rx_abs t1) fs2 (rx_abs t')" "map Inr ms3 = host_msgs fs2"
    by blast
  with tx1 c1 m1 ms show ?case
    by (intro conjI exI [of _ "fs1 @ fs2"]) (auto intro: chan_deliver_trans)
qed

text \<open>Claim C24: refinement of the receive path. From a well-formed state, every run
  of \<open>rtthread_hci_uart_entry\<close> that stops without error, over any device
  behaviour, is a step of the specification's channel: the host has received,
  through \<open>rtthread_ble_hci_frame_cb\<close>, exactly the well-formed frames whose
  encodings were the front of the channel, in order; what remains is the channel
  after them; the state is still well-formed and nothing was sent.\<close>

theorem rtthread_hci_uart_entry_refines:
  assumes "transport_wf t" and "rtthread_hci_uart_entry n cap t = (ms, Inr t')"
  shows "transport_wf t' \<and> tx_wire (hci_dev t') = tx_wire (hci_dev t) \<and>
    (\<exists>fs. chan_deliver (rx_abs t) fs (rx_abs t') \<and> map Inr ms = host_msgs fs)"
  using assms by (rule rtthread_hci_uart_entry_chan)

theorem rtthread_hci_uart_entry_refines_witness:
  "transport_wf \<lparr>hci_uart_set = True, hci_uart_open = True,
      hci_dev = \<lparr>tx_wire = [], tx_calls = 0, rx_wire = [0x04, 0x0e, 0x00, 0x02], rx_calls = 0\<rparr>,
      hci_h4sm = W4_PKT_TYPE, hci_thread = True\<rparr> \<and>
   rtthread_hci_uart_entry 2 (\<lambda>_. 3) \<lparr>hci_uart_set = True, hci_uart_open = True,
      hci_dev = \<lparr>tx_wire = [], tx_calls = 0, rx_wire = [0x04, 0x0e, 0x00, 0x02], rx_calls = 0\<rparr>,
      hci_h4sm = W4_PKT_TYPE, hci_thread = True\<rparr> =
     ([HS_EVT [0x0e, 0x00]], Inr \<lparr>hci_uart_set = True, hci_uart_open = True,
      hci_dev = \<lparr>tx_wire = [], tx_calls = 0, rx_wire = [], rx_calls = 2\<rparr>,
      hci_h4sm = W4_HEADER H4_ACL [], hci_thread = True\<rparr>) \<and>
   transport_wf \<lparr>hci_uart_set = True, hci_uart_open = True,
      hci_dev = \<lparr>tx_wire = [], tx_calls = 0, rx_wire = [], rx_calls = 2\<rparr>,
      hci_h4sm = W4_HEADER H4_ACL [], hci_thread = True\<rparr> \<and>
   (\<exists>fs. chan_deliver [0x04, 0x0e, 0x00, 0x02] fs [0x02] \<and> [Inr (HS_EVT [0x0e, 0x00])] = host_msgs fs)"
proof -
  let ?t = "\<lparr>hci_uart_set = True, hci_uart_open = True,
      hci_dev = \<lparr>tx_wire = [], tx_calls = 0, rx_wire = [0x04, 0x0e, 0x00, 0x02], rx_calls = 0\<rparr>,
      hci_h4sm = W4_PKT_TYPE, hci_thread = True\<rparr>"
  let ?t' = "\<lparr>hci_uart_set = True, hci_uart_open = True,
      hci_dev = \<lparr>tx_wire = [], tx_calls = 0, rx_wire = [], rx_calls = 2\<rparr>,
      hci_h4sm = W4_HEADER H4_ACL [], hci_thread = True\<rparr>"
  have wf: "transport_wf ?t" by (simp add: transport_wf_def)
  have "rtthread_hci_uart_entry (Suc (Suc 0)) (\<lambda>_. 3) ?t = ([HS_EVT [0x0e, 0x00]], Inr ?t')"
    by (simp add: model_simps)
  then have run: "rtthread_hci_uart_entry 2 (\<lambda>_. 3) ?t = ([HS_EVT [0x0e, 0x00]], Inr ?t')"
    by (simp add: numeral_2_eq_2)
  have "rx_abs ?t = [0x04, 0x0e, 0x00, 0x02]" "rx_abs ?t' = [0x02]"
    by (simp_all add: rx_abs_def model_simps)
  with rtthread_hci_uart_entry_refines [OF wf run] wf run show ?thesis by simp
qed

subsection \<open>Well-formedness is kept from boot on\<close>

lemma ble_transport_rtthread_init_wf:
  "ble_transport_rtthread_init e (transport_boot d) = Inr (rc, t) \<Longrightarrow> transport_wf t"
  by (auto simp: ble_transport_rtthread_init_def rtthread_hci_uart_init_def transport_boot_def
      transport_wf_def h4_sm_init_def Let_def split: if_splits sum.splits prod.splits)

lemma ble_transport_to_ll_cmd_impl_dev:
  "ble_transport_to_ll_cmd_impl fuel cap t c = Inr (rc, t') \<Longrightarrow> \<exists>d. t' = t\<lparr>hci_dev := d\<rparr>"
  by (auto simp: ble_transport_to_ll_cmd_impl_def Let_def split: if_splits option.splits)

lemma ble_transport_to_ll_acl_impl_dev:
  "ble_transport_to_ll_acl_impl fuel cap t om = Inr (rc, t') \<Longrightarrow> \<exists>d. t' = t\<lparr>hci_dev := d\<rparr>"
  by (auto simp: ble_transport_to_ll_acl_impl_def split: if_splits option.splits)

lemma transport_wf_dev [simp]: "transport_wf (t\<lparr>hci_dev := d\<rparr>) = transport_wf t"
  by (simp add: transport_wf_def)

text \<open>Claim C25: well-formedness of the driver's state. In every state the driver
  can reach from boot, through its one initialisation, any sends, any iterations
  of the reader thread and any bytes the controller sends, the H4 machine is in a
  consistent state (its collected header shorter than the header, or a complete
  header with a positive count of payload bytes still to come that matches the
  header's length field), and \<open>g_hci_uart\<close> is set whenever the device was
  opened or the reader thread runs.\<close>

theorem transport_reachable_wf: "transport_reachable t \<Longrightarrow> transport_wf t"
proof (induction rule: transport_reachable.induct)
  case (boot e d rc t)
  then show ?case by (rule ble_transport_rtthread_init_wf)
next
  case (cmd t fuel cap c rc t')
  then show ?case by (auto dest: ble_transport_to_ll_cmd_impl_dev)
next
  case (acl t fuel cap om rc t')
  then show ?case by (auto dest: ble_transport_to_ll_acl_impl_dev)
next
  case (rx t cap ms t')
  then show ?case using rtthread_hci_uart_rx_refines by blast
next
  case (wire t bs)
  then show ?case by simp
qed

theorem transport_reachable_wf_witness:
  "transport_reachable \<lparr>hci_uart_set = True, hci_uart_open = True,
      hci_dev = \<lparr>tx_wire = [], tx_calls = 0, rx_wire = [], rx_calls = 0\<rparr>,
      hci_h4sm = W4_PKT_TYPE, hci_thread = True\<rparr> \<and>
   transport_wf \<lparr>hci_uart_set = True, hci_uart_open = True,
      hci_dev = \<lparr>tx_wire = [], tx_calls = 0, rx_wire = [], rx_calls = 0\<rparr>,
      hci_h4sm = W4_PKT_TYPE, hci_thread = True\<rparr>"
proof -
  have "ble_transport_rtthread_init
      \<lparr>env_find = True, env_open_rc = 0, env_control_rc = 0, env_thread_ok = True\<rparr>
      (transport_boot \<lparr>tx_wire = [], tx_calls = 0, rx_wire = [], rx_calls = 0\<rparr>) =
    Inr (0, \<lparr>hci_uart_set = True, hci_uart_open = True,
      hci_dev = \<lparr>tx_wire = [], tx_calls = 0, rx_wire = [], rx_calls = 0\<rparr>,
      hci_h4sm = W4_PKT_TYPE, hci_thread = True\<rparr>)"
    by (simp add: model_simps transport_boot_def)
  then have r: "transport_reachable \<lparr>hci_uart_set = True, hci_uart_open = True,
      hci_dev = \<lparr>tx_wire = [], tx_calls = 0, rx_wire = [], rx_calls = 0\<rparr>,
      hci_h4sm = W4_PKT_TYPE, hci_thread = True\<rparr>"
    by (rule transport_reachable.boot)
  from r transport_reachable_wf [OF r] show ?thesis by simp
qed

subsection \<open>Serialised sends refine the specification's encoder\<close>

lemma tx_frames_Some:
  "tx_frames d = Some fs \<longleftrightarrow> h4_sm_rx W4_PKT_TYPE (tx_wire d) = (fs, Inr W4_PKT_TYPE)"
  by (auto simp: tx_frames_def split: prod.splits sum.splits h4_sm.splits)

lemma tx_frames_append:
  assumes "tx_frames d = Some fs" and "h4_frame_ok f"
    and "tx_wire d' = tx_wire d @ h4_encode f"
  shows "tx_frames d' = Some (fs @ [f])"
proof -
  from assms(2) have "h4_sm_rx W4_PKT_TYPE (concat (map h4_encode [f])) = ([f], Inr W4_PKT_TYPE)"
    by (intro h4_sm_rx_frames) simp
  with assms show ?thesis
    by (simp add: tx_frames_Some h4_sm_rx_append)
qed

lemma send_ok_frame: "send_ok fuel op \<Longrightarrow> h4_frame_ok (send_frame op)"
  by (cases op) simp_all

lemma ble_transport_send_wire:
  assumes "hci_uart_set t" and "\<forall>k. 0 < cap k" and "send_ok fuel op"
  shows "\<exists>d'. ble_transport_send fuel cap op t = Inr (0, t\<lparr>hci_dev := d'\<rparr>) \<and>
           tx_wire d' = tx_wire (hci_dev t) @ h4_encode (send_frame op) \<and>
           rx_wire d' = rx_wire (hci_dev t)"
proof (cases op)
  case (SEND_CMD cmd)
  with assms show ?thesis
    using ble_transport_to_ll_cmd_impl_writes [of t cap cmd fuel] by auto
next
  case (SEND_ACL om)
  with assms show ?thesis
    using ble_transport_to_ll_acl_impl_writes [of t cap fuel om] by (auto simp: list_all_iff)
qed

text \<open>Claim C26: refinement of the send side. When the callers serialise their
  sends, as the specification requires, and each packet is well formed, a
  sequence of \<open>ble_transport_to_ll_cmd_impl\<close> and \<open>ble_transport_to_ll_acl_impl\<close>
  calls on a device that makes progress returns, and the bytes on the wire decode
  to the frames already there followed by the specification's frame of each
  packet, in call order; the receive side is untouched.\<close>

theorem ble_transport_send_all_refines:
  assumes "hci_uart_set t" and "\<forall>k. 0 < cap k" and "list_all (send_ok fuel) ops"
    and "tx_frames (hci_dev t) = Some fs"
  shows "\<exists>t'. ble_transport_send_all fuel cap ops t = Inr t' \<and>
           tx_frames (hci_dev t') = Some (fs @ map send_frame ops) \<and>
           rx_wire (hci_dev t') = rx_wire (hci_dev t) \<and> hci_uart_set t'"
  using assms
proof (induction ops arbitrary: t fs)
  case Nil
  then show ?case by simp
next
  case (Cons op ops)
  from ble_transport_send_wire [OF Cons.prems(1,2)] Cons.prems(3) obtain d' where
    step: "ble_transport_send fuel cap op t = Inr (0, t\<lparr>hci_dev := d'\<rparr>)"
    and tx: "tx_wire d' = tx_wire (hci_dev t) @ h4_encode (send_frame op)"
    and rx: "rx_wire d' = rx_wire (hci_dev t)"
    by auto
  from Cons.prems(3) have ok: "h4_frame_ok (send_frame op)" by (auto intro: send_ok_frame)
  from tx_frames_append [OF Cons.prems(4) ok] tx
  have "tx_frames (hci_dev (t\<lparr>hci_dev := d'\<rparr>)) = Some (fs @ [send_frame op])" by simp
  with Cons.IH [of "t\<lparr>hci_dev := d'\<rparr>"] Cons.prems(1,2,3) step rx show ?case
    by auto
qed

theorem ble_transport_send_all_refines_witness:
  "\<exists>t'. ble_transport_send_all 4 (\<lambda>_. 2) [SEND_CMD [0x03, 0x0c, 0x00], SEND_ACL [[0x01, 0x00, 0x02, 0x00], [0xaa, 0xbb]]]
       \<lparr>hci_uart_set = True, hci_uart_open = True,
        hci_dev = \<lparr>tx_wire = [], tx_calls = 0, rx_wire = [], rx_calls = 0\<rparr>,
        hci_h4sm = W4_PKT_TYPE, hci_thread = True\<rparr> = Inr t' \<and>
     tx_frames (hci_dev t') =
       Some [H4_Frame H4_CMD [0x03, 0x0c, 0x00], H4_Frame H4_ACL [0x01, 0x00, 0x02, 0x00, 0xaa, 0xbb]] \<and>
     rx_wire (hci_dev t') = [] \<and> hci_uart_set t'"
proof -
  let ?t = "\<lparr>hci_uart_set = True, hci_uart_open = True,
        hci_dev = \<lparr>tx_wire = [], tx_calls = 0, rx_wire = [], rx_calls = 0\<rparr>,
        hci_h4sm = W4_PKT_TYPE, hci_thread = True\<rparr>"
  let ?ops = "[SEND_CMD [0x03, 0x0c, 0x00], SEND_ACL [[0x01, 0x00, 0x02, 0x00], [0xaa, 0xbb]]]"
  have h1: "hci_uart_set ?t" by simp
  have h2: "\<forall>k. 0 < (\<lambda>_. 2::nat) k" by simp
  have h3: "list_all (send_ok 4) ?ops" by simp
  have h4: "tx_frames (hci_dev ?t) = Some []" by (simp add: tx_frames_def)
  from ble_transport_send_all_refines [OF h1 h2 h3 h4] show ?thesis by simp
qed

end
