(* ===== verification/Blehr.thy ===== *)
theory Blehr
  imports Prelude
begin

text \<open>
  The heart-rate peripheral of \<open>src/apps/blehr/src/blehr.c\<close>: its module state
  (\<open>notify_state\<close>, \<open>notify_conn_handle\<close>, \<open>blehr_addr_type\<close>, the callout
  \<open>blehr_tx_timer\<close>, \<open>heartrate\<close> and the \<open>init_flag\<close> of \<open>ble_hr\<close>) as a record, the
  calls it makes into the NimBLE host as a log of \<open>hs_call\<close> values, the return
  codes the host gives back as an environment \<open>hs_env\<close>, one definition per
  function of the file, and the system they form: an inductive step relation in
  which the host's serialised context delivers the sync callback, GAP events and
  timer expiries one at a time.
\<close>

subsection \<open>Host-stack interface\<close>

text \<open>The advertisement data of \<open>blehr_advertise\<close> (\<open>struct ble_hs_adv_fields\<close>,
  the fields the function sets).\<close>

record adv_fields =
  adv_flags :: byte
  adv_tx_pwr_lvl_is_present :: bool
  adv_tx_pwr_lvl :: int
  adv_name :: string
  adv_name_is_complete :: bool

definition device_name :: string where
  "device_name = ''blehr_sensor''"

definition BLE_HS_ADV_F_DISC_GEN :: byte where
  "BLE_HS_ADV_F_DISC_GEN = 0x02"

definition BLE_HS_ADV_F_BREDR_UNSUP :: byte where
  "BLE_HS_ADV_F_BREDR_UNSUP = 0x04"

definition BLE_HS_ADV_TX_PWR_LVL_AUTO :: int where
  "BLE_HS_ADV_TX_PWR_LVL_AUTO = -128"

definition BLE_OWN_ADDR_RANDOM :: byte where
  "BLE_OWN_ADDR_RANDOM = 1"

definition blehr_adv_fields :: adv_fields where
  "blehr_adv_fields =
     \<lparr>adv_flags = BLE_HS_ADV_F_DISC_GEN OR BLE_HS_ADV_F_BREDR_UNSUP,
      adv_tx_pwr_lvl_is_present = True,
      adv_tx_pwr_lvl = BLE_HS_ADV_TX_PWR_LVL_AUTO,
      adv_name = device_name,
      adv_name_is_complete = True\<rparr>"

text \<open>The random static address of \<open>blehr_on_sync\<close>.\<close>

definition blehr_rnd_addr :: "byte list" where
  "blehr_rnd_addr = [0xcc, 0xbb, 0xaa, 0x33, 0x22, 0x11]"

text \<open>Calls into the host, in the order made: \<open>ble_gap_adv_set_fields\<close>,
  \<open>ble_gap_adv_start\<close> (own address type; undirected connectable, general
  discoverable, \<open>BLE_HS_FOREVER\<close>), \<open>ble_hs_id_set_rnd\<close>,
  \<open>ble_gattc_notify_custom\<close> (connection handle, attribute handle, payload),
  \<open>ble_svc_gap_device_name_set\<close> and \<open>ble_hs_thread_startup\<close>.\<close>

datatype hs_call =
    HS_ADV_SET_FIELDS adv_fields
  | HS_ADV_START byte
  | HS_SET_RND "byte list"
  | HS_NOTIFY u16 u16 "byte list"
  | HS_NAME_SET string
  | HS_THREAD_STARTUP

text \<open>Return codes the host gives to those calls.\<close>

record hs_env =
  rc_adv_set_fields :: int
  rc_adv_start :: int
  rc_set_rnd :: int
  rc_notify :: int
  rc_name_set :: int

text \<open>GAP events delivered to \<open>blehr_gap_event\<close>; \<open>GAP_OTHER\<close> stands for the
  event types its \<open>switch\<close> does not list.\<close>

datatype gap_event =
    GAP_CONNECT int u16
  | GAP_DISCONNECT int
  | GAP_ADV_COMPLETE
  | GAP_SUBSCRIBE u16 u16 bool
  | GAP_MTU u16 u16
  | GAP_OTHER nat

datatype bl_error = BL_ASSERT

subsection \<open>Module state\<close>

record blehr_state =
  notify_state :: bool
  notify_conn_handle :: u16
  blehr_addr_type :: byte
  tx_timer_armed :: bool
  heartrate :: byte
  init_flag :: bool
  hs_log :: "hs_call list"

text \<open>The statics at load time: \<open>heartrate = 90\<close>, everything else zero.\<close>

definition blehr_init :: blehr_state where
  "blehr_init =
     \<lparr>notify_state = False, notify_conn_handle = 0, blehr_addr_type = 0,
      tx_timer_armed = False, heartrate = 90, init_flag = False, hs_log = []\<rparr>"

definition hs_emit :: "hs_call \<Rightarrow> blehr_state \<Rightarrow> blehr_state" where
  "hs_emit c s = s\<lparr>hs_log := hs_log s @ [c]\<rparr>"

subsection \<open>Operations\<close>

text \<open>\<open>blehr_advertise\<close>: set the advertisement data; on success start advertising.
  Both failures only log.\<close>

definition blehr_advertise :: "hs_env \<Rightarrow> blehr_state \<Rightarrow> blehr_state" where
  "blehr_advertise env s =
     (let s1 = hs_emit (HS_ADV_SET_FIELDS blehr_adv_fields) s in
      if rc_adv_set_fields env \<noteq> 0 then s1
      else hs_emit (HS_ADV_START (blehr_addr_type s)) s1)"

definition blehr_tx_hrate_stop :: "blehr_state \<Rightarrow> blehr_state" where
  "blehr_tx_hrate_stop s = s\<lparr>tx_timer_armed := False\<rparr>"

text \<open>\<open>blehr_tx_hrate_reset\<close> re-arms the callout one second ahead; the callout
  reset of the port always returns 0, so its assertion holds.\<close>

definition blehr_tx_hrate_reset :: "blehr_state \<Rightarrow> blehr_state" where
  "blehr_tx_hrate_reset s = s\<lparr>tx_timer_armed := True\<rparr>"

text \<open>\<open>blehr_tx_hrate\<close>, the timer callback, with \<open>hrs_hrm_handle\<close> (set by the GATT
  server, outside the sources) as the parameter \<open>hrm\<close>.\<close>

definition blehr_hr_next :: "byte \<Rightarrow> byte" where
  "blehr_hr_next h = (if h + 1 = 160 then 90 else h + 1)"

definition blehr_tx_hrate :: "u16 \<Rightarrow> hs_env \<Rightarrow> blehr_state \<Rightarrow> bl_error + blehr_state" where
  "blehr_tx_hrate hrm env s =
     (if \<not> notify_state s then Inr ((blehr_tx_hrate_stop s)\<lparr>heartrate := 90\<rparr>)
      else
        (let hrm_pkt = [0x06, heartrate s];
             s1 = hs_emit (HS_NOTIFY (notify_conn_handle s) hrm hrm_pkt)
                    (s\<lparr>heartrate := blehr_hr_next (heartrate s)\<rparr>)
         in if rc_notify env \<noteq> 0 then Inl BL_ASSERT
            else Inr (blehr_tx_hrate_reset s1)))"

text \<open>\<open>blehr_gap_event\<close>. The subscribe branch keeps the source's two tests:
  the \<open>else if\<close> tests the negation of the \<open>if\<close>, so one of them always runs.\<close>

fun blehr_gap_event :: "u16 \<Rightarrow> hs_env \<Rightarrow> gap_event \<Rightarrow> blehr_state \<Rightarrow> blehr_state" where
  "blehr_gap_event hrm env (GAP_CONNECT status ch) s =
     (if status \<noteq> 0 then blehr_advertise env s else s)"
| "blehr_gap_event hrm env (GAP_DISCONNECT reason) s = blehr_advertise env s"
| "blehr_gap_event hrm env GAP_ADV_COMPLETE s = blehr_advertise env s"
| "blehr_gap_event hrm env (GAP_SUBSCRIBE ch attr cur) s =
     (if attr = hrm then
        blehr_tx_hrate_reset (s\<lparr>notify_state := cur, notify_conn_handle := ch\<rparr>)
      else if attr \<noteq> hrm then
        blehr_tx_hrate_stop (s\<lparr>notify_state := cur, notify_conn_handle := 0\<rparr>)
      else s)"
| "blehr_gap_event hrm env (GAP_MTU ch mtu) s = s"
| "blehr_gap_event hrm env (GAP_OTHER n) s = s"

text \<open>\<open>blehr_on_sync\<close>: set the random address; on success record the address type
  and advertise.\<close>

definition blehr_on_sync :: "hs_env \<Rightarrow> blehr_state \<Rightarrow> blehr_state" where
  "blehr_on_sync env s =
     (let s1 = hs_emit (HS_SET_RND blehr_rnd_addr) s in
      if rc_set_rnd env \<noteq> 0 then s1
      else blehr_advertise env (s1\<lparr>blehr_addr_type := BLE_OWN_ADDR_RANDOM\<rparr>))"

text \<open>\<open>ble_hr\<close>: run once; install the sync callback and the callout (disarmed),
  initialise the GATT server (its return code is overwritten), set the device
  name (asserted), start the host thread.\<close>

definition ble_hr :: "hs_env \<Rightarrow> blehr_state \<Rightarrow> bl_error + int \<times> blehr_state" where
  "ble_hr env s =
     (if init_flag s then Inr (0, s)
      else
        (let s1 = hs_emit (HS_NAME_SET device_name) (s\<lparr>init_flag := True, tx_timer_armed := False\<rparr>) in
         if rc_name_set env \<noteq> 0 then Inl BL_ASSERT
         else Inr (0, hs_emit HS_THREAD_STARTUP s1)))"

declare device_name_def [model_simps] BLE_HS_ADV_F_DISC_GEN_def [model_simps]
  BLE_HS_ADV_F_BREDR_UNSUP_def [model_simps] BLE_HS_ADV_TX_PWR_LVL_AUTO_def [model_simps]
  BLE_OWN_ADDR_RANDOM_def [model_simps] blehr_adv_fields_def [model_simps]
  blehr_rnd_addr_def [model_simps] blehr_init_def [model_simps] hs_emit_def [model_simps]
  blehr_advertise_def [model_simps] blehr_tx_hrate_stop_def [model_simps]
  blehr_tx_hrate_reset_def [model_simps] blehr_hr_next_def [model_simps]
  blehr_tx_hrate_def [model_simps] blehr_on_sync_def [model_simps] ble_hr_def [model_simps]

subsection \<open>The system: serialised callbacks\<close>

text \<open>
  One step is one callback run to completion in the host's event context: the
  shell command \<open>ble_hr\<close>, the sync callback once the host runs, a GAP event, or
  the expiry of the armed callout (which disarms it before \<open>blehr_tx_hrate\<close> runs).
  The host's return codes may differ at every step. A failed assertion stops the
  system, so it has no successor.
\<close>

inductive blehr_step :: "u16 \<Rightarrow> blehr_state \<Rightarrow> blehr_state \<Rightarrow> bool" for hrm where
  init: "ble_hr env s = Inr (rc, s') \<Longrightarrow> blehr_step hrm s s'"
| sync: "init_flag s \<Longrightarrow> blehr_step hrm s (blehr_on_sync env s)"
| gap: "init_flag s \<Longrightarrow> blehr_step hrm s (blehr_gap_event hrm env e s)"
| tick: "tx_timer_armed s \<Longrightarrow> blehr_tx_hrate hrm env (s\<lparr>tx_timer_armed := False\<rparr>) = Inr s' \<Longrightarrow>
    blehr_step hrm s s'"

inductive blehr_reachable :: "u16 \<Rightarrow> blehr_state \<Rightarrow> bool" for hrm where
  start: "blehr_reachable hrm blehr_init"
| step: "blehr_reachable hrm s \<Longrightarrow> blehr_step hrm s s' \<Longrightarrow> blehr_reachable hrm s'"

text \<open>A run as an explicit sequence of inputs: the \<open>ble_hr\<close> shell command, the
  sync callback, a GAP event, or a callout expiry. Before \<open>ble_hr\<close> has run there
  is no host to deliver callbacks, and an unarmed callout does not expire, so those
  inputs are no-ops; an assertion stops the run.\<close>

datatype blehr_input = IN_BLE_HR | IN_SYNC | IN_GAP gap_event | IN_TICK

fun blehr_input_step :: "u16 \<Rightarrow> hs_env \<Rightarrow> blehr_input \<Rightarrow> blehr_state \<Rightarrow> bl_error + blehr_state" where
  "blehr_input_step hrm env IN_BLE_HR s = map_sum id snd (ble_hr env s)"
| "blehr_input_step hrm env IN_SYNC s = Inr (if init_flag s then blehr_on_sync env s else s)"
| "blehr_input_step hrm env (IN_GAP e) s = Inr (if init_flag s then blehr_gap_event hrm env e s else s)"
| "blehr_input_step hrm env IN_TICK s =
     (if tx_timer_armed s then blehr_tx_hrate hrm env (s\<lparr>tx_timer_armed := False\<rparr>) else Inr s)"

fun blehr_run :: "u16 \<Rightarrow> hs_env \<Rightarrow> blehr_input list \<Rightarrow> blehr_state \<Rightarrow> bl_error + blehr_state" where
  "blehr_run hrm env [] s = Inr s"
| "blehr_run hrm env (i # is) s =
     (case blehr_input_step hrm env i s of Inl e \<Rightarrow> Inl e | Inr s' \<Rightarrow> blehr_run hrm env is s')"

text \<open>A host that accepts every call, for concrete runs.\<close>

definition hs_ok :: hs_env where
  "hs_ok = \<lparr>rc_adv_set_fields = 0, rc_adv_start = 0, rc_set_rnd = 0, rc_notify = 0, rc_name_set = 0\<rparr>"

subsection \<open>Specification predicates\<close>

text \<open>The simulated value stays in \<open>[90, 160)\<close>; a notification carries the
  monitored attribute and the payload \<open>[0x06, value]\<close> with the value in range.\<close>

definition hr_in_range :: "byte \<Rightarrow> bool" where
  "hr_in_range h \<longleftrightarrow> 90 \<le> unat h \<and> unat h < 160"

fun hs_is_notify :: "hs_call \<Rightarrow> bool" where
  "hs_is_notify (HS_NOTIFY ch attr p) = True"
| "hs_is_notify _ = False"

fun notify_ok :: "u16 \<Rightarrow> hs_call \<Rightarrow> bool" where
  "notify_ok hrm (HS_NOTIFY ch attr [c, v]) = (attr = hrm \<and> c = 0x06 \<and> hr_in_range v)"
| "notify_ok hrm (HS_NOTIFY ch attr p) = False"
| "notify_ok hrm _ = True"

definition blehr_inv :: "u16 \<Rightarrow> blehr_state \<Rightarrow> bool" where
  "blehr_inv hrm s \<longleftrightarrow> hr_in_range (heartrate s) \<and> list_all (notify_ok hrm) (hs_log s)"

text \<open>Consecutive expiries of the armed callout, each running \<open>blehr_tx_hrate\<close>;
  \<open>hr_sample h i\<close> is the value sent by the \<open>i\<close>-th of them from value \<open>h\<close>.\<close>

fun blehr_ticks :: "u16 \<Rightarrow> hs_env \<Rightarrow> nat \<Rightarrow> blehr_state \<Rightarrow> bl_error + blehr_state" where
  "blehr_ticks hrm env 0 s = Inr s"
| "blehr_ticks hrm env (Suc n) s =
     (case blehr_tx_hrate hrm env (s\<lparr>tx_timer_armed := False\<rparr>) of
        Inl e \<Rightarrow> Inl e
      | Inr s' \<Rightarrow> blehr_ticks hrm env n s')"

definition hr_sample :: "byte \<Rightarrow> nat \<Rightarrow> byte" where
  "hr_sample h i = of_nat (90 + (unat h - 90 + i) mod 70)"

inductive_cases blehr_stepE: "blehr_step hrm s s'"

declare hs_ok_def [model_simps]

subsection \<open>The simulated heart rate\<close>

lemma unat_byte_succ: "unat (h :: byte) < 255 \<Longrightarrow> unat (h + 1) = unat h + 1"
  by (simp add: unat_word_ariths)

lemma unat_blehr_hr_next:
  assumes "hr_in_range h"
  shows "unat (blehr_hr_next h) = 90 + (unat h - 90 + 1) mod 70"
proof -
  from assms have s: "unat (h + 1) = unat h + 1"
    by (intro unat_byte_succ) (simp add: hr_in_range_def)
  have eq: "(h + 1 = 160) = (unat h + 1 = 160)"
    by (simp add: word_unat_eq_iff s)
  show ?thesis
  proof (cases "unat h + 1 = 160")
    case True
    with eq show ?thesis by (simp add: blehr_hr_next_def)
  next
    case False
    with assms have lt: "unat h - 90 + 1 < 70" unfolding hr_in_range_def by arith
    from False eq s assms have "unat (blehr_hr_next h) = unat h + 1"
      by (simp add: blehr_hr_next_def)
    with lt assms show ?thesis by (simp add: hr_in_range_def)
  qed
qed

lemma hr_in_range_next: "hr_in_range h \<Longrightarrow> hr_in_range (blehr_hr_next h)"
  using unat_blehr_hr_next [of h] by (simp add: hr_in_range_def)


lemma hr_sample_0: "hr_in_range h \<Longrightarrow> hr_sample h 0 = h"
proof -
  assume "hr_in_range h"
  then have "unat h - 90 < 70" unfolding hr_in_range_def by arith
  with \<open>hr_in_range h\<close> have e: "90 + (unat h - 90 + 0) mod 70 = unat h"
    unfolding hr_in_range_def by simp
  show ?thesis unfolding hr_sample_def e by simp
qed

lemma hr_sample_next: "hr_in_range h \<Longrightarrow> hr_sample (blehr_hr_next h) i = hr_sample h (Suc i)"
proof -
  assume h: "hr_in_range h"
  have "unat (blehr_hr_next h) - 90 = (unat h - 90 + 1) mod 70"
    using unat_blehr_hr_next [OF h] by simp
  then have "(unat (blehr_hr_next h) - 90 + i) mod 70 = (unat h - 90 + Suc i) mod 70"
    by (simp add: mod_add_left_eq)
  then show ?thesis by (simp add: hr_sample_def)
qed

subsection \<open>Operations and the log\<close>

lemma blehr_advertise_fields [simp]:
  "heartrate (blehr_advertise env s) = heartrate s"
  "notify_state (blehr_advertise env s) = notify_state s"
  "notify_conn_handle (blehr_advertise env s) = notify_conn_handle s"
  "tx_timer_armed (blehr_advertise env s) = tx_timer_armed s"
  "init_flag (blehr_advertise env s) = init_flag s"
  "blehr_addr_type (blehr_advertise env s) = blehr_addr_type s"
  by (simp_all add: blehr_advertise_def hs_emit_def Let_def)

lemma blehr_advertise_log:
  "hs_log (blehr_advertise env s) = hs_log s @ HS_ADV_SET_FIELDS blehr_adv_fields #
     (if rc_adv_set_fields env \<noteq> 0 then [] else [HS_ADV_START (blehr_addr_type s)])"
  by (simp add: blehr_advertise_def hs_emit_def Let_def)

lemma blehr_step_inv:
  assumes "blehr_step hrm s s'" and "blehr_inv hrm s"
  shows "blehr_inv hrm s'"
  using assms
proof (induction rule: blehr_step.induct)
  case (init env s rc s')
  then show ?case
    by (auto simp: ble_hr_def hs_emit_def blehr_inv_def split: if_splits)
next
  case (sync s env)
  then show ?case
    by (simp add: blehr_on_sync_def hs_emit_def blehr_inv_def blehr_advertise_log Let_def)
next
  case (gap s env e)
  then show ?case
    by (cases e) (auto simp: blehr_inv_def blehr_advertise_log blehr_tx_hrate_reset_def
        blehr_tx_hrate_stop_def)
next
  case (tick s env s')
  then show ?case
    by (auto simp: blehr_tx_hrate_def blehr_inv_def hs_emit_def blehr_tx_hrate_reset_def
        blehr_tx_hrate_stop_def hr_in_range_next Let_def split: if_splits)
       (simp add: hr_in_range_def)
qed


lemma ble_hr_started:
  "ble_hr hs_ok blehr_init = Inr (0, \<lparr>notify_state = False, notify_conn_handle = 0, blehr_addr_type = 0, tx_timer_armed = False, heartrate = 90, init_flag = True, hs_log = [HS_NAME_SET device_name, HS_THREAD_STARTUP]\<rparr>)"
  by (simp add: model_simps)

lemma blehr_reachable_started: "blehr_reachable hrm \<lparr>notify_state = False, notify_conn_handle = 0, blehr_addr_type = 0, tx_timer_armed = False, heartrate = 90, init_flag = True, hs_log = [HS_NAME_SET device_name, HS_THREAD_STARTUP]\<rparr>"
  by (rule blehr_reachable.step [OF blehr_reachable.start blehr_step.init [OF ble_hr_started]])

lemma blehr_input_step_reachable:
  assumes "blehr_input_step hrm env i s = Inr s'" and "blehr_reachable hrm s"
  shows "blehr_reachable hrm s'"
proof (cases i)
  case IN_BLE_HR
  with assms obtain rc where "ble_hr env s = Inr (rc, s')"
    by (cases "ble_hr env s") auto
  with assms(2) show ?thesis by (blast intro: blehr_reachable.step blehr_step.init)
next
  case IN_SYNC
  with assms show ?thesis by (auto intro: blehr_reachable.step blehr_step.sync split: if_splits)
next
  case (IN_GAP e)
  with assms show ?thesis by (auto intro: blehr_reachable.step blehr_step.gap split: if_splits)
next
  case IN_TICK
  with assms show ?thesis by (auto intro: blehr_reachable.step blehr_step.tick split: if_splits)
qed

lemma blehr_run_reachable:
  "blehr_run hrm env is s = Inr s' \<Longrightarrow> blehr_reachable hrm s \<Longrightarrow> blehr_reachable hrm s'"
proof (induction "is" arbitrary: s)
  case Nil
  then show ?case by simp
next
  case (Cons i "is")
  then show ?case
    by (auto split: sum.splits intro: blehr_input_step_reachable)
qed

subsection \<open>Properties\<close>

text \<open>Claim C11: in every reachable state the simulated heart rate lies in
  \<open>[90, 160)\<close>, and every notification the peripheral has sent went to the
  monitored characteristic with the payload \<open>[0x06, value]\<close>, the value in that
  range. The invariant is kept by every callback (\<open>blehr_step_inv\<close>).\<close>

theorem blehr_reachable_inv: "blehr_reachable hrm s \<Longrightarrow> blehr_inv hrm s"
proof (induction rule: blehr_reachable.induct)
  case start
  then show ?case by (simp add: blehr_inv_def blehr_init_def hr_in_range_def)
next
  case (step s s')
  then show ?case by (blast intro: blehr_step_inv)
qed

theorem blehr_reachable_inv_witness:
  "blehr_reachable 7 \<lparr>notify_state = False, notify_conn_handle = 0, blehr_addr_type = 0, tx_timer_armed = False, heartrate = 90, init_flag = True, hs_log = [HS_NAME_SET device_name, HS_THREAD_STARTUP]\<rparr> \<and> blehr_inv 7 \<lparr>notify_state = False, notify_conn_handle = 0, blehr_addr_type = 0, tx_timer_armed = False, heartrate = 90, init_flag = True, hs_log = [HS_NAME_SET device_name, HS_THREAD_STARTUP]\<rparr>"
proof -
  have r: "blehr_reachable 7 \<lparr>notify_state = False, notify_conn_handle = 0, blehr_addr_type = 0, tx_timer_armed = False, heartrate = 90, init_flag = True, hs_log = [HS_NAME_SET device_name, HS_THREAD_STARTUP]\<rparr>" by (rule blehr_reachable_started)
  from blehr_reachable_inv [OF r] r show ?thesis by simp
qed

text \<open>Claim C12: sensor wrap-around. While subscribed and with notifications
  accepted, \<open>n\<close> consecutive timer expiries send exactly \<open>n\<close> notifications to
  the subscribed connection, the \<open>i\<close>-th carrying \<open>[0x06, 90 + (h - 90 + i) mod 70]\<close>
  for the starting value \<open>h\<close>: from 90, the values 90, 91, ..., 159 and then 90
  again on the 71st expiry.\<close>

theorem blehr_ticks_samples:
  assumes "notify_state s" and "rc_notify env = 0" and "hr_in_range (heartrate s)"
  shows "\<exists>s'. blehr_ticks hrm env n s = Inr s' \<and>
    hs_log s' = hs_log s @
      map (\<lambda>i. HS_NOTIFY (notify_conn_handle s) hrm [0x06, hr_sample (heartrate s) i]) [0..<n] \<and>
    heartrate s' = hr_sample (heartrate s) n \<and> notify_state s' \<and>
    notify_conn_handle s' = notify_conn_handle s"
  using assms
proof (induction n arbitrary: s)
  case 0
  then show ?case by (simp add: hr_sample_0)
next
  case (Suc n)
  let ?s1 = "s\<lparr>heartrate := blehr_hr_next (heartrate s),
      hs_log := hs_log s @ [HS_NOTIFY (notify_conn_handle s) hrm [0x06, heartrate s]],
      tx_timer_armed := True\<rparr>"
  have step: "blehr_ticks hrm env (Suc n) s = blehr_ticks hrm env n ?s1"
    using Suc.prems by (simp add: blehr_tx_hrate_def hs_emit_def blehr_tx_hrate_reset_def Let_def)
  have r1: "hr_in_range (heartrate ?s1)" using Suc.prems(3) by (simp add: hr_in_range_next)
  from Suc.IH [of ?s1] Suc.prems r1 obtain s' where s': "blehr_ticks hrm env n ?s1 = Inr s'"
    "hs_log s' = hs_log ?s1 @
      map (\<lambda>i. HS_NOTIFY (notify_conn_handle s) hrm [0x06, hr_sample (blehr_hr_next (heartrate s)) i]) [0..<n]"
    "heartrate s' = hr_sample (blehr_hr_next (heartrate s)) n" "notify_state s'"
    "notify_conn_handle s' = notify_conn_handle s"
    by auto
  have "map (\<lambda>i. HS_NOTIFY (notify_conn_handle s) hrm [0x06, hr_sample (heartrate s) i]) [0..<Suc n] =
    HS_NOTIFY (notify_conn_handle s) hrm [0x06, heartrate s] #
    map (\<lambda>i. HS_NOTIFY (notify_conn_handle s) hrm [0x06, hr_sample (blehr_hr_next (heartrate s)) i]) [0..<n]"
    using Suc.prems(3) by (simp add: upt_conv_Cons map_Suc_upt [symmetric] hr_sample_0 hr_sample_next comp_def
        del: upt_Suc)
  with step s' Suc.prems(3) show ?case by (simp add: hr_sample_next)
qed

theorem blehr_ticks_samples_witness:
  "(\<exists>s'. blehr_ticks 7 hs_ok 71 \<lparr>notify_state = True, notify_conn_handle = 1, blehr_addr_type = 1, tx_timer_armed = True, heartrate = 90, init_flag = True, hs_log = []\<rparr> = Inr s' \<and>
     hs_log s' = hs_log \<lparr>notify_state = True, notify_conn_handle = 1, blehr_addr_type = 1, tx_timer_armed = True, heartrate = 90, init_flag = True, hs_log = []\<rparr> @
       map (\<lambda>i. HS_NOTIFY (notify_conn_handle \<lparr>notify_state = True, notify_conn_handle = 1, blehr_addr_type = 1, tx_timer_armed = True, heartrate = 90, init_flag = True, hs_log = []\<rparr>) 7 [0x06, hr_sample (heartrate \<lparr>notify_state = True, notify_conn_handle = 1, blehr_addr_type = 1, tx_timer_armed = True, heartrate = 90, init_flag = True, hs_log = []\<rparr>) i]) [0..<71] \<and>
     heartrate s' = hr_sample (heartrate \<lparr>notify_state = True, notify_conn_handle = 1, blehr_addr_type = 1, tx_timer_armed = True, heartrate = 90, init_flag = True, hs_log = []\<rparr>) 71 \<and> notify_state s' \<and>
     notify_conn_handle s' = notify_conn_handle \<lparr>notify_state = True, notify_conn_handle = 1, blehr_addr_type = 1, tx_timer_armed = True, heartrate = 90, init_flag = True, hs_log = []\<rparr>) \<and>
   hr_sample 90 69 = 159 \<and> hr_sample 90 70 = 90"
proof -
  have "\<exists>s'. blehr_ticks 7 hs_ok 71 \<lparr>notify_state = True, notify_conn_handle = 1, blehr_addr_type = 1, tx_timer_armed = True, heartrate = 90, init_flag = True, hs_log = []\<rparr> = Inr s' \<and>
     hs_log s' = hs_log \<lparr>notify_state = True, notify_conn_handle = 1, blehr_addr_type = 1, tx_timer_armed = True, heartrate = 90, init_flag = True, hs_log = []\<rparr> @
       map (\<lambda>i. HS_NOTIFY (notify_conn_handle \<lparr>notify_state = True, notify_conn_handle = 1, blehr_addr_type = 1, tx_timer_armed = True, heartrate = 90, init_flag = True, hs_log = []\<rparr>) 7 [0x06, hr_sample (heartrate \<lparr>notify_state = True, notify_conn_handle = 1, blehr_addr_type = 1, tx_timer_armed = True, heartrate = 90, init_flag = True, hs_log = []\<rparr>) i]) [0..<71] \<and>
     heartrate s' = hr_sample (heartrate \<lparr>notify_state = True, notify_conn_handle = 1, blehr_addr_type = 1, tx_timer_armed = True, heartrate = 90, init_flag = True, hs_log = []\<rparr>) 71 \<and> notify_state s' \<and>
     notify_conn_handle s' = notify_conn_handle \<lparr>notify_state = True, notify_conn_handle = 1, blehr_addr_type = 1, tx_timer_armed = True, heartrate = 90, init_flag = True, hs_log = []\<rparr>"
    by (rule blehr_ticks_samples) (simp_all add: hs_ok_def hr_in_range_def)
  moreover have "hr_sample 90 69 = 159 \<and> hr_sample 90 70 = 90"
    by (simp add: hr_sample_def)
  ultimately show ?thesis by blast
qed

text \<open>Claim C13: re-advertise closure. With the advertisement data accepted, a
  failed connection, a disconnection and the end of an advertising window each
  append exactly one \<open>ble_gap_adv_set_fields\<close> and one \<open>ble_gap_adv_start\<close> call to
  what the peripheral asked of the host and change nothing else; a successful
  connection changes nothing.\<close>

theorem blehr_gap_event_readvertise:
  assumes "rc_adv_set_fields env = 0"
  shows "blehr_gap_event hrm env (GAP_CONNECT st ch) s =
           (if st = 0 then s
            else s\<lparr>hs_log := hs_log s @ [HS_ADV_SET_FIELDS blehr_adv_fields, HS_ADV_START (blehr_addr_type s)]\<rparr>) \<and>
         blehr_gap_event hrm env (GAP_DISCONNECT r) s =
           s\<lparr>hs_log := hs_log s @ [HS_ADV_SET_FIELDS blehr_adv_fields, HS_ADV_START (blehr_addr_type s)]\<rparr> \<and>
         blehr_gap_event hrm env GAP_ADV_COMPLETE s =
           s\<lparr>hs_log := hs_log s @ [HS_ADV_SET_FIELDS blehr_adv_fields, HS_ADV_START (blehr_addr_type s)]\<rparr>"
  using assms by (simp add: blehr_advertise_def hs_emit_def Let_def)

theorem blehr_gap_event_readvertise_witness:
  "blehr_gap_event 7 hs_ok (GAP_CONNECT 0x3e 1) \<lparr>notify_state = False, notify_conn_handle = 0, blehr_addr_type = 0, tx_timer_armed = False, heartrate = 90, init_flag = True, hs_log = [HS_NAME_SET device_name, HS_THREAD_STARTUP]\<rparr> =
     \<lparr>notify_state = False, notify_conn_handle = 0, blehr_addr_type = 0, tx_timer_armed = False, heartrate = 90, init_flag = True, hs_log = [HS_NAME_SET device_name, HS_THREAD_STARTUP]\<rparr>\<lparr>hs_log := hs_log \<lparr>notify_state = False, notify_conn_handle = 0, blehr_addr_type = 0, tx_timer_armed = False, heartrate = 90, init_flag = True, hs_log = [HS_NAME_SET device_name, HS_THREAD_STARTUP]\<rparr> @ [HS_ADV_SET_FIELDS blehr_adv_fields, HS_ADV_START 0]\<rparr>"
proof -
  have h: "rc_adv_set_fields hs_ok = 0" by (simp add: hs_ok_def)
  from blehr_gap_event_readvertise [OF h, of 7 "0x3e" 1 "\<lparr>notify_state = False, notify_conn_handle = 0, blehr_addr_type = 0, tx_timer_armed = False, heartrate = 90, init_flag = True, hs_log = [HS_NAME_SET device_name, HS_THREAD_STARTUP]\<rparr>"] show ?thesis by simp
qed

text \<open>Claim C14: no notification while unsubscribed. Whatever callback runs in a
  state where \<open>notify_state\<close> is false (initialisation, sync, any GAP event, or
  a stale timer expiry), it sends no notification: the stale expiry is detected,
  disarms the callout and resets the value instead.\<close>

theorem blehr_step_no_notify_unsubscribed:
  assumes "blehr_step hrm s s'" and "\<not> notify_state s"
  shows "filter hs_is_notify (hs_log s') = filter hs_is_notify (hs_log s)"
  using assms
proof (induction rule: blehr_step.induct)
  case (init env s rc s')
  then show ?case by (auto simp: ble_hr_def hs_emit_def split: if_splits)
next
  case (sync s env)
  then show ?case by (simp add: blehr_on_sync_def hs_emit_def blehr_advertise_log Let_def)
next
  case (gap s env e)
  then show ?case
    by (cases e) (auto simp: blehr_advertise_log blehr_tx_hrate_reset_def blehr_tx_hrate_stop_def)
next
  case (tick s env s')
  then show ?case by (auto simp: blehr_tx_hrate_def blehr_tx_hrate_stop_def)
qed


theorem blehr_step_no_notify_unsubscribed_witness:
  "blehr_step 7 ((\<lparr>notify_state = True, notify_conn_handle = 1, blehr_addr_type = 1, tx_timer_armed = True, heartrate = 90, init_flag = True, hs_log = []\<rparr>)\<lparr>notify_state := False\<rparr>)
     ((\<lparr>notify_state = True, notify_conn_handle = 1, blehr_addr_type = 1, tx_timer_armed = True, heartrate = 90, init_flag = True, hs_log = []\<rparr>)\<lparr>notify_state := False, tx_timer_armed := False\<rparr>) \<and>
   filter hs_is_notify (hs_log ((\<lparr>notify_state = True, notify_conn_handle = 1, blehr_addr_type = 1, tx_timer_armed = True, heartrate = 90, init_flag = True, hs_log = []\<rparr>)\<lparr>notify_state := False, tx_timer_armed := False\<rparr>)) =
   filter hs_is_notify (hs_log ((\<lparr>notify_state = True, notify_conn_handle = 1, blehr_addr_type = 1, tx_timer_armed = True, heartrate = 90, init_flag = True, hs_log = []\<rparr>)\<lparr>notify_state := False\<rparr>))"
proof -
  have st: "blehr_step 7 ((\<lparr>notify_state = True, notify_conn_handle = 1, blehr_addr_type = 1, tx_timer_armed = True, heartrate = 90, init_flag = True, hs_log = []\<rparr>)\<lparr>notify_state := False\<rparr>)
     ((\<lparr>notify_state = True, notify_conn_handle = 1, blehr_addr_type = 1, tx_timer_armed = True, heartrate = 90, init_flag = True, hs_log = []\<rparr>)\<lparr>notify_state := False, tx_timer_armed := False\<rparr>)"
    by (rule blehr_step.tick [where env = hs_ok]) (simp_all add: model_simps)
  from blehr_step_no_notify_unsubscribed [OF st] st show ?thesis by simp
qed

text \<open>Claim C15: the callout can be armed without a subscription. Unsubscribing
  from the monitored characteristic (\<open>cur_notify\<close> false) goes through
  \<open>blehr_tx_hrate_reset\<close>, which re-arms the timer: a reachable state has the timer
  armed while \<open>notify_state\<close> is false, contrary to the specification's gating
  invariant. The next expiry is then a stale one (claim C14).\<close>

theorem blehr_timer_armed_unsubscribed:
  "\<exists>s. blehr_reachable hrm s \<and> tx_timer_armed s \<and> \<not> notify_state s"
proof -
  let ?s1 = "\<lparr>notify_state = False, notify_conn_handle = 0, blehr_addr_type = 0, tx_timer_armed = False, heartrate = 90, init_flag = True, hs_log = [HS_NAME_SET device_name, HS_THREAD_STARTUP]\<rparr>"
  let ?s2 = "blehr_gap_event hrm hs_ok (GAP_SUBSCRIBE 1 hrm False) ?s1"
  have "blehr_reachable hrm ?s2"
    by (rule blehr_reachable.step [OF blehr_reachable_started]) (rule blehr_step.gap, simp)
  moreover have "tx_timer_armed ?s2 \<and> \<not> notify_state ?s2"
    by (simp add: blehr_tx_hrate_reset_def)
  ultimately show ?thesis by blast
qed

text \<open>Claim C16: a disconnection does not stop the stream. The disconnect branch
  only re-advertises: it leaves the subscription, the connection handle, the armed
  callout and the value as they were, so the next expiry still sends the current
  value to the old connection handle. The specification asks the disconnect to
  disarm the timer and reset the value; the code relies on the host to report the
  lost subscription separately.\<close>

theorem blehr_disconnect_keeps_notifying:
  fixes env env' :: hs_env
  assumes "notify_state s" and "tx_timer_armed s" and "rc_notify env = 0"
  shows "tx_timer_armed (blehr_gap_event hrm env' (GAP_DISCONNECT r) s) \<and>
    heartrate (blehr_gap_event hrm env' (GAP_DISCONNECT r) s) = heartrate s \<and>
    (\<exists>s'. blehr_step hrm (blehr_gap_event hrm env' (GAP_DISCONNECT r) s) s' \<and>
       hs_log s' = hs_log (blehr_gap_event hrm env' (GAP_DISCONNECT r) s) @
         [HS_NOTIFY (notify_conn_handle s) hrm [0x06, heartrate s]])"
proof -
  let ?d = "blehr_gap_event hrm env' (GAP_DISCONNECT r) s"
  obtain s' where t: "blehr_tx_hrate hrm env (?d\<lparr>tx_timer_armed := False\<rparr>) = Inr s'"
    and l: "hs_log s' = hs_log ?d @ [HS_NOTIFY (notify_conn_handle s) hrm [0x06, heartrate s]]"
    using assms by (simp add: blehr_tx_hrate_def hs_emit_def blehr_tx_hrate_reset_def Let_def)
  have "blehr_step hrm ?d s'"
    using assms t by (intro blehr_step.tick) simp_all
  with l assms show ?thesis by auto
qed

theorem blehr_disconnect_keeps_notifying_witness:
  "tx_timer_armed (blehr_gap_event 7 hs_ok (GAP_DISCONNECT 0x13) \<lparr>notify_state = True, notify_conn_handle = 1, blehr_addr_type = 1, tx_timer_armed = True, heartrate = 90, init_flag = True, hs_log = []\<rparr>) \<and>
   heartrate (blehr_gap_event 7 hs_ok (GAP_DISCONNECT 0x13) \<lparr>notify_state = True, notify_conn_handle = 1, blehr_addr_type = 1, tx_timer_armed = True, heartrate = 90, init_flag = True, hs_log = []\<rparr>) = 90 \<and>
   (\<exists>s'. blehr_step 7 (blehr_gap_event 7 hs_ok (GAP_DISCONNECT 0x13) \<lparr>notify_state = True, notify_conn_handle = 1, blehr_addr_type = 1, tx_timer_armed = True, heartrate = 90, init_flag = True, hs_log = []\<rparr>) s' \<and>
      hs_log s' = hs_log (blehr_gap_event 7 hs_ok (GAP_DISCONNECT 0x13) \<lparr>notify_state = True, notify_conn_handle = 1, blehr_addr_type = 1, tx_timer_armed = True, heartrate = 90, init_flag = True, hs_log = []\<rparr>) @ [HS_NOTIFY 1 7 [0x06, 90]])"
  using blehr_disconnect_keeps_notifying [of "\<lparr>notify_state = True, notify_conn_handle = 1, blehr_addr_type = 1, tx_timer_armed = True, heartrate = 90, init_flag = True, hs_log = []\<rparr>" hs_ok 7 hs_ok "0x13"]
  by (simp add: hs_ok_def)

text \<open>Claim C17: \<open>ble_hr\<close> is idempotent. Once it has succeeded, calling it again,
  whatever the host would answer, returns 0 and changes nothing.\<close>

theorem ble_hr_idempotent:
  "ble_hr env s = Inr (0, s') \<Longrightarrow> ble_hr env' s' = Inr (0, s')"
  by (auto simp: ble_hr_def hs_emit_def split: if_splits)

theorem ble_hr_idempotent_witness:
  "ble_hr hs_ok blehr_init = Inr (0, \<lparr>notify_state = False, notify_conn_handle = 0, blehr_addr_type = 0, tx_timer_armed = False, heartrate = 90, init_flag = True, hs_log = [HS_NAME_SET device_name, HS_THREAD_STARTUP]\<rparr>) \<and>
   ble_hr (hs_ok\<lparr>rc_name_set := 3\<rparr>) \<lparr>notify_state = False, notify_conn_handle = 0, blehr_addr_type = 0, tx_timer_armed = False, heartrate = 90, init_flag = True, hs_log = [HS_NAME_SET device_name, HS_THREAD_STARTUP]\<rparr> = Inr (0, \<lparr>notify_state = False, notify_conn_handle = 0, blehr_addr_type = 0, tx_timer_armed = False, heartrate = 90, init_flag = True, hs_log = [HS_NAME_SET device_name, HS_THREAD_STARTUP]\<rparr>)"
  using ble_hr_idempotent [OF ble_hr_started, of "hs_ok\<lparr>rc_name_set := 3\<rparr>"] ble_hr_started
  by simp

text \<open>Claim C22: \<open>notify_state\<close> can be true with the callout stopped. A subscribe
  event for any other characteristic copies its \<open>cur_notify\<close> into
  \<open>notify_state\<close>, clears the connection handle and stops the callout, so a
  reachable state has \<open>notify_state\<close> set, no armed timer and handle 0. The
  specification treats such an event as leaving the peripheral unsubscribed.\<close>

theorem blehr_subscribed_timer_stopped:
  "\<exists>s. blehr_reachable hrm s \<and> notify_state s \<and> \<not> tx_timer_armed s \<and> notify_conn_handle s = 0"
proof -
  let ?s1 = "\<lparr>notify_state = False, notify_conn_handle = 0, blehr_addr_type = 0, tx_timer_armed = False, heartrate = 90, init_flag = True, hs_log = [HS_NAME_SET device_name, HS_THREAD_STARTUP]\<rparr>"
  let ?s2 = "blehr_gap_event hrm hs_ok (GAP_SUBSCRIBE 1 (hrm + 1) True) ?s1"
  have "blehr_reachable hrm ?s2"
    by (rule blehr_reachable.step [OF blehr_reachable_started]) (rule blehr_step.gap, simp)
  moreover have "notify_state ?s2 \<and> \<not> tx_timer_armed ?s2 \<and> notify_conn_handle ?s2 = 0"
    by (simp add: blehr_tx_hrate_stop_def)
  ultimately show ?thesis by blast
qed

end
