(* ===== verification/Blehr_Sessions.thy ===== *)
theory Blehr_Sessions
  imports Blehr
begin

text \<open>
  Sessions of the heart-rate peripheral against the specification's error
  handling and its reset rule: what a failed notification does to the running
  system, and what the value sequence does across an unsubscribe, a disconnect and
  a new subscription that arrive between two expiries of the callout.
\<close>

subsection \<open>A failed notification\<close>

text \<open>Claim C27: a failed notification stops the peripheral. When the callout
  expires while subscribed and \<open>ble_gattc_notify_custom\<close> fails, the callback hits
  \<open>assert(rc == 0)\<close>: the tick has no successor state and the run stops there,
  whatever inputs follow. The specification (section 7) asks for the failure to
  be logged and the state machine left unchanged.\<close>

theorem blehr_notify_failure_asserts:
  assumes "tx_timer_armed s" and "notify_state s" and "rc_notify env \<noteq> 0"
  shows "blehr_run hrm env (IN_TICK # ins) s = Inl BL_ASSERT \<and>
         (\<forall>s'. blehr_tx_hrate hrm env (s\<lparr>tx_timer_armed := False\<rparr>) \<noteq> Inr s')"
  using assms by (simp add: blehr_tx_hrate_def Let_def)

theorem blehr_notify_failure_asserts_witness:
  "blehr_run 7 \<lparr>rc_adv_set_fields = 0, rc_adv_start = 0, rc_set_rnd = 0, rc_notify = 6, rc_name_set = 0\<rparr>
     [IN_TICK, IN_GAP (GAP_DISCONNECT 0x13)]
     \<lparr>notify_state = True, notify_conn_handle = 1, blehr_addr_type = 1, tx_timer_armed = True,
      heartrate = 90, init_flag = True, hs_log = []\<rparr> = Inl BL_ASSERT"
proof -
  have a: "tx_timer_armed \<lparr>notify_state = True, notify_conn_handle = 1, blehr_addr_type = 1,
      tx_timer_armed = True, heartrate = 90, init_flag = True, hs_log = []\<rparr>" by simp
  have b: "notify_state \<lparr>notify_state = True, notify_conn_handle = 1, blehr_addr_type = 1,
      tx_timer_armed = True, heartrate = 90, init_flag = True, hs_log = []\<rparr>" by simp
  have c: "rc_notify \<lparr>rc_adv_set_fields = 0, rc_adv_start = 0, rc_set_rnd = 0, rc_notify = 6,
      rc_name_set = 0\<rparr> \<noteq> 0" by simp
  from blehr_notify_failure_asserts [OF a b c, of 7 "[IN_GAP (GAP_DISCONNECT 0x13)]"] show ?thesis
    by simp
qed

subsection \<open>Resubscribing between two expiries\<close>

text \<open>Claim C28: a new session does not restart the value sequence. The value is
  reset to 90 only by an expiry that finds \<open>notify_state\<close> false; unsubscribe
  re-arms the callout rather than resetting the value, and disconnect touches
  neither. So when an unsubscribe, a disconnect, a new connection and a new
  subscription all arrive before the callout expires, the first notification of
  the new session carries the old session's next value, not 90 as the
  specification's reset rule requires.\<close>

theorem blehr_resubscribe_keeps_value:
  assumes "init_flag s" and "rc_notify env = 0"
  shows "\<exists>s'. blehr_run hrm env
      [IN_GAP (GAP_SUBSCRIBE ch0 hrm False), IN_GAP (GAP_DISCONNECT r), IN_GAP (GAP_CONNECT 0 ch),
       IN_GAP (GAP_SUBSCRIBE ch hrm True), IN_TICK] s = Inr s' \<and>
    last (hs_log s') = HS_NOTIFY ch hrm [0x06, heartrate s] \<and>
    heartrate s' = blehr_hr_next (heartrate s) \<and> tx_timer_armed s' \<and> notify_state s'"
  using assms
  by (simp add: blehr_tx_hrate_def blehr_tx_hrate_reset_def blehr_advertise_def hs_emit_def Let_def)

theorem blehr_resubscribe_keeps_value_witness:
  "\<exists>s'. blehr_run 7 hs_ok
      [IN_GAP (GAP_SUBSCRIBE 1 7 False), IN_GAP (GAP_DISCONNECT 0x13), IN_GAP (GAP_CONNECT 0 2),
       IN_GAP (GAP_SUBSCRIBE 2 7 True), IN_TICK]
      \<lparr>notify_state = True, notify_conn_handle = 1, blehr_addr_type = 1, tx_timer_armed = True,
       heartrate = 105, init_flag = True, hs_log = []\<rparr> = Inr s' \<and>
    last (hs_log s') = HS_NOTIFY 2 7 [0x06, 105] \<and>
    heartrate s' = blehr_hr_next 105 \<and> tx_timer_armed s' \<and> notify_state s'"
proof -
  have a: "init_flag \<lparr>notify_state = True, notify_conn_handle = 1, blehr_addr_type = 1,
      tx_timer_armed = True, heartrate = 105, init_flag = True, hs_log = []\<rparr>" by simp
  have b: "rc_notify hs_ok = 0" by (simp add: hs_ok_def)
  from blehr_resubscribe_keeps_value [OF a b, of 7 1 "0x13" 2] show ?thesis by simp
qed

end
