(* ===== verification/Host_Gap.thy ===== *)
theory Host_Gap
  imports Blehr
begin

text \<open>
  The peripheral together with the NimBLE host that drives it. The host is not
  among the sources; its GAP and GATT side is modelled from the specification's
  interface (section 6): it holds the link state (idle, advertising, connected
  with the characteristics whose notifications the peer enabled), it delivers
  GAP events only in the link states where they can occur, it starts advertising
  when \<open>ble_gap_adv_start\<close> succeeds, and when a connection drops it first reports
  the end of every subscription of that connection (\<open>cur_notify = 0\<close>) and then the
  disconnection, as NimBLE's GATT server does when a connection breaks.
  \<open>sys_exec\<close> is one event of this system, \<open>sys_run\<close> a sequence of them.

  The specification's transition table (section 4.3) is \<open>spec_step\<close> on
  \<open>spec_state\<close>; \<open>sys_abs\<close> maps a system state to it (the link state, and for a
  connection the peripheral's \<open>notify_state\<close>), \<open>sys_event_spec\<close> maps a system
  event to a table event or to none (a step that must leave the abstract state
  unchanged).
\<close>

subsection \<open>The host's link state\<close>

datatype gap_link = LINK_IDLE | LINK_ADVERTISING | LINK_CONNECTED u16 "u16 list"

record sys_state =
  sys_link :: gap_link
  sys_app :: blehr_state

definition sys_init :: sys_state where
  "sys_init = \<lparr>sys_link = LINK_IDLE, sys_app = blehr_init\<rparr>"

fun hs_is_adv_start :: "hs_call \<Rightarrow> bool" where
  "hs_is_adv_start (HS_ADV_START a) = True"
| "hs_is_adv_start _ = False"

text \<open>The link after a callback of the peripheral: advertising if the callback
  called \<open>ble_gap_adv_start\<close> and the host accepted it, otherwise \<open>l\<close>.\<close>

definition host_adv_after :: "hs_env \<Rightarrow> gap_link \<Rightarrow> blehr_state \<Rightarrow> blehr_state \<Rightarrow> gap_link" where
  "host_adv_after env l a a' =
     (if list_ex hs_is_adv_start (drop (length (hs_log a)) (hs_log a')) \<and> rc_adv_start env = 0
      then LINK_ADVERTISING else l)"

text \<open>The peer's subscriptions after a subscribe event on \<open>attr\<close>.\<close>

definition subs_update :: "u16 \<Rightarrow> bool \<Rightarrow> u16 list \<Rightarrow> u16 list" where
  "subs_update attr cur subs =
     (if cur then (if attr \<in> set subs then subs else subs @ [attr]) else removeAll attr subs)"

text \<open>The end of every subscription of connection \<open>ch\<close>, reported in order.\<close>

definition subs_terminate :: "u16 \<Rightarrow> hs_env \<Rightarrow> u16 \<Rightarrow> u16 list \<Rightarrow> blehr_state \<Rightarrow> blehr_state" where
  "subs_terminate hrm env ch subs a =
     fold (\<lambda>attr. blehr_gap_event hrm env (GAP_SUBSCRIBE ch attr False)) subs a"

datatype sys_event =
    SYS_BLE_HR | SYS_SYNC | SYS_CONNECT int u16 | SYS_ADV_COMPLETE | SYS_DISCONNECT int
  | SYS_SUBSCRIBE u16 bool | SYS_MTU u16 | SYS_TICK

text \<open>One event of the system; \<open>None\<close> when the event cannot occur in this state
  or the peripheral's callback fails an assertion.\<close>

fun sys_exec :: "u16 \<Rightarrow> hs_env \<Rightarrow> sys_event \<Rightarrow> sys_state \<Rightarrow> sys_state option" where
  "sys_exec hrm env SYS_BLE_HR S =
     (case ble_hr env (sys_app S) of
        Inl e \<Rightarrow> None
      | Inr (rc, a') \<Rightarrow> Some (S\<lparr>sys_app := a'\<rparr>))"
| "sys_exec hrm env SYS_SYNC S =
     (if init_flag (sys_app S) \<and> sys_link S = LINK_IDLE then
        (let a' = blehr_on_sync env (sys_app S)
         in Some \<lparr>sys_link = host_adv_after env LINK_IDLE (sys_app S) a', sys_app = a'\<rparr>)
      else None)"
| "sys_exec hrm env (SYS_CONNECT st ch) S =
     (if sys_link S = LINK_ADVERTISING then
        (let a' = blehr_gap_event hrm env (GAP_CONNECT st ch) (sys_app S)
         in if st = 0 then Some \<lparr>sys_link = LINK_CONNECTED ch [], sys_app = a'\<rparr>
            else Some \<lparr>sys_link = host_adv_after env LINK_IDLE (sys_app S) a', sys_app = a'\<rparr>)
      else None)"
| "sys_exec hrm env SYS_ADV_COMPLETE S =
     (if sys_link S = LINK_ADVERTISING then
        (let a' = blehr_gap_event hrm env GAP_ADV_COMPLETE (sys_app S)
         in Some \<lparr>sys_link = host_adv_after env LINK_IDLE (sys_app S) a', sys_app = a'\<rparr>)
      else None)"
| "sys_exec hrm env (SYS_DISCONNECT r) S =
     (case sys_link S of
        LINK_CONNECTED ch subs \<Rightarrow>
          (let a1 = subs_terminate hrm env ch subs (sys_app S);
               a' = blehr_gap_event hrm env (GAP_DISCONNECT r) a1
           in Some \<lparr>sys_link = host_adv_after env LINK_IDLE a1 a', sys_app = a'\<rparr>)
      | _ \<Rightarrow> None)"
| "sys_exec hrm env (SYS_SUBSCRIBE attr cur) S =
     (case sys_link S of
        LINK_CONNECTED ch subs \<Rightarrow>
          Some \<lparr>sys_link = LINK_CONNECTED ch (subs_update attr cur subs),
                sys_app = blehr_gap_event hrm env (GAP_SUBSCRIBE ch attr cur) (sys_app S)\<rparr>
      | _ \<Rightarrow> None)"
| "sys_exec hrm env (SYS_MTU mtu) S =
     (case sys_link S of
        LINK_CONNECTED ch subs \<Rightarrow> Some (S\<lparr>sys_app := blehr_gap_event hrm env (GAP_MTU ch mtu) (sys_app S)\<rparr>)
      | _ \<Rightarrow> None)"
| "sys_exec hrm env SYS_TICK S =
     (if tx_timer_armed (sys_app S) then
        (case blehr_tx_hrate hrm env ((sys_app S)\<lparr>tx_timer_armed := False\<rparr>) of
           Inl e \<Rightarrow> None
         | Inr a' \<Rightarrow> Some (S\<lparr>sys_app := a'\<rparr>))
      else None)"

fun sys_run :: "u16 \<Rightarrow> hs_env \<Rightarrow> sys_event list \<Rightarrow> sys_state \<Rightarrow> sys_state option" where
  "sys_run hrm env [] S = Some S"
| "sys_run hrm env (e # es) S =
     (case sys_exec hrm env e S of None \<Rightarrow> None | Some S' \<Rightarrow> sys_run hrm env es S')"

subsection \<open>The specification's state machine\<close>

text \<open>Section 4.3: \<open>Idle\<close>, \<open>Advertising\<close>, \<open>Connected(subscribed?)\<close> and the table's
  events. A repeated subscribe or unsubscribe of the monitored characteristic
  lands in the same state as the first.\<close>

datatype spec_state = SP_IDLE | SP_ADVERTISING | SP_CONNECTED bool

datatype spec_event =
    SP_START | SP_CONNECT_OK | SP_CONNECT_FAIL | SP_ADV_DONE
  | SP_SUBSCRIBE | SP_UNSUBSCRIBE | SP_OTHER_CHR | SP_DISCONNECT | SP_TICK

fun spec_step :: "spec_event \<Rightarrow> spec_state \<Rightarrow> spec_state option" where
  "spec_step SP_START SP_IDLE = Some SP_ADVERTISING"
| "spec_step SP_CONNECT_OK SP_ADVERTISING = Some (SP_CONNECTED False)"
| "spec_step SP_CONNECT_FAIL SP_ADVERTISING = Some SP_ADVERTISING"
| "spec_step SP_ADV_DONE SP_ADVERTISING = Some SP_ADVERTISING"
| "spec_step SP_SUBSCRIBE (SP_CONNECTED b) = Some (SP_CONNECTED True)"
| "spec_step SP_UNSUBSCRIBE (SP_CONNECTED b) = Some (SP_CONNECTED False)"
| "spec_step SP_OTHER_CHR (SP_CONNECTED b) = Some (SP_CONNECTED False)"
| "spec_step SP_DISCONNECT (SP_CONNECTED b) = Some SP_ADVERTISING"
| "spec_step SP_TICK (SP_CONNECTED True) = Some (SP_CONNECTED True)"
| "spec_step e q = None"

fun spec_run :: "spec_event list \<Rightarrow> spec_state \<Rightarrow> spec_state option" where
  "spec_run [] q = Some q"
| "spec_run (e # es) q = (case spec_step e q of None \<Rightarrow> None | Some q' \<Rightarrow> spec_run es q')"

subsection \<open>Abstraction, event mediator, invariant\<close>

fun link_abs :: "gap_link \<Rightarrow> bool \<Rightarrow> spec_state" where
  "link_abs LINK_IDLE n = SP_IDLE"
| "link_abs LINK_ADVERTISING n = SP_ADVERTISING"
| "link_abs (LINK_CONNECTED ch subs) n = SP_CONNECTED n"

definition sys_abs :: "sys_state \<Rightarrow> spec_state" where
  "sys_abs S = link_abs (sys_link S) (notify_state (sys_app S))"

text \<open>The table event a system event stands for; shell command, MTU update and
  callout expiry stand for none (an expiry's table transition is a self-loop).\<close>

fun sys_event_spec :: "u16 \<Rightarrow> sys_event \<Rightarrow> spec_event option" where
  "sys_event_spec hrm SYS_SYNC = Some SP_START"
| "sys_event_spec hrm (SYS_CONNECT st ch) = Some (if st = 0 then SP_CONNECT_OK else SP_CONNECT_FAIL)"
| "sys_event_spec hrm SYS_ADV_COMPLETE = Some SP_ADV_DONE"
| "sys_event_spec hrm (SYS_DISCONNECT r) = Some SP_DISCONNECT"
| "sys_event_spec hrm (SYS_SUBSCRIBE attr cur) =
     Some (if attr = hrm then (if cur then SP_SUBSCRIBE else SP_UNSUBSCRIBE) else SP_OTHER_CHR)"
| "sys_event_spec hrm e = None"

definition spec_events :: "u16 \<Rightarrow> sys_event list \<Rightarrow> spec_event list" where
  "spec_events hrm es = concat (map (\<lambda>e. opt_list (sys_event_spec hrm e)) es)"

text \<open>The events the refinement covers: all but a subscription to another
  characteristic, which the peripheral takes for a subscription to the monitored
  one (claim C22).\<close>

fun sys_event_ok :: "u16 \<Rightarrow> sys_event \<Rightarrow> bool" where
  "sys_event_ok hrm (SYS_SUBSCRIBE attr cur) = (attr = hrm \<or> \<not> cur)"
| "sys_event_ok hrm e = True"

text \<open>A host that accepts the random address and the advertising calls.\<close>

definition hs_adv_ok :: "hs_env \<Rightarrow> bool" where
  "hs_adv_ok env \<longleftrightarrow> rc_set_rnd env = 0 \<and> rc_adv_set_fields env = 0 \<and> rc_adv_start env = 0"

text \<open>The peripheral notifies only for a live connection on which the peer
  enabled the monitored characteristic, and to that connection's handle.\<close>

fun link_inv :: "u16 \<Rightarrow> gap_link \<Rightarrow> blehr_state \<Rightarrow> bool" where
  "link_inv hrm (LINK_CONNECTED ch subs) a =
     (notify_state a \<longrightarrow> hrm \<in> set subs \<and> notify_conn_handle a = ch)"
| "link_inv hrm l a = (\<not> notify_state a)"

definition sys_inv :: "u16 \<Rightarrow> sys_state \<Rightarrow> bool" where
  "sys_inv hrm S \<longleftrightarrow> link_inv hrm (sys_link S) (sys_app S)"

declare sys_init_def [model_simps] host_adv_after_def [model_simps] subs_update_def [model_simps]
  subs_terminate_def [model_simps] sys_abs_def [model_simps] spec_events_def [model_simps]

subsection \<open>What the peripheral's callbacks do to the fields the host sees\<close>

lemma blehr_gap_event_notify_fields [simp]:
  "notify_state (blehr_gap_event hrm env (GAP_CONNECT st c) a) = notify_state a"
  "notify_state (blehr_gap_event hrm env (GAP_DISCONNECT r) a) = notify_state a"
  "notify_state (blehr_gap_event hrm env GAP_ADV_COMPLETE a) = notify_state a"
  by simp_all

lemma subs_terminate_fields:
  "hs_log (subs_terminate hrm env ch subs a) = hs_log a"
  "subs \<noteq> [] \<Longrightarrow> \<not> notify_state (subs_terminate hrm env ch subs a)"
  "subs = [] \<Longrightarrow> subs_terminate hrm env ch subs a = a"
proof -
  show "hs_log (subs_terminate hrm env ch subs a) = hs_log a"
    unfolding subs_terminate_def
    by (induction subs arbitrary: a) (simp_all add: blehr_tx_hrate_reset_def blehr_tx_hrate_stop_def)
  show "subs \<noteq> [] \<Longrightarrow> \<not> notify_state (subs_terminate hrm env ch subs a)"
    unfolding subs_terminate_def
  proof (induction subs arbitrary: a)
    case Nil
    then show ?case by simp
  next
    case (Cons x xs)
    then show ?case by (cases xs) (simp_all add: blehr_tx_hrate_reset_def blehr_tx_hrate_stop_def)
  qed
  show "subs = [] \<Longrightarrow> subs_terminate hrm env ch subs a = a"
    by (simp add: subs_terminate_def)
qed

lemma blehr_on_sync_fields [simp]:
  "notify_state (blehr_on_sync env a) = notify_state a"
  "notify_conn_handle (blehr_on_sync env a) = notify_conn_handle a"
  by (simp_all add: blehr_on_sync_def hs_emit_def Let_def)

lemma blehr_on_sync_no_notify:
  "filter hs_is_notify (hs_log (blehr_on_sync env a)) = filter hs_is_notify (hs_log a)"
  by (simp add: blehr_on_sync_def hs_emit_def blehr_advertise_log Let_def)

lemma ble_hr_fields:
  assumes "ble_hr env a = Inr (rc, a')"
  shows "notify_state a' = notify_state a" "notify_conn_handle a' = notify_conn_handle a"
    "filter hs_is_notify (hs_log a') = filter hs_is_notify (hs_log a)"
  using assms by (auto simp: ble_hr_def hs_emit_def split: if_splits)

lemma blehr_tx_hrate_fields:
  assumes "blehr_tx_hrate hrm env a = Inr a'"
  shows "notify_state a' = notify_state a" "notify_conn_handle a' = notify_conn_handle a"
    "filter hs_is_notify (hs_log a') =
       filter hs_is_notify (hs_log a) @
         (if notify_state a then [HS_NOTIFY (notify_conn_handle a) hrm [0x06, heartrate a]] else [])"
  using assms
  by (auto simp: blehr_tx_hrate_def blehr_tx_hrate_stop_def blehr_tx_hrate_reset_def hs_emit_def
      Let_def split: if_splits)

lemma host_adv_after_advertise:
  "hs_adv_ok env \<Longrightarrow> host_adv_after env l a (blehr_advertise env a) = LINK_ADVERTISING"
  by (simp add: host_adv_after_def blehr_advertise_log hs_adv_ok_def)

lemma host_adv_after_on_sync:
  "hs_adv_ok env \<Longrightarrow> host_adv_after env l a (blehr_on_sync env a) = LINK_ADVERTISING"
  by (simp add: host_adv_after_def blehr_on_sync_def hs_emit_def blehr_advertise_log
      hs_adv_ok_def Let_def)

lemma spec_run_append:
  "spec_run (xs @ ys) q = (case spec_run xs q of None \<Rightarrow> None | Some q' \<Rightarrow> spec_run ys q')"
  by (induction xs arbitrary: q) (simp_all split: option.splits)

subsection \<open>One event simulates the table\<close>

text \<open>What a system step must do for the specification: keep the invariant and
  either take the table transition of its event or, for an event with none, leave
  the abstract state unchanged.\<close>

definition sim_step :: "u16 \<Rightarrow> sys_event \<Rightarrow> sys_state \<Rightarrow> sys_state \<Rightarrow> bool" where
  "sim_step hrm e S S' \<longleftrightarrow>
     sys_inv hrm S' \<and>
     (case sys_event_spec hrm e of
        None \<Rightarrow> sys_abs S' = sys_abs S
      | Some ev \<Rightarrow> spec_step ev (sys_abs S) = Some (sys_abs S'))"

lemma sys_exec_subscribe_sim:
  assumes "sys_inv hrm S" and "attr = hrm \<or> \<not> cur"
    and "sys_exec hrm env (SYS_SUBSCRIBE attr cur) S = Some S'"
  shows "sim_step hrm (SYS_SUBSCRIBE attr cur) S S'"
proof -
  from assms(3) obtain ch subs where l: "sys_link S = LINK_CONNECTED ch subs"
    and S': "S' = \<lparr>sys_link = LINK_CONNECTED ch (subs_update attr cur subs),
                  sys_app = blehr_gap_event hrm env (GAP_SUBSCRIBE ch attr cur) (sys_app S)\<rparr>"
    by (auto split: gap_link.splits)
  with assms(2) show ?thesis
    by (auto simp: sim_step_def sys_inv_def sys_abs_def subs_update_def blehr_tx_hrate_reset_def
        blehr_tx_hrate_stop_def)
qed

lemma sys_exec_disconnect_sim:
  assumes "sys_inv hrm S" and "hs_adv_ok env"
    and "sys_exec hrm env (SYS_DISCONNECT r) S = Some S'"
  shows "sim_step hrm (SYS_DISCONNECT r) S S'"
proof -
  from assms(3) obtain ch subs where l: "sys_link S = LINK_CONNECTED ch subs"
    by (auto split: gap_link.splits)
  let ?a1 = "subs_terminate hrm env ch subs (sys_app S)"
  have off: "\<not> notify_state ?a1"
  proof (cases "subs = []")
    case True
    with assms(1) l show ?thesis by (simp add: sys_inv_def subs_terminate_fields(3))
  next
    case False
    then show ?thesis by (rule subs_terminate_fields(2))
  qed
  from assms(3) l have S': "S' = \<lparr>sys_link = host_adv_after env LINK_IDLE ?a1 (blehr_advertise env ?a1),
      sys_app = blehr_advertise env ?a1\<rparr>"
    by (simp add: Let_def)
  with off host_adv_after_advertise [OF assms(2)] l show ?thesis
    by (simp add: sim_step_def sys_inv_def sys_abs_def)
qed

lemma sys_exec_sim:
  assumes "sys_inv hrm S" and "hs_adv_ok env" and "sys_event_ok hrm e"
    and "sys_exec hrm env e S = Some S'"
  shows "sim_step hrm e S S'"
proof (cases e)
  case SYS_BLE_HR
  with assms(4) obtain rc a' where "ble_hr env (sys_app S) = Inr (rc, a')" "S' = S\<lparr>sys_app := a'\<rparr>"
    by (auto split: sum.splits)
  with assms(1) SYS_BLE_HR show ?thesis
    by (cases "sys_link S") (auto simp: sim_step_def sys_inv_def sys_abs_def dest: ble_hr_fields)
next
  case SYS_SYNC
  with assms(4) have "sys_link S = LINK_IDLE" and
    "S' = \<lparr>sys_link = host_adv_after env LINK_IDLE (sys_app S) (blehr_on_sync env (sys_app S)),
           sys_app = blehr_on_sync env (sys_app S)\<rparr>"
    by (auto simp: Let_def split: if_splits)
  with assms(1,2) SYS_SYNC show ?thesis
    by (simp add: sim_step_def sys_inv_def sys_abs_def host_adv_after_on_sync)
next
  case (SYS_CONNECT st ch)
  with assms(4) have l: "sys_link S = LINK_ADVERTISING" by (auto split: if_splits)
  show ?thesis
  proof (cases "st = 0")
    case True
    with assms(1,4) l SYS_CONNECT show ?thesis by (auto simp: sim_step_def sys_inv_def sys_abs_def)
  next
    case False
    with assms(1,2,4) l SYS_CONNECT show ?thesis
      by (auto simp: sim_step_def sys_inv_def sys_abs_def host_adv_after_advertise)
  qed
next
  case SYS_ADV_COMPLETE
  with assms(1,2,4) show ?thesis
    by (auto simp: sim_step_def sys_inv_def sys_abs_def host_adv_after_advertise split: if_splits)
next
  case (SYS_DISCONNECT r)
  with assms(1,2,4) show ?thesis by (simp add: sys_exec_disconnect_sim)
next
  case (SYS_SUBSCRIBE attr cur)
  with assms(1,3,4) show ?thesis by (simp add: sys_exec_subscribe_sim)
next
  case (SYS_MTU mtu)
  with assms(1,4) show ?thesis
    by (auto simp: sim_step_def sys_inv_def sys_abs_def split: gap_link.splits)
next
  case SYS_TICK
  with assms(4) obtain a' where "tx_timer_armed (sys_app S)"
    "blehr_tx_hrate hrm env ((sys_app S)\<lparr>tx_timer_armed := False\<rparr>) = Inr a'" "S' = S\<lparr>sys_app := a'\<rparr>"
    by (auto split: if_splits sum.splits)
  with assms(1) SYS_TICK show ?thesis
    by (cases "sys_link S") (auto simp: sim_step_def sys_inv_def sys_abs_def dest: blehr_tx_hrate_fields)
qed

subsection \<open>Runs\<close>

lemma sys_inv_init [simp]: "sys_inv hrm sys_init"
  by (simp add: sys_inv_def sys_init_def blehr_init_def)

lemma sys_abs_init [simp]: "sys_abs sys_init = SP_IDLE"
  by (simp add: sys_abs_def sys_init_def)

lemma sys_run_sim:
  assumes "sys_inv hrm S" and "hs_adv_ok env" and "list_all (sys_event_ok hrm) es"
    and "sys_run hrm env es S = Some S'"
  shows "sys_inv hrm S' \<and> spec_run (spec_events hrm es) (sys_abs S) = Some (sys_abs S')"
  using assms
proof (induction es arbitrary: S)
  case Nil
  then show ?case by (simp add: spec_events_def)
next
  case (Cons e es)
  from Cons.prems(4) obtain S1 where e: "sys_exec hrm env e S = Some S1"
    and r: "sys_run hrm env es S1 = Some S'"
    by (auto split: option.splits)
  from Cons.prems(3) have ok: "sys_event_ok hrm e" "list_all (sys_event_ok hrm) es" by simp_all
  from sys_exec_sim [OF Cons.prems(1,2) ok(1) e] have sim: "sim_step hrm e S S1" .
  then have inv1: "sys_inv hrm S1" by (simp add: sim_step_def)
  from Cons.IH [OF inv1 Cons.prems(2) ok(2) r] have ih:
    "sys_inv hrm S'" "spec_run (spec_events hrm es) (sys_abs S1) = Some (sys_abs S')" by simp_all
  from sim have "spec_run (opt_list (sys_event_spec hrm e)) (sys_abs S) = Some (sys_abs S1)"
    by (cases "sys_event_spec hrm e") (simp_all add: sim_step_def)
  with ih show ?case by (simp add: spec_events_def spec_run_append)
qed

lemma sys_exec_notify:
  assumes "sys_inv hrm S" and "sys_exec hrm env e S = Some S'"
  shows "filter hs_is_notify (hs_log (sys_app S')) = filter hs_is_notify (hs_log (sys_app S)) \<or>
    (\<exists>ch subs. sys_link S = LINK_CONNECTED ch subs \<and> hrm \<in> set subs \<and>
       filter hs_is_notify (hs_log (sys_app S')) =
         filter hs_is_notify (hs_log (sys_app S)) @ [HS_NOTIFY ch hrm [0x06, heartrate (sys_app S)]])"
proof (cases e)
  case SYS_TICK
  with assms(2) obtain a' where
    t: "blehr_tx_hrate hrm env ((sys_app S)\<lparr>tx_timer_armed := False\<rparr>) = Inr a'" and S': "S' = S\<lparr>sys_app := a'\<rparr>"
    by (auto split: if_splits sum.splits)
  from blehr_tx_hrate_fields(3) [OF t] S' assms(1) show ?thesis
    by (cases "sys_link S") (auto simp: sys_inv_def split: if_splits)
qed (use assms in \<open>auto simp: Let_def blehr_advertise_log blehr_tx_hrate_reset_def blehr_tx_hrate_stop_def
    blehr_on_sync_no_notify subs_terminate_fields(1) dest: ble_hr_fields(3)
    split: if_splits sum.splits gap_link.splits\<close>)

text \<open>Claim C31: refinement of the specification's state machine. Driven by a
  host that accepts its advertising calls and delivers events as NimBLE does
  (ending every subscription of a connection before reporting its
  disconnection), every run of the peripheral from its load-time state, in which
  no other characteristic is subscribed, is a run of the section 4.3 table: the
  table accepts the run's sequence of events from \<open>Idle\<close> and ends in the state
  that abstracts the system's final state (link state, and for a connection
  whether \<open>notify_state\<close> is set).\<close>

theorem sys_run_refines_spec:
  assumes "hs_adv_ok env" and "list_all (sys_event_ok hrm) es"
    and "sys_run hrm env es sys_init = Some S"
  shows "spec_run (spec_events hrm es) SP_IDLE = Some (sys_abs S)"
  using sys_run_sim [OF sys_inv_init assms] by simp

theorem sys_run_refines_spec_witness:
  "\<exists>S. sys_run 7 hs_ok [SYS_BLE_HR, SYS_SYNC, SYS_CONNECT 0 1, SYS_SUBSCRIBE 7 True, SYS_TICK,
        SYS_TICK, SYS_SUBSCRIBE 7 False, SYS_DISCONNECT 0x13, SYS_CONNECT 0 2] sys_init = Some S \<and>
     sys_abs S = SP_CONNECTED False \<and>
     spec_run (spec_events 7 [SYS_BLE_HR, SYS_SYNC, SYS_CONNECT 0 1, SYS_SUBSCRIBE 7 True, SYS_TICK,
        SYS_TICK, SYS_SUBSCRIBE 7 False, SYS_DISCONNECT 0x13, SYS_CONNECT 0 2]) SP_IDLE = Some (sys_abs S)"
proof -
  let ?es = "[SYS_BLE_HR, SYS_SYNC, SYS_CONNECT 0 1, SYS_SUBSCRIBE 7 True, SYS_TICK,
        SYS_TICK, SYS_SUBSCRIBE 7 False, SYS_DISCONNECT 0x13, SYS_CONNECT 0 2]"
  have "\<exists>S. sys_run 7 hs_ok ?es sys_init = Some S \<and> sys_abs S = SP_CONNECTED False"
    by (simp add: model_simps)
  then obtain S where r: "sys_run 7 hs_ok ?es sys_init = Some S" and a: "sys_abs S = SP_CONNECTED False"
    by blast
  have ok: "hs_adv_ok hs_ok" by (simp add: hs_adv_ok_def hs_ok_def)
  have l: "list_all (sys_event_ok 7) ?es" by simp
  from sys_run_refines_spec [OF ok l r] r a show ?thesis by blast
qed

text \<open>Claim C32: notifications go only to a live subscription. In every state such
  a run reaches, the next event either sends no notification or sends exactly
  one, \<open>[0x06, heartrate]\<close> on the monitored characteristic, to the handle of the
  current connection, on which the peer has enabled the monitored
  characteristic. So with this host the stream stops with the connection, which
  the peripheral's own disconnect branch does not ensure (claim C16).\<close>

theorem sys_run_notify_live:
  assumes "hs_adv_ok env" and "list_all (sys_event_ok hrm) es"
    and "sys_run hrm env es sys_init = Some S" and "sys_exec hrm env e S = Some S'"
  shows "filter hs_is_notify (hs_log (sys_app S')) = filter hs_is_notify (hs_log (sys_app S)) \<or>
    (\<exists>ch subs. sys_link S = LINK_CONNECTED ch subs \<and> hrm \<in> set subs \<and>
       filter hs_is_notify (hs_log (sys_app S')) =
         filter hs_is_notify (hs_log (sys_app S)) @ [HS_NOTIFY ch hrm [0x06, heartrate (sys_app S)]])"
proof -
  from sys_run_sim [OF sys_inv_init assms(1-3)] have "sys_inv hrm S" by simp
  from sys_exec_notify [OF this assms(4)] show ?thesis .
qed

theorem sys_run_notify_live_witness:
  "\<exists>S S'. sys_run 7 hs_ok [SYS_BLE_HR, SYS_SYNC, SYS_CONNECT 0 1, SYS_SUBSCRIBE 7 True] sys_init = Some S \<and>
     sys_exec 7 hs_ok SYS_TICK S = Some S' \<and>
     (filter hs_is_notify (hs_log (sys_app S')) = filter hs_is_notify (hs_log (sys_app S)) \<or>
      (\<exists>ch subs. sys_link S = LINK_CONNECTED ch subs \<and> 7 \<in> set subs \<and>
         filter hs_is_notify (hs_log (sys_app S')) =
           filter hs_is_notify (hs_log (sys_app S)) @ [HS_NOTIFY ch 7 [0x06, heartrate (sys_app S)]]))"
proof -
  let ?es = "[SYS_BLE_HR, SYS_SYNC, SYS_CONNECT 0 1, SYS_SUBSCRIBE 7 True]"
  have "\<exists>S S'. sys_run 7 hs_ok ?es sys_init = Some S \<and> sys_exec 7 hs_ok SYS_TICK S = Some S'"
    by (simp add: model_simps)
  then obtain S S' where r: "sys_run 7 hs_ok ?es sys_init = Some S"
    and t: "sys_exec 7 hs_ok SYS_TICK S = Some S'"
    by blast
  have ok: "hs_adv_ok hs_ok" by (simp add: hs_adv_ok_def hs_ok_def)
  have l: "list_all (sys_event_ok 7) ?es" by simp
  from sys_run_notify_live [OF ok l r t] r t show ?thesis by blast
qed

end
