(* ===== verification/Host_Sessions.thy ===== *)
theory Host_Sessions
  imports Host_Gap
begin

text \<open>
  Whole sessions of the peripheral under the NimBLE host model of \<open>Host_Gap\<close>:
  that the system can always get back to advertising, and two of the
  specification's section 8 tests run against it, the reset of the simulated
  value on disconnect and the gating of the callout by the subscription. Both
  tests fail even with a host that ends every subscription before reporting a
  disconnection.
\<close>

subsection \<open>Recovery\<close>

text \<open>Claim C33: the peripheral never gets stuck away from advertising. From every
  state of the system, with a host that accepts the name, the random address and
  the advertising calls, at most two events bring it to \<open>Advertising\<close>: none if it
  advertises, the disconnection if it is connected, and the shell command and the
  host's sync callback, or the sync callback alone, if it is idle.\<close>

theorem sys_recovers_advertising:
  assumes "hs_adv_ok env" and "rc_name_set env = 0"
  shows "\<exists>es S'. length es \<le> 2 \<and> sys_run hrm env es S = Some S' \<and> sys_abs S' = SP_ADVERTISING"
proof (cases "sys_link S")
  case LINK_IDLE
  show ?thesis
  proof (cases "init_flag (sys_app S)")
    case True
    with LINK_IDLE assms(1) show ?thesis
      by (intro exI [of _ "[SYS_SYNC]"]) (simp add: sys_abs_def host_adv_after_on_sync)
  next
    case False
    let ?a = "hs_emit HS_THREAD_STARTUP (hs_emit (HS_NAME_SET device_name)
                ((sys_app S)\<lparr>init_flag := True, tx_timer_armed := False\<rparr>))"
    from False assms(2) have "ble_hr env (sys_app S) = Inr (0, ?a)"
      by (simp add: ble_hr_def Let_def)
    with LINK_IDLE assms(1) show ?thesis
      by (intro exI [of _ "[SYS_BLE_HR, SYS_SYNC]"])
        (simp add: sys_abs_def host_adv_after_on_sync hs_emit_def)
  qed
next
  case LINK_ADVERTISING
  then show ?thesis by (intro exI [of _ "[]"]) (simp add: sys_abs_def)
next
  case (LINK_CONNECTED ch subs)
  with assms(1) show ?thesis
    by (intro exI [of _ "[SYS_DISCONNECT 0]"]) (simp add: sys_abs_def host_adv_after_advertise Let_def)
qed

theorem sys_recovers_advertising_witness:
  "\<exists>es S'. length es \<le> 2 \<and> sys_run 7 hs_ok es sys_init = Some S' \<and> sys_abs S' = SP_ADVERTISING"
proof -
  have a: "hs_adv_ok hs_ok" by (simp add: hs_adv_ok_def hs_ok_def)
  have b: "rc_name_set hs_ok = 0" by (simp add: hs_ok_def)
  from sys_recovers_advertising [OF a b] show ?thesis .
qed

subsection \<open>The end of a subscription\<close>

lemma subs_terminate_heartrate [simp]:
  "heartrate (subs_terminate hrm env ch subs a) = heartrate a"
  unfolding subs_terminate_def
  by (induction subs arbitrary: a) (simp_all add: blehr_tx_hrate_reset_def blehr_tx_hrate_stop_def)

lemma subs_terminate_last_monitored:
  assumes "subs \<noteq> []" and "last subs = hrm"
  shows "tx_timer_armed (subs_terminate hrm env ch subs a) \<and> \<not> notify_state (subs_terminate hrm env ch subs a)"
proof -
  from assms have "subs = butlast subs @ [hrm]" by (metis append_butlast_last_id)
  then have "subs_terminate hrm env ch subs a =
      blehr_gap_event hrm env (GAP_SUBSCRIBE ch hrm False) (subs_terminate hrm env ch (butlast subs) a)"
    by (metis fold_append fold_simps comp_apply subs_terminate_def)
  then show ?thesis by (simp add: blehr_tx_hrate_reset_def)
qed

subsection \<open>Section 8 tests against the system\<close>

text \<open>Claim C34: a new session does not restart the value, even with NimBLE's host.
  From a connection on which the monitored characteristic is subscribed, a
  disconnection (the host first ends the subscription), a new connection, a new
  subscription and the next expiry send the old session's current value, not 90:
  the value is reset only by an expiry that finds no subscription, and none comes
  between the two sessions. The specification's "reset on disconnect" test expects
  the new session to start at 90.\<close>

theorem sys_new_session_keeps_value:
  assumes "sys_link S = LINK_CONNECTED ch subs" and "hs_adv_ok env" and "rc_notify env = 0"
  shows "\<exists>S'. sys_run hrm env [SYS_DISCONNECT r, SYS_CONNECT 0 ch', SYS_SUBSCRIBE hrm True, SYS_TICK] S = Some S' \<and>
    last (hs_log (sys_app S')) = HS_NOTIFY ch' hrm [0x06, heartrate (sys_app S)] \<and>
    sys_abs S' = SP_CONNECTED True"
  using assms
  by (simp add: Let_def host_adv_after_advertise blehr_tx_hrate_def blehr_tx_hrate_reset_def
      hs_emit_def sys_abs_def subs_update_def)

theorem sys_new_session_keeps_value_witness:
  "\<exists>S S'. sys_run 7 hs_ok [SYS_BLE_HR, SYS_SYNC, SYS_CONNECT 0 1, SYS_SUBSCRIBE 7 True, SYS_TICK, SYS_TICK] sys_init = Some S \<and>
     heartrate (sys_app S) = 92 \<and>
     sys_run 7 hs_ok [SYS_DISCONNECT 0x13, SYS_CONNECT 0 2, SYS_SUBSCRIBE 7 True, SYS_TICK] S = Some S' \<and>
     last (hs_log (sys_app S')) = HS_NOTIFY 2 7 [0x06, 92] \<and> sys_abs S' = SP_CONNECTED True"
proof -
  have "\<exists>S. sys_run 7 hs_ok [SYS_BLE_HR, SYS_SYNC, SYS_CONNECT 0 1, SYS_SUBSCRIBE 7 True, SYS_TICK, SYS_TICK] sys_init = Some S \<and>
      heartrate (sys_app S) = 92 \<and> sys_link S = LINK_CONNECTED 1 [7]"
    by (simp add: model_simps)
  then obtain S where r: "sys_run 7 hs_ok [SYS_BLE_HR, SYS_SYNC, SYS_CONNECT 0 1, SYS_SUBSCRIBE 7 True, SYS_TICK, SYS_TICK] sys_init = Some S"
    and h: "heartrate (sys_app S) = 92" and l: "sys_link S = LINK_CONNECTED 1 [7]"
    by blast
  have a: "hs_adv_ok hs_ok" by (simp add: hs_adv_ok_def hs_ok_def)
  have b: "rc_notify hs_ok = 0" by (simp add: hs_ok_def)
  from sys_new_session_keeps_value [OF l a b, where hrm = 7 and r = "0x13" and ch' = 2] r h
  show ?thesis by auto
qed

text \<open>Claim C35: the callout stays armed after a disconnection. When the monitored
  characteristic is the last subscription the host ends before reporting a
  disconnection, the peripheral's unsubscribe branch re-arms the callout, and the
  disconnect branch does not disarm it: the system advertises with the callout
  armed and no subscription. The specification's gating test requires the timer
  to be armed exactly in \<open>Connected(subscribed)\<close>, and disarmed on disconnect.\<close>

theorem sys_disconnect_leaves_timer_armed:
  assumes "sys_link S = LINK_CONNECTED ch subs" and "subs \<noteq> []" and "last subs = hrm"
    and "hs_adv_ok env"
  shows "\<exists>S'. sys_exec hrm env (SYS_DISCONNECT r) S = Some S' \<and>
    sys_abs S' = SP_ADVERTISING \<and> tx_timer_armed (sys_app S') \<and> \<not> notify_state (sys_app S')"
  using assms subs_terminate_last_monitored [OF assms(2,3), of env ch "sys_app S"]
  by (simp add: Let_def host_adv_after_advertise sys_abs_def)

theorem sys_disconnect_leaves_timer_armed_witness:
  "\<exists>S S'. sys_run 7 hs_ok [SYS_BLE_HR, SYS_SYNC, SYS_CONNECT 0 1, SYS_SUBSCRIBE 7 True] sys_init = Some S \<and>
     sys_exec 7 hs_ok (SYS_DISCONNECT 0x13) S = Some S' \<and>
     sys_abs S' = SP_ADVERTISING \<and> tx_timer_armed (sys_app S') \<and> \<not> notify_state (sys_app S')"
proof -
  have "\<exists>S. sys_run 7 hs_ok [SYS_BLE_HR, SYS_SYNC, SYS_CONNECT 0 1, SYS_SUBSCRIBE 7 True] sys_init = Some S \<and>
      sys_link S = LINK_CONNECTED 1 [7]"
    by (simp add: model_simps)
  then obtain S where r: "sys_run 7 hs_ok [SYS_BLE_HR, SYS_SYNC, SYS_CONNECT 0 1, SYS_SUBSCRIBE 7 True] sys_init = Some S"
    and l: "sys_link S = LINK_CONNECTED 1 [7]"
    by blast
  have n: "[7::u16] \<noteq> []" by simp
  have la: "last [7::u16] = 7" by simp
  have a: "hs_adv_ok hs_ok" by (simp add: hs_adv_ok_def hs_ok_def)
  from sys_disconnect_leaves_timer_armed [OF l n la a, where r = "0x13"] r show ?thesis by auto
qed

end
