(* ===== verification/Console.thy ===== *)
theory Console
  imports Prelude
begin

text \<open>
  \<open>console/console.h\<close> of the RT-Thread porting layer: \<open>console_printf\<close> is a
  macro for RT-Thread's \<open>rt_kprintf\<close>. The console is modelled by the lines
  written to it, in order; the formatting of the arguments is not modelled, a
  call is the formatted line. No function of the sources calls
  \<open>console_printf\<close>: the driver and the peripheral log through \<open>printf\<close> and
  \<open>MODLOG_DFLT\<close>, whose output has no effect on their state.
\<close>

type_synonym console = "string list"

text \<open>\<open>rt_kprintf\<close>, outside the sources: it writes one line to the console.\<close>

definition rt_kprintf :: "string \<Rightarrow> console \<Rightarrow> console" where
  "rt_kprintf line out = out @ [line]"

text \<open>\<open>#define console_printf rt_kprintf\<close>\<close>

definition console_printf :: "string \<Rightarrow> console \<Rightarrow> console" where
  "console_printf = rt_kprintf"

end
