(* ===== verification/Spec2Isabelle.thy ===== *)
theory Spec2Isabelle
  imports Transport_Properties Blehr_Sessions Host_Sessions Console
begin

text \<open>
  \<^bold>\<open>A verification library for the NimBLE RT-Thread HCI UART transport and the
  blehr heart-rate peripheral.\<close>

  \<^bold>\<open>The program.\<close> Two parts with state. The transport
  (\<open>src/nimble/transport/rtthread/src/ble_hci_rtthread.c\<close>) owns the serial
  device: a reader thread (\<open>rtthread_hci_uart_entry\<close>) reads chunks of at most
  \<open>ARRAY_SIZE(rx)\<close> bytes and feeds NimBLE's H4 receive machine
  (\<open>hci_h4_sm_rx\<close>), which calls \<open>rtthread_ble_hci_frame_cb\<close> for every complete
  packet; that callback hands events and ACL data to the host. The host sends
  commands and ACL data through \<open>ble_transport_to_ll_cmd_impl\<close> and
  \<open>ble_transport_to_ll_acl_impl\<close>, which write an indicator byte and the packet
  with a write-until-done loop (\<open>rtthread_ble_hci_uart_write_all\<close>). The
  peripheral (\<open>src/apps/blehr/src/blehr.c\<close>) reacts to the host's sync callback
  and GAP events, advertises, and while a central subscribes to the heart-rate
  measurement sends a notification on every expiry of a one-second callout. The
  two parts meet only through the NimBLE host, which is not among the sources.

  \<^bold>\<open>Theories.\<close>
  \<^item> \<open>Prelude\<close>: \<open>byte\<close> and \<open>u16\<close> words, \<open>get_le16\<close> with its value
    (\<open>unat_get_le16\<close>), and \<open>outres\<close>, the result of a routine that produces
    outputs (callback calls, host calls) in order and then either stops on an
    error or ends in a state, with \<open>out_bind\<close>, \<open>out_prepend\<close>, \<open>out_map\<close> and their
    algebra (associativity, prepending, mapping).
  \<^item> \<open>H4\<close>: the H4 codec. \<open>hci_h4.c\<close> is not among the sources, so the machine
    is modelled from the specification's contract (section 4.1) and its map entries
    are marked spec-modelled: packet types and indicators (1, 2, 4), header lengths
    (3, 4, 2) and payload lengths (\<open>cmd[2]\<close>, little-endian \<open>acl[2..3]\<close>,
    \<open>evt[1]\<close>), the encoding \<open>h4_encode\<close>, the state \<open>h4_sm\<close> (idle, header,
    payload), the byte step \<open>h4_rx_byte\<close> and the chunk function \<open>h4_sm_rx\<close>.
    Its lemmas: chunk composition (\<open>h4_sm_rx_append\<close>), refinement of the
    abstraction "bytes of the frame in flight" with well-formedness of every
    delivered frame (\<open>h4_sm_rx_refines\<close>), completeness: encoded well-formed
    frames decode to themselves (\<open>h4_sm_rx_frames\<close>), and the error path
    (\<open>h4_sm_rx_error\<close>).
  \<^item> \<open>Transport\<close>: \<open>ble_hci_rtthread.c\<close>. The record \<open>transport\<close> holds the
    globals \<open>g_hci_uart\<close> (as \<open>hci_uart_set\<close>, with the device \<open>hci_dev\<close>),
    \<open>g_hci_h4sm\<close> and \<open>g_hci_tid\<close>. The device (\<open>uart_dev\<close>) is what crosses
    it: bytes accepted for sending, bytes received and not yet read, call counts;
    how many bytes the \<open>k\<close>-th write or read transfers is the device's choice, a
    function \<open>dev_caps\<close>. One definition per function: \<open>uart_write_all\<close>,
    \<open>uart_write_chain\<close> (the mbuf loop), \<open>ble_transport_to_ll_cmd_impl\<close>,
    \<open>ble_transport_to_ll_acl_impl\<close>, \<open>rtthread_ble_hci_frame_cb\<close>,
    \<open>rtthread_hci_uart_rx\<close> (one loop iteration) and \<open>rtthread_hci_uart_entry\<close>,
    \<open>rtthread_hci_uart_init\<close>, \<open>ble_transport_rtthread_init\<close>. Asserts are the
    error \<open>TP_ASSERT\<close>.
  \<^item> \<open>Blehr\<close>: \<open>blehr.c\<close>. The record \<open>blehr_state\<close> holds the module's
    statics and the armed flag of \<open>blehr_tx_timer\<close>; the host calls it makes are
    appended to \<open>hs_log\<close> as \<open>hs_call\<close> values; the host's return codes come
    from \<open>hs_env\<close>; \<open>hrs_hrm_handle\<close> is a parameter \<open>hrm\<close>. One definition
    per function: \<open>blehr_advertise\<close>, \<open>blehr_tx_hrate_stop\<close>,
    \<open>blehr_tx_hrate_reset\<close>, \<open>blehr_tx_hrate\<close>, \<open>blehr_gap_event\<close>,
    \<open>blehr_on_sync\<close>, \<open>ble_hr\<close>. The system is the inductive relation
    \<open>blehr_step\<close>: the host's single event context runs one callback at a time
    (init, sync, GAP event, callout expiry), which is the serialisation the
    specification's concurrency section relies on; \<open>blehr_reachable\<close> closes it
    from the load-time statics, and \<open>blehr_run\<close> executes an explicit input
    sequence, every state of which is reachable (\<open>blehr_run_reachable\<close>).
  \<^item> \<open>Transport_Refinement\<close>: the transport against the specification's
    contracts. \<open>rx_abs\<close> abstracts the receive side to the bytes the controller
    sent and the host has not received (the H4 machine's frame in flight, then the
    device's buffer); \<open>chan_deliver\<close> is the specification's channel step and
    \<open>host_msgs\<close> what the host's sinks receive. \<open>transport_wf\<close> is the
    well-formedness of the driver's state and \<open>transport_reachable\<close> the states
    reachable from the zero statics (\<open>transport_boot\<close>) through one
    initialisation, sends, reader iterations and controller bytes. \<open>send_op\<close>,
    \<open>ble_transport_send_all\<close> and \<open>tx_frames\<close> (the frames an H4 receiver
    decodes from the wire) relate serialised sends to the specification's
    \<open>encode\<close>.
  \<^item> \<open>Transport_Properties\<close>: the reader against the one-shot decoder
    (chunking independence) and the lengths of the packets it delivers
    (\<open>hs_msg_fits\<close>).
  \<^item> \<open>Host_Gap\<close>: the peripheral composed with the NimBLE host's GAP/GATT side,
    which is not among the sources and is modelled from the specification's
    interface (section 6): \<open>gap_link\<close> (idle, advertising, connected with the
    peer's subscriptions), \<open>sys_exec\<close> (one host event: shell command, sync,
    connect, advertising end, disconnect preceded by the end of every
    subscription, subscribe, MTU, callout expiry) and \<open>sys_run\<close>. The section 4.3
    table is \<open>spec_step\<close> on \<open>spec_state\<close>; \<open>sys_abs\<close> and \<open>sys_event_spec\<close>
    are the abstraction and the event mediator, \<open>sys_inv\<close> the invariant of the
    simulation.
  \<^item> \<open>Blehr_Sessions\<close>: runs of the peripheral against the specification's
    error handling (a failed notification) and reset rule (a new session
    between two expiries).
  \<^item> \<open>Host_Sessions\<close>: whole sessions of the composed system: recovery to
    advertising, and the specification's reset and gating tests.
  \<^item> \<open>Console\<close>: \<open>console.h\<close>, the macro \<open>console_printf\<close> for RT-Thread's
    \<open>rt_kprintf\<close>, modelled as a line appended to the console output; no function
    of the sources calls it.
  \<^item> \<open>Spec2Isabelle\<close> (this theory): properties across components.

  \<^bold>\<open>What is proved.\<close> Transport: the reader thread delivers an encoded packet
  stream exactly, whatever the chunking (C1); both outbound paths put exactly the
  H4 encoding on the wire (C2, C3) and it decodes back to the packet (C18, C19);
  the write loop terminates when the device makes progress (C4) and never returns
  when it stops (C5); a command packet from the controller hits the callback's
  \<open>assert(0)\<close> (C6); one reader iteration takes a prefix of the pending bytes of
  at most 63 bytes, fewer than the 64-byte buffer, and feeds exactly that prefix to
  the H4 machine (C7); initialisation's return codes
  (C8) and two defects in it (C9, C10). Peripheral: heart rate in \<open>[90, 160)\<close> and
  well-formed notifications in every reachable state (C11); the notified value
  sequence with its wrap-around (C12); re-advertising after each of connect failure,
  disconnect and advertising end (C13); no notification while unsubscribed (C14);
  the timer can be armed without a subscription (C15) and a disconnect does not
  stop the stream (C16), against the specification; \<open>ble_hr\<close> is idempotent
  (C17). The specification's end-to-end scenario holds for every connection
  handle, attribute and number of expiries: in the composed system
  (\<open>sys_run\<close>), \<open>n\<close> expiries after a subscription notify exactly
  \<open>90, 91, ...\<close>, and after the unsubscription, one more expiry and the
  disconnection the peripheral advertises again with the callout stopped and the
  value back at 90 (C20). A byte that is not a packet indicator stops the reader with the
  decoder's error after the frames before it (C21); a subscription to another
  characteristic can leave \<open>notify_state\<close> set with the callout stopped (C22);
  after a successful \<open>ble_transport_rtthread_init\<close> the reader delivers the
  controller's packets (C23). Refinement: every run of the reader that stops
  without error is a step of the specification's channel, whatever the device
  does and whatever the stream holds (C24); serialised sends of well-formed packets
  leave a wire that decodes to the sent frames in order (C26). Every reachable
  driver state is well formed (C25). A failed notification asserts instead of
  being logged (C27), and a session started between two expiries continues the
  old session's values instead of restarting at 90 (C28). The reader equals the
  one-shot decoder whatever the read sizes (C29), and every packet it delivers has
  the length its HCI header announces, at most 257 bytes for an event and 65539
  for ACL data (C30). With a host that behaves as NimBLE's, every run of the
  peripheral without subscriptions to another characteristic is a run of the
  specification's table (C31), and notifications go only to the live connection
  that enabled them (C32); the excluded subscriptions are where the code departs
  from the table (C22). From every state at most two events bring the system back
  to advertising (C33). Even with that host, a new session continues the old
  session's values instead of restarting at 90 (C34), and a disconnection leaves
  the callout armed while the peripheral advertises (C35), against the
  specification's reset and gating tests.

  \<^bold>\<open>Bounds and fuel.\<close> The write loop is given fuel, one unit per device
  call; a loop with \<open>n\<close> bytes left needs at most \<open>n\<close> calls when every call
  accepts a byte (C4), so fuel equal to the packet length is enough, and no fuel
  is enough for a device that stops (C5). The reader loop never ends; a run is its
  first \<open>n\<close> iterations, and one iteration per pending byte is enough to drain the
  device when every read returns a byte (C1).

  \<^bold>\<open>Not modelled.\<close> The NimBLE host's protocol layers (ATT, L2CAP, HCI command
  encoding, security); of the host only the GAP/GATT behaviour the peripheral
  observes is modelled, from the specification (theory \<open>Host_Gap\<close>); the GATT server (\<open>gatt_svr_init\<close>,
  \<open>hrs_hrm_handle\<close>); buffer pools (\<open>ble_transport_free\<close>,
  \<open>os_mbuf_free_chain\<close>, \<open>ble_hs_mbuf_from_flat\<close>): ownership is not tracked;
  logging through \<open>printf\<close> and \<open>MODLOG_DFLT\<close>, which has no effect on any state,
  and the formatting of console output; RT-Thread's scheduler
  beyond the serialisation of the host context; concurrent senders: the model
  runs sends one after another (\<open>ble_transport_send_all\<close>), so what two tasks
  sending at once do to the wire (the driver takes no lock across the write calls
  of one packet) is not modelled; the callout's timing, of which only
  armed/disarmed is kept.
\<close>

definition transport_example :: transport where
  "transport_example =
     \<lparr>hci_uart_set = True, hci_uart_open = True,
      hci_dev = \<lparr>tx_wire = [], tx_calls = 0, rx_wire = [], rx_calls = 0\<rparr>,
      hci_h4sm = W4_PKT_TYPE, hci_thread = True\<rparr>"

section \<open>Properties spanning components\<close>

subsection \<open>Outbound framing round trip\<close>

text \<open>Claim C18: what \<open>ble_transport_to_ll_cmd_impl\<close> puts on the wire is read back
  by an H4 receiver as exactly the command it was given: the bytes appended to
  the wire, fed from idle to the H4 machine, yield that one command frame and
  leave the machine idle.\<close>

theorem ble_transport_cmd_roundtrip:
  assumes "hci_uart_set t" and "\<forall>k. 0 < cap k"
    and len: "length cmd = 3 + unat (cmd ! 2)" and "length cmd \<le> fuel"
  shows "\<exists>t'. ble_transport_to_ll_cmd_impl fuel cap t cmd = Inr (0, t') \<and>
    h4_sm_rx W4_PKT_TYPE (drop (length (tx_wire (hci_dev t))) (tx_wire (hci_dev t'))) =
      ([H4_Frame H4_CMD cmd], Inr W4_PKT_TYPE)"
proof -
  from ble_transport_to_ll_cmd_impl_writes [OF assms] obtain d' where
    r: "ble_transport_to_ll_cmd_impl fuel cap t cmd = Inr (0, t\<lparr>hci_dev := d'\<rparr>)"
    and w: "tx_wire d' = tx_wire (hci_dev t) @ h4_encode (H4_Frame H4_CMD cmd)"
    by blast
  from len have ok: "list_all h4_frame_ok [H4_Frame H4_CMD cmd]" by simp
  have "h4_sm_rx W4_PKT_TYPE (concat (map h4_encode [H4_Frame H4_CMD cmd])) =
      ([H4_Frame H4_CMD cmd], Inr W4_PKT_TYPE)"
    by (rule h4_sm_rx_frames [OF ok])
  with r w show ?thesis by (intro exI [of _ "t\<lparr>hci_dev := d'\<rparr>"]) simp
qed

theorem ble_transport_cmd_roundtrip_witness:
  "\<exists>t'. ble_transport_to_ll_cmd_impl 3 (\<lambda>_. 1) transport_example [0x03, 0x0c, 0x00] = Inr (0, t') \<and>
    h4_sm_rx W4_PKT_TYPE (drop (length (tx_wire (hci_dev transport_example))) (tx_wire (hci_dev t'))) =
      ([H4_Frame H4_CMD [0x03, 0x0c, 0x00]], Inr W4_PKT_TYPE)"
  by (rule ble_transport_cmd_roundtrip) (simp_all add: transport_example_def)

text \<open>Claim C19: the same for \<open>ble_transport_to_ll_acl_impl\<close>: when the mbuf chain
  holds a well-formed ACL packet (4-byte header, then as many data bytes as its
  little-endian length field says), the bytes put on the wire decode to exactly
  that ACL frame.\<close>

theorem ble_transport_acl_roundtrip:
  assumes "hci_uart_set t" and "\<forall>k. 0 < cap k"
    and "0 < fuel" and "\<forall>x\<in>set om. length x \<le> fuel"
    and ok: "h4_frame_ok (H4_Frame H4_ACL (concat om))"
  shows "\<exists>t'. ble_transport_to_ll_acl_impl fuel cap t om = Inr (0, t') \<and>
    h4_sm_rx W4_PKT_TYPE (drop (length (tx_wire (hci_dev t))) (tx_wire (hci_dev t'))) =
      ([H4_Frame H4_ACL (concat om)], Inr W4_PKT_TYPE)"
proof -
  from ble_transport_to_ll_acl_impl_writes [OF assms(1-4)] obtain d' where
    r: "ble_transport_to_ll_acl_impl fuel cap t om = Inr (0, t\<lparr>hci_dev := d'\<rparr>)"
    and w: "tx_wire d' = tx_wire (hci_dev t) @ h4_encode (H4_Frame H4_ACL (concat om))"
    by blast
  from ok have oks: "list_all h4_frame_ok [H4_Frame H4_ACL (concat om)]" by simp
  have "h4_sm_rx W4_PKT_TYPE (concat (map h4_encode [H4_Frame H4_ACL (concat om)])) =
      ([H4_Frame H4_ACL (concat om)], Inr W4_PKT_TYPE)"
    by (rule h4_sm_rx_frames [OF oks])
  with r w show ?thesis by (intro exI [of _ "t\<lparr>hci_dev := d'\<rparr>"]) simp
qed

theorem ble_transport_acl_roundtrip_witness:
  "\<exists>t'. ble_transport_to_ll_acl_impl 4 (\<lambda>_. 3) transport_example [[0x01, 0x00, 0x02, 0x00], [0xaa, 0xbb]] = Inr (0, t') \<and>
    h4_sm_rx W4_PKT_TYPE (drop (length (tx_wire (hci_dev transport_example))) (tx_wire (hci_dev t'))) =
      ([H4_Frame H4_ACL (concat [[0x01, 0x00, 0x02, 0x00], [0xaa, 0xbb]])], Inr W4_PKT_TYPE)"
  by (rule ble_transport_acl_roundtrip) (simp_all add: transport_example_def)

subsection \<open>The peripheral's end-to-end scenario\<close>

lemma sys_run_append:
  "sys_run hrm env (xs @ ys) S =
     (case sys_run hrm env xs S of None \<Rightarrow> None | Some S' \<Rightarrow> sys_run hrm env ys S')"
  by (induction xs arbitrary: S) (simp_all split: option.splits)

lemma sys_run_ticks:
  assumes "sys_link S = LINK_CONNECTED ch subs" and "notify_state (sys_app S)"
    and "notify_conn_handle (sys_app S) = ch" and "tx_timer_armed (sys_app S)"
    and "hr_in_range (heartrate (sys_app S))" and "rc_notify env = 0"
  shows "\<exists>S'. sys_run hrm env (replicate n SYS_TICK) S = Some S' \<and>
    sys_link S' = sys_link S \<and> notify_state (sys_app S') \<and> notify_conn_handle (sys_app S') = ch \<and>
    tx_timer_armed (sys_app S') \<and> heartrate (sys_app S') = hr_sample (heartrate (sys_app S)) n \<and>
    filter hs_is_notify (hs_log (sys_app S')) = filter hs_is_notify (hs_log (sys_app S)) @
      map (\<lambda>i. HS_NOTIFY ch hrm [0x06, hr_sample (heartrate (sys_app S)) i]) [0..<n]"
  using assms
proof (induction n arbitrary: S)
  case 0
  then show ?case by (simp add: hr_sample_0)
next
  case (Suc n)
  let ?h = "heartrate (sys_app S)"
  let ?a = "blehr_tx_hrate_reset (hs_emit (HS_NOTIFY ch hrm [0x06, ?h])
              ((sys_app S)\<lparr>tx_timer_armed := False, heartrate := blehr_hr_next ?h\<rparr>))"
  have t: "sys_exec hrm env SYS_TICK S = Some (S\<lparr>sys_app := ?a\<rparr>)"
    using Suc.prems by (simp add: blehr_tx_hrate_def Let_def)
  have r: "hr_in_range (heartrate ?a)"
    using Suc.prems(5) by (simp add: blehr_tx_hrate_reset_def hs_emit_def hr_in_range_next)
  from Suc.IH [of "S\<lparr>sys_app := ?a\<rparr>"] Suc.prems r obtain S' where
    "sys_run hrm env (replicate n SYS_TICK) (S\<lparr>sys_app := ?a\<rparr>) = Some S'"
    "sys_link S' = sys_link S" "notify_state (sys_app S')" "notify_conn_handle (sys_app S') = ch"
    "tx_timer_armed (sys_app S')" "heartrate (sys_app S') = hr_sample (blehr_hr_next ?h) n"
    "filter hs_is_notify (hs_log (sys_app S')) = filter hs_is_notify (hs_log (sys_app S)) @
       [HS_NOTIFY ch hrm [0x06, ?h]] @ map (\<lambda>i. HS_NOTIFY ch hrm [0x06, hr_sample (blehr_hr_next ?h) i]) [0..<n]"
    by (auto simp: blehr_tx_hrate_reset_def hs_emit_def)
  with t Suc.prems(5) show ?case
    by (intro exI [of _ S']) (simp add: hr_sample_next hr_sample_0 map_upt_Suc del: upt_Suc)
qed

text \<open>Claim C20: the specification's end-to-end scenario, for every connection
  handle, every monitored attribute and any number \<open>n\<close> of expiries, with a host
  that accepts every call: \<open>ble_hr\<close>, sync, a central connects and subscribes to
  the monitored characteristic; the \<open>n\<close> expiries send exactly
  \<open>[0x06, 90], [0x06, 91], ...\<close> (wrapping after 159) to that connection; the
  central unsubscribes; the next expiry sends nothing, disarms the callout and
  resets the value to 90; the central disconnects and the peripheral advertises
  again. No other notification is sent in the whole run.\<close>

theorem sys_end_to_end:
  assumes "hs_adv_ok env" and "rc_name_set env = 0" and "rc_notify env = 0"
  shows "\<exists>S. sys_run hrm env
      ([SYS_BLE_HR, SYS_SYNC, SYS_CONNECT 0 ch, SYS_SUBSCRIBE hrm True] @ replicate n SYS_TICK @
       [SYS_SUBSCRIBE hrm False, SYS_TICK, SYS_DISCONNECT r]) sys_init = Some S \<and>
    filter hs_is_notify (hs_log (sys_app S)) = map (\<lambda>i. HS_NOTIFY ch hrm [0x06, hr_sample 90 i]) [0..<n] \<and>
    sys_abs S = SP_ADVERTISING \<and> \<not> tx_timer_armed (sys_app S) \<and> heartrate (sys_app S) = 90"
proof -
  from assms obtain S1 where r1: "sys_run hrm env [SYS_BLE_HR, SYS_SYNC, SYS_CONNECT 0 ch, SYS_SUBSCRIBE hrm True] sys_init = Some S1"
    and l1: "sys_link S1 = LINK_CONNECTED ch [hrm]" and n1: "notify_state (sys_app S1)"
    and c1: "notify_conn_handle (sys_app S1) = ch" and a1: "tx_timer_armed (sys_app S1)"
    and h1: "heartrate (sys_app S1) = 90" and f1: "filter hs_is_notify (hs_log (sys_app S1)) = []"
    by (simp add: model_simps hs_adv_ok_def)
  have hr: "hr_in_range (heartrate (sys_app S1))" by (simp add: h1 hr_in_range_def)
  from sys_run_ticks [OF l1 n1 c1 a1 hr assms(3), of hrm n] h1 f1 obtain S2 where
    r2: "sys_run hrm env (replicate n SYS_TICK) S1 = Some S2" and l2: "sys_link S2 = LINK_CONNECTED ch [hrm]"
    and f2: "filter hs_is_notify (hs_log (sys_app S2)) = map (\<lambda>i. HS_NOTIFY ch hrm [0x06, hr_sample 90 i]) [0..<n]"
    by (auto simp: l1)
  from l2 assms(1) obtain S3 where
    r3: "sys_run hrm env [SYS_SUBSCRIBE hrm False, SYS_TICK, SYS_DISCONNECT r] S2 = Some S3"
    and f3: "filter hs_is_notify (hs_log (sys_app S3)) = filter hs_is_notify (hs_log (sys_app S2))"
    and s3: "sys_abs S3 = SP_ADVERTISING \<and> \<not> tx_timer_armed (sys_app S3) \<and> heartrate (sys_app S3) = 90"
    by (simp add: Let_def subs_update_def subs_terminate_def blehr_tx_hrate_def blehr_tx_hrate_reset_def
        blehr_tx_hrate_stop_def blehr_advertise_log host_adv_after_advertise sys_abs_def)
  have "sys_run hrm env ([SYS_BLE_HR, SYS_SYNC, SYS_CONNECT 0 ch, SYS_SUBSCRIBE hrm True] @ replicate n SYS_TICK @
       [SYS_SUBSCRIBE hrm False, SYS_TICK, SYS_DISCONNECT r]) sys_init = Some S3"
    unfolding append_assoc [symmetric] sys_run_append r1 r2 by (simp only: option.case r2 r3)
  with f2 f3 s3 show ?thesis by auto
qed

theorem sys_end_to_end_witness:
  "\<exists>S. sys_run 7 hs_ok
      ([SYS_BLE_HR, SYS_SYNC, SYS_CONNECT 0 1, SYS_SUBSCRIBE 7 True] @ replicate 2 SYS_TICK @
       [SYS_SUBSCRIBE 7 False, SYS_TICK, SYS_DISCONNECT 0x13]) sys_init = Some S \<and>
    filter hs_is_notify (hs_log (sys_app S)) = [HS_NOTIFY 1 7 [0x06, 90], HS_NOTIFY 1 7 [0x06, 91]] \<and>
    sys_abs S = SP_ADVERTISING \<and> \<not> tx_timer_armed (sys_app S) \<and> heartrate (sys_app S) = 90"
proof -
  have a: "hs_adv_ok hs_ok" by (simp add: hs_adv_ok_def hs_ok_def)
  have b: "rc_name_set hs_ok = 0" "rc_notify hs_ok = 0" by (simp_all add: hs_ok_def)
  have m: "map (\<lambda>i. HS_NOTIFY 1 7 [0x06, hr_sample 90 i]) [0..<2] = [HS_NOTIFY 1 7 [0x06, 90], HS_NOTIFY 1 7 [0x06, 91]]"
    by (simp add: hr_sample_def upt_rec)
  from sys_end_to_end [OF a b, where hrm = 7 and ch = 1 and n = 2 and r = "0x13"] m show ?thesis
    by simp
qed

subsection \<open>Initialisation, then reception\<close>

text \<open>Claim C23: after \<open>ble_transport_rtthread_init\<close> succeeds, the H4 machine is
  idle, the device handle set and the reader thread started; running that thread
  then hands the host exactly the well-formed event and ACL packets the controller
  sent, in order, whatever chunks the device delivers them in.\<close>

theorem ble_transport_init_then_receive:
  assumes init: "ble_transport_rtthread_init e t = Inr (0, t1)"
    and cap: "\<forall>k. 0 < cap k"
    and wire: "rx_wire (hci_dev t) = concat (map h4_encode fs)"
    and ok: "list_all h4_frame_ok fs" and types: "\<forall>f\<in>set fs. frame_type f \<noteq> H4_CMD"
    and n: "length (rx_wire (hci_dev t)) \<le> n"
  shows "hci_uart_set t1 \<and> hci_thread t1 \<and>
    (\<exists>ms d'. rtthread_hci_uart_entry n cap t1 = (ms, Inr (t1\<lparr>hci_dev := d'\<rparr>)) \<and>
       map Inr ms = map (\<lambda>f. rtthread_ble_hci_frame_cb (frame_type f) (frame_data f)) fs \<and>
       rx_wire d' = [])"
proof -
  from init have t1: "hci_uart_set t1" "hci_thread t1" "hci_h4sm t1 = W4_PKT_TYPE"
    "hci_dev t1 = hci_dev t"
    by (auto simp: ble_transport_rtthread_init_def rtthread_hci_uart_init_def h4_sm_init_def Let_def
        split: if_splits)
  from t1 wire n have w1: "rx_wire (hci_dev t1) = concat (map h4_encode fs)"
    and n1: "length (rx_wire (hci_dev t1)) \<le> n" by simp_all
  from rtthread_hci_uart_entry_drains [OF cap t1(3) w1 ok types n1] t1(1,2) show ?thesis
    by blast
qed

theorem ble_transport_init_then_receive_witness:
  "hci_uart_set \<lparr>hci_uart_set = True, hci_uart_open = True, hci_dev = \<lparr>tx_wire = [], tx_calls = 0, rx_wire = [0x04, 0x0e, 0x00], rx_calls = 0\<rparr>, hci_h4sm = W4_PKT_TYPE, hci_thread = True\<rparr> \<and> hci_thread \<lparr>hci_uart_set = True, hci_uart_open = True, hci_dev = \<lparr>tx_wire = [], tx_calls = 0, rx_wire = [0x04, 0x0e, 0x00], rx_calls = 0\<rparr>, hci_h4sm = W4_PKT_TYPE, hci_thread = True\<rparr> \<and>
   (\<exists>ms d'. rtthread_hci_uart_entry 3 (\<lambda>_. 1) \<lparr>hci_uart_set = True, hci_uart_open = True, hci_dev = \<lparr>tx_wire = [], tx_calls = 0, rx_wire = [0x04, 0x0e, 0x00], rx_calls = 0\<rparr>, hci_h4sm = W4_PKT_TYPE, hci_thread = True\<rparr> = (ms, Inr (\<lparr>hci_uart_set = True, hci_uart_open = True, hci_dev = \<lparr>tx_wire = [], tx_calls = 0, rx_wire = [0x04, 0x0e, 0x00], rx_calls = 0\<rparr>, hci_h4sm = W4_PKT_TYPE, hci_thread = True\<rparr>\<lparr>hci_dev := d'\<rparr>)) \<and>
      map Inr ms = map (\<lambda>f. rtthread_ble_hci_frame_cb (frame_type f) (frame_data f)) [H4_Frame H4_EVT [0x0e, 0x00]] \<and>
      rx_wire d' = [])"
proof -
  have i: "ble_transport_rtthread_init \<lparr>env_find = True, env_open_rc = 0, env_control_rc = 0, env_thread_ok = True\<rparr> \<lparr>hci_uart_set = False, hci_uart_open = False, hci_dev = \<lparr>tx_wire = [], tx_calls = 0, rx_wire = [0x04, 0x0e, 0x00], rx_calls = 0\<rparr>, hci_h4sm = W4_HEADER H4_ACL [], hci_thread = False\<rparr> = Inr (0, \<lparr>hci_uart_set = True, hci_uart_open = True, hci_dev = \<lparr>tx_wire = [], tx_calls = 0, rx_wire = [0x04, 0x0e, 0x00], rx_calls = 0\<rparr>, hci_h4sm = W4_PKT_TYPE, hci_thread = True\<rparr>)"
    by (simp add: model_simps)
  have c: "\<forall>k. 0 < (\<lambda>_. 1::nat) k" by simp
  have w: "rx_wire (hci_dev \<lparr>hci_uart_set = False, hci_uart_open = False, hci_dev = \<lparr>tx_wire = [], tx_calls = 0, rx_wire = [0x04, 0x0e, 0x00], rx_calls = 0\<rparr>, hci_h4sm = W4_HEADER H4_ACL [], hci_thread = False\<rparr>) = concat (map h4_encode [H4_Frame H4_EVT [0x0e, 0x00]])"
    by (simp add: model_simps)
  have o: "list_all h4_frame_ok [H4_Frame H4_EVT [0x0e, 0x00]]" by simp
  have ty: "\<forall>f\<in>set [H4_Frame H4_EVT [0x0e, 0x00]]. frame_type f \<noteq> H4_CMD" by simp
  have n: "length (rx_wire (hci_dev \<lparr>hci_uart_set = False, hci_uart_open = False, hci_dev = \<lparr>tx_wire = [], tx_calls = 0, rx_wire = [0x04, 0x0e, 0x00], rx_calls = 0\<rparr>, hci_h4sm = W4_HEADER H4_ACL [], hci_thread = False\<rparr>)) \<le> 3" by simp
  from ble_transport_init_then_receive [OF i c w o ty n] show ?thesis .
qed

end
